(* ===== verification/Prelude.thy ===== *)
theory Prelude
  imports Main "HOL-Library.Word"
begin

text \<open>
  Shared vocabulary of the development: bytes and strings, results of calls that may fail or
  panic, the error values of the program, byte readers and writers, fixed-width integer
  encodings (\<^verbatim>\<open>encoding/binary\<close>), big integers (\<^verbatim>\<open>math/big\<close>) and the generic contract of a
  length-prefixed framing that \<^verbatim>\<open>internal/lencode\<close> and \<^verbatim>\<open>nativemsg\<close> both satisfy.
\<close>

named_theorems codec_simps "equations of the encoders and decoders"
named_theorems outcome_simps "how results are sequenced and what each handler reads"

section \<open>Bytes and strings\<close>

type_synonym byte = "8 word"
type_synonym bytes = "byte list"

text \<open>A Go string is a sequence of bytes; an Isabelle \<open>char\<close> is one byte.\<close>

definition str_bytes :: "string \<Rightarrow> bytes" where
  "str_bytes s = map of_char s"

lemma str_bytes_append [simp]: "str_bytes (s @ t) = str_bytes s @ str_bytes t"
  by (simp add: str_bytes_def)

lemma length_str_bytes [simp]: "length (str_bytes s) = length s"
  by (simp add: str_bytes_def)

lemma str_bytes_Nil [simp]: "str_bytes [] = []"
  by (simp add: str_bytes_def)

lemma unat_of_char_byte [simp]: "unat (of_char c :: byte) = of_char c"
proof -
  have "(of_char c :: byte) = of_nat (of_char c)"
    by (simp add: of_nat_of_char)
  then show ?thesis by (simp add: unat_of_nat)
qed

lemma inj_of_char_byte: "inj (of_char :: char \<Rightarrow> byte)"
proof (rule injI)
  fix c d :: char
  assume "(of_char c :: byte) = of_char d"
  then have "unat (of_char c :: byte) = unat (of_char d :: byte)" by simp
  then show "c = d" by simp
qed

lemma str_bytes_inject [simp]: "str_bytes s = str_bytes t \<longleftrightarrow> s = t"
  unfolding str_bytes_def by (rule inj_map_eq_map [OF inj_of_char_byte])

section \<open>Errors and results\<close>

text \<open>
  The sentinel errors of \<^verbatim>\<open>ctap2/ctap2.go\<close> and of \<^verbatim>\<open>webauthn/errors.go\<close> are distinct Go values
  even where their texts agree, so they are distinct constructors here.
\<close>

datatype ctap2_err =
    C_ErrCredentialExcluded | C_ErrNoCredentials | C_ErrUserDenied | C_ErrTimeout
  | C_ErrUnsupportedAlgorithm | C_ErrInvalidParameter

datatype webauthn_err =
    W_ErrUserDenied | W_ErrTimeout | W_ErrNoCredentials | W_ErrCredentialExcluded
  | W_ErrInvalidParameters | W_ErrUnsupportedAlgorithm | W_ErrInvalidPRFSalt
  | W_ErrPRFComputationFailed

text \<open>
  \<open>ErrMsg s\<close> is \<^verbatim>\<open>errors.New(s)\<close>, \<open>Wrapped s e\<close> is \<^verbatim>\<open>fmt.Errorf("s%w", e)\<close>.
\<close>

datatype gerr =
    EOF | UnexpectedEOF | SeparatorMismatch
  | ErrMsg string
  | Wrapped string gerr
  | Ctap2Err ctap2_err
  | WebAuthnErr webauthn_err

fun ctap2_err_text :: "ctap2_err \<Rightarrow> string" where
  "ctap2_err_text C_ErrCredentialExcluded = ''credential already registered''"
| "ctap2_err_text C_ErrNoCredentials = ''no credentials found''"
| "ctap2_err_text C_ErrUserDenied = ''user denied the request''"
| "ctap2_err_text C_ErrTimeout = ''operation timed out''"
| "ctap2_err_text C_ErrUnsupportedAlgorithm = ''unsupported algorithm''"
| "ctap2_err_text C_ErrInvalidParameter = ''invalid parameter''"

fun webauthn_err_text :: "webauthn_err \<Rightarrow> string" where
  "webauthn_err_text W_ErrUserDenied = ''user denied the request''"
| "webauthn_err_text W_ErrTimeout = ''operation timed out''"
| "webauthn_err_text W_ErrNoCredentials = ''no credentials found''"
| "webauthn_err_text W_ErrCredentialExcluded = ''credential already registered''"
| "webauthn_err_text W_ErrInvalidParameters = ''invalid parameters''"
| "webauthn_err_text W_ErrUnsupportedAlgorithm = ''unsupported algorithm''"
| "webauthn_err_text W_ErrInvalidPRFSalt = ''invalid PRF salt''"
| "webauthn_err_text W_ErrPRFComputationFailed = ''PRF computation failed''"

text \<open>The \<^verbatim>\<open>Error()\<close> method.\<close>

fun err_text :: "gerr \<Rightarrow> string" where
  "err_text EOF = ''EOF''"
| "err_text UnexpectedEOF = ''unexpected EOF''"
| "err_text SeparatorMismatch = ''Separator mismatch''"
| "err_text (ErrMsg s) = s"
| "err_text (Wrapped s e) = s @ err_text e"
| "err_text (Ctap2Err c) = ctap2_err_text c"
| "err_text (WebAuthnErr w) = webauthn_err_text w"

text \<open>\<^verbatim>\<open>errors.Is(err, target)\<close> for a sentinel target: equal, or equal after unwrapping.\<close>

fun errors_Is :: "gerr \<Rightarrow> gerr \<Rightarrow> bool" where
  "errors_Is (Wrapped s e) t = (Wrapped s e = t \<or> errors_Is e t)"
| "errors_Is e t = (e = t)"

text \<open>
  A call returns a value, returns an error, or panics (which ends the process). A panic is a
  value of the model so that no theorem can mistake it for a returned error.
\<close>

datatype 'a res = Ok 'a | Err gerr | Panic string

fun is_ok :: "'a res \<Rightarrow> bool" where
  "is_ok (Ok _) = True"
| "is_ok _ = False"

fun is_panic :: "'a res \<Rightarrow> bool" where
  "is_panic (Panic _) = True"
| "is_panic _ = False"

lemma is_ok_iff: "is_ok r \<longleftrightarrow> (\<exists>a. r = Ok a)"
  by (cases r) auto

lemma is_panic_iff: "is_panic r \<longleftrightarrow> (\<exists>m. r = Panic m)"
  by (cases r) auto

text \<open>Sequencing of a stateful call with the rest of the function, for the early returns.\<close>

definition and_then :: "'a res \<times> 's \<Rightarrow> ('a \<Rightarrow> 's \<Rightarrow> 'b res \<times> 's) \<Rightarrow> 'b res \<times> 's" where
  "and_then p k =
     (case p of (Ok a, s) \<Rightarrow> k a s | (Err e, s) \<Rightarrow> (Err e, s) | (Panic m, s) \<Rightarrow> (Panic m, s))"

lemma and_then_simps [simp, outcome_simps]:
  "and_then (Ok a, s) k = k a s"
  "and_then (Err e, s) k = (Err e, s)"
  "and_then (Panic m, s) k = (Panic m, s)"
  by (simp_all add: and_then_def)

lemma and_then_eq_Ok:
  "and_then p k = (Ok b, t) \<longleftrightarrow> (\<exists>a s. p = (Ok a, s) \<and> k a s = (Ok b, t))"
  by (cases p; cases "fst p") (auto simp: and_then_def)

definition wrap_err :: "string \<Rightarrow> 'a res \<Rightarrow> 'a res" where
  "wrap_err s r = (case r of Err e \<Rightarrow> Err (Wrapped s e) | _ \<Rightarrow> r)"

lemma wrap_err_simps [simp, outcome_simps]:
  "wrap_err s (Ok a) = Ok a"
  "wrap_err s (Err e) = Err (Wrapped s e)"
  "wrap_err s (Panic m) = Panic m"
  by (simp_all add: wrap_err_def)

section \<open>Decimal numerals in error texts\<close>

fun show_nat :: "nat \<Rightarrow> string" where
  "show_nat n =
     (if n < 10 then [char_of (48 + n)] else show_nat (n div 10) @ [char_of (48 + n mod 10)])"

declare show_nat.simps [simp del]

section \<open>Integers as bytes\<close>

text \<open>
  \<open>be_fixed k n\<close> is the big-endian encoding of \<open>n mod 256 ^ k\<close> in exactly \<open>k\<close> bytes
  (\<^verbatim>\<open>binary.Write\<close> with \<^verbatim>\<open>binary.BigEndian\<close>), \<open>le_fixed\<close> the little-endian one;
  \<open>be_nat\<close> is \<^verbatim>\<open>big.Int.SetBytes\<close> and \<open>nat_bytes\<close> the minimal encoding \<^verbatim>\<open>big.Int.Bytes\<close>.
\<close>

fun be_fixed :: "nat \<Rightarrow> nat \<Rightarrow> bytes" where
  "be_fixed 0 n = []"
| "be_fixed (Suc k) n = be_fixed k (n div 256) @ [of_nat n]"

fun le_fixed :: "nat \<Rightarrow> nat \<Rightarrow> bytes" where
  "le_fixed 0 n = []"
| "le_fixed (Suc k) n = of_nat n # le_fixed k (n div 256)"

definition be_nat :: "bytes \<Rightarrow> nat" where
  "be_nat bs = foldl (\<lambda>a b. a * 256 + unat b) 0 bs"

fun le_nat :: "bytes \<Rightarrow> nat" where
  "le_nat [] = 0"
| "le_nat (b # bs) = unat b + 256 * le_nat bs"

fun nat_bytes :: "nat \<Rightarrow> bytes" where
  "nat_bytes n = (if n = 0 then [] else nat_bytes (n div 256) @ [of_nat n])"

declare nat_bytes.simps [simp del]

lemma nat_bytes_0 [simp]: "nat_bytes 0 = []"
  by (simp add: nat_bytes.simps)

lemma length_be_fixed [simp]: "length (be_fixed k n) = k"
  by (induction k arbitrary: n) auto

lemma length_le_fixed [simp]: "length (le_fixed k n) = k"
  by (induction k arbitrary: n) auto

lemma be_fixed_eq_Nil [simp]: "be_fixed k n = [] \<longleftrightarrow> k = 0"
  by (cases k) simp_all

lemma le_fixed_eq_Nil [simp]: "le_fixed k n = [] \<longleftrightarrow> k = 0"
  by (cases k) simp_all

lemma unat_byte_lt [simp]: "unat (b :: byte) < 256"
  using unsigned_less [of b] by simp

lemma word_nat_bound: "unat (w :: 'a :: len word) < 2 ^ LENGTH('a)"
  by (rule unsigned_less)

lemma unat_of_nat_byte: "unat (of_nat n :: byte) = n mod 256"
  by (simp add: unat_of_nat)

lemma of_nat_mod_byte [simp]: "(of_nat (n mod 256) :: byte) = of_nat n"
  by (rule word_unat_eq_iff [THEN iffD2]) (simp add: unat_of_nat)

lemma be_nat_Nil [simp]: "be_nat [] = 0"
  by (simp add: be_nat_def)

lemma be_nat_snoc [simp]: "be_nat (bs @ [b]) = be_nat bs * 256 + unat b"
  by (simp add: be_nat_def)

lemma be_nat_be_fixed: "be_nat (be_fixed k n) = n mod 256 ^ k"
proof (induction k arbitrary: n)
  case 0
  then show ?case by simp
next
  case (Suc k)
  have "n mod (256 * 256 ^ k) = 256 * (n div 256 mod 256 ^ k) + n mod 256"
    by (rule mod_mult2_eq)
  with Suc.IH [of "n div 256"] show ?case
    by (simp add: unat_of_nat_byte)
qed

lemma le_nat_le_fixed: "le_nat (le_fixed k n) = n mod 256 ^ k"
proof (induction k arbitrary: n)
  case 0
  then show ?case by simp
next
  case (Suc k)
  have "n mod (256 * 256 ^ k) = 256 * (n div 256 mod 256 ^ k) + n mod 256"
    by (rule mod_mult2_eq)
  with Suc.IH [of "n div 256"] show ?case
    by (simp add: unat_of_nat_byte)
qed

lemma be_nat_nat_bytes [simp]: "be_nat (nat_bytes n) = n"
proof (induction n rule: nat_bytes.induct)
  case (1 n)
  then show ?case
    by (cases "n = 0") (simp_all add: nat_bytes.simps [of n] unat_of_nat_byte)
qed

lemma nat_bytes_length_le: "n < 256 ^ k \<Longrightarrow> length (nat_bytes n) \<le> k"
proof (induction k arbitrary: n)
  case 0
  then show ?case by (simp add: nat_bytes.simps)
next
  case (Suc k)
  show ?case
  proof (cases "n = 0")
    case False
    from Suc.prems have "n div 256 < 256 ^ k"
      by (simp add: less_mult_imp_div_less)
    from Suc.IH [OF this] False show ?thesis
      by (simp add: nat_bytes.simps [of n])
  qed simp
qed

text \<open>Left-padding the minimal encoding with zeros gives the fixed-width one.\<close>

lemma be_fixed_0: "be_fixed k 0 = replicate k 0"
  by (induction k) (simp_all add: replicate_append_same)

lemma nat_bytes_pad: "n < 256 ^ k \<Longrightarrow>
    replicate (k - length (nat_bytes n)) 0 @ nat_bytes n = be_fixed k n"
proof (induction k arbitrary: n)
  case 0
  then show ?case by (simp add: nat_bytes.simps)
next
  case (Suc k)
  show ?case
  proof (cases "n = 0")
    case True
    then show ?thesis by (simp only: be_fixed_0) simp
  next
    case False
    from Suc.prems have *: "n div 256 < 256 ^ k"
      by (simp add: less_mult_imp_div_less)
    from False have "nat_bytes n = nat_bytes (n div 256) @ [of_nat n]"
      by (simp add: nat_bytes.simps [of n])
    with Suc.IH [OF *] show ?thesis by simp
  qed
qed

lemma be_fixed_inject: "m < 256 ^ k \<Longrightarrow> n < 256 ^ k \<Longrightarrow> be_fixed k m = be_fixed k n \<longleftrightarrow> m = n"
  by (metis be_nat_be_fixed mod_less)

section \<open>Readers and writers\<close>

text \<open>
  An \<^verbatim>\<open>io.Reader\<close> is the bytes still to come and the error it returns after them (a
  \<^verbatim>\<open>bytes.Reader\<close> ends with \<open>EOF\<close>). \<open>ReadFull n\<close> is \<^verbatim>\<open>io.ReadFull\<close> into a buffer of length
  \<open>n\<close>: \<open>EOF\<close> only if nothing was read, \<open>UnexpectedEOF\<close> after a partial read.
\<close>

record Reader =
  rd_data :: bytes
  rd_end :: gerr

definition bytes_reader :: "bytes \<Rightarrow> Reader" where
  "bytes_reader bs = \<lparr>rd_data = bs, rd_end = EOF\<rparr>"

definition ReadFull :: "nat \<Rightarrow> Reader \<Rightarrow> (gerr + bytes) \<times> Reader" where
  "ReadFull n r =
     (if n \<le> length (rd_data r)
      then (Inr (take n (rd_data r)), r\<lparr>rd_data := drop n (rd_data r)\<rparr>)
      else (Inl (if rd_data r \<noteq> [] \<and> rd_end r = EOF then UnexpectedEOF else rd_end r),
            r\<lparr>rd_data := []\<rparr>))"

lemma ReadFull_enough [codec_simps]:
  "n = length xs \<Longrightarrow>
   ReadFull n \<lparr>rd_data = xs @ ys, rd_end = e\<rparr> = (Inr xs, \<lparr>rd_data = ys, rd_end = e\<rparr>)"
  by (simp add: ReadFull_def)

text \<open>
  An \<^verbatim>\<open>io.Writer\<close> collects what is written; \<open>wr_room = Some k\<close> means only \<open>k\<close> more bytes are
  accepted before writes fail (a closed pipe, a full device), \<open>None\<close> that writes never fail
  (\<^verbatim>\<open>bytes.Buffer\<close>).
\<close>

record Writer =
  wr_out :: bytes
  wr_room :: "nat option"

definition bytes_buffer :: Writer where
  "bytes_buffer = \<lparr>wr_out = [], wr_room = None\<rparr>"

definition wr_fail :: gerr where
  "wr_fail = ErrMsg ''short write''"

definition wr_write :: "bytes \<Rightarrow> Writer \<Rightarrow> gerr option \<times> Writer" where
  "wr_write b w =
     (case wr_room w of
        None \<Rightarrow> (None, w\<lparr>wr_out := wr_out w @ b\<rparr>)
      | Some k \<Rightarrow>
          if length b \<le> k
          then (None, w\<lparr>wr_out := wr_out w @ b, wr_room := Some (k - length b)\<rparr>)
          else (Some wr_fail, w\<lparr>wr_out := wr_out w @ take k b, wr_room := Some 0\<rparr>))"

lemma wr_write_unbounded [codec_simps]:
  "wr_room w = None \<Longrightarrow> wr_write b w = (None, w\<lparr>wr_out := wr_out w @ b\<rparr>)"
  by (simp add: wr_write_def)

section \<open>Length-prefixed framing\<close>

text \<open>
  \<open>drain n step bs\<close> decodes up to \<open>n\<close> messages from \<open>bs\<close> and stops at the first error.
\<close>

fun drain :: "nat \<Rightarrow> (bytes \<Rightarrow> 'm res \<times> bytes) \<Rightarrow> bytes \<Rightarrow> 'm list \<times> 'm res option \<times> bytes" where
  "drain 0 step bs = ([], None, bs)"
| "drain (Suc n) step bs =
     (case step bs of
        (Ok m, bs') \<Rightarrow> (case drain n step bs' of (ms, r, rest) \<Rightarrow> (m # ms, r, rest))
      | (r, bs') \<Rightarrow> ([], Some r, bs'))"

text \<open>
  The contract: decoding the frame of a message gives the message and leaves what follows it;
  the empty input gives \<open>EOF\<close>; a frame cut short never gives a message, and never a bare \<open>EOF\<close>,
  which the readers of a stream take for a clean end.
\<close>

locale framing =
  fixes valid :: "'m \<Rightarrow> bool"
    and frame :: "'m \<Rightarrow> bytes"
    and step :: "bytes \<Rightarrow> 'm res \<times> bytes"
  assumes step_frame: "valid m \<Longrightarrow> step (frame m @ rest) = (Ok m, rest)"
    and step_empty: "step [] = (Err EOF, [])"
    and step_cut: "valid m \<Longrightarrow> 0 < k \<Longrightarrow> k < length (frame m) \<Longrightarrow>
      \<exists>e rest. step (take k (frame m)) = (Err e, rest) \<and> e \<noteq> EOF"
begin

lemma drain_frames:
  "\<forall>m \<in> set ms. valid m \<Longrightarrow>
   drain (length ms) step (concat (map frame ms) @ rest) = (ms, None, rest)"
  by (induction ms) (simp_all add: step_frame)

lemma drain_all:
  "\<forall>m \<in> set ms. valid m \<Longrightarrow>
   drain (Suc (length ms)) step (concat (map frame ms)) = (ms, Some (Err EOF), [])"
proof (induction ms)
  case Nil
  then show ?case by (simp add: step_empty)
next
  case (Cons m ms)
  then show ?case by (simp add: step_frame)
qed

lemma frame_neq_Nil: "valid m \<Longrightarrow> frame m \<noteq> []"
  by (metis Pair_inject append_Nil res.distinct(1) step_empty step_frame)

lemma frame_inject: "valid m \<Longrightarrow> valid n \<Longrightarrow> frame m @ xs = frame n @ ys \<Longrightarrow> m = n \<and> xs = ys"
  by (metis Pair_inject res.inject(1) step_frame)

lemma frames_inject:
  "\<forall>m \<in> set ms. valid m \<Longrightarrow> \<forall>m \<in> set ns. valid m \<Longrightarrow>
   concat (map frame ms) = concat (map frame ns) \<Longrightarrow> ms = ns"
proof (induction ms arbitrary: ns)
  case Nil
  then show ?case by (cases ns) (auto simp: frame_neq_Nil)
next
  case (Cons m ms)
  show ?case
  proof (cases ns)
    case Nil
    with Cons.prems show ?thesis by (auto simp: frame_neq_Nil)
  next
    case (Cons n ns')
    with Cons.prems have "valid m" "valid n"
      and "frame m @ concat (map frame ms) = frame n @ concat (map frame ns')" by auto
    then have "m = n \<and> concat (map frame ms) = concat (map frame ns')"
      by (rule frame_inject)
    with Cons Cons.IH [of ns'] Cons.prems show ?thesis by auto
  qed
qed

text \<open>
  A stream of frames cut at any point decodes to a prefix of the messages: either the cut is on a
  boundary and the end is \<open>EOF\<close>, or the last step fails with an error that is not \<open>EOF\<close>.
\<close>

lemma drain_cut:
  "\<forall>m \<in> set ms. valid m \<Longrightarrow> k \<le> length (concat (map frame ms)) \<Longrightarrow>
   \<exists>j e rest. j \<le> length ms \<and>
     drain (Suc (length ms)) step (take k (concat (map frame ms))) = (take j ms, Some (Err e), rest) \<and>
     (e = EOF \<longleftrightarrow> k = length (concat (map frame (take j ms))))"
proof (induction ms arbitrary: k)
  case Nil
  then show ?case by (simp add: step_empty)
next
  case (Cons m ms)
  let ?f = "frame m" and ?rest = "concat (map frame ms)"
  consider "k = 0" | "0 < k" "k < length ?f" | "length ?f \<le> k" by linarith
  then show ?case
  proof cases
    case 1
    then show ?thesis by (intro exI [of _ 0]) (simp add: step_empty)
  next
    case 2
    with Cons.prems step_cut [of m k] obtain e rest
      where "step (take k ?f) = (Err e, rest)" "e \<noteq> EOF" by auto
    with 2 show ?thesis by (intro exI [of _ 0]) simp
  next
    case 3
    then have "k - length ?f \<le> length ?rest" using Cons.prems by simp
    with Cons.IH [of "k - length ?f"] Cons.prems obtain j e rest where
      j: "j \<le> length ms" and
      d: "drain (Suc (length ms)) step (take (k - length ?f) ?rest) = (take j ms, Some (Err e), rest)" and
      e: "e = EOF \<longleftrightarrow> k - length ?f = length (concat (map frame (take j ms)))"
      by auto
    from 3 have "take k (concat (map frame (m # ms))) = ?f @ take (k - length ?f) ?rest" by simp
    with j d e 3 Cons.prems show ?thesis
      by (intro exI [of _ "Suc j"]) (auto simp: step_frame simp del: drain.simps(1))
  qed
qed

end

end
