(* ===== verification/Lencode.thy ===== *)
theory Lencode
  imports Prelude
begin

text \<open>
  \<^verbatim>\<open>internal/lencode/lencode.go\<close>: messages framed by an optional separator and a one-byte
  length. The TPM backend builds its key handles with it (three frames, separator \<^verbatim>\<open>TPM\<close>). The
  encoder and the decoder are explicit states with their sticky error; \<^verbatim>\<open>prefixBuf\<close> is a buffer
  that every use overwrites in full before reading it, so it is a local value here.
\<close>

section \<open>Encoder\<close>

datatype Option = SeparatorOpt "bytes option"

definition defaultSeparator :: "bytes option" where
  "defaultSeparator = Some (str_bytes ''lenc'')"

record Encoder =
  enc_w :: Writer
  enc_separator :: "bytes option"
  enc_err :: "gerr option"

fun encoderOpt :: "Option \<Rightarrow> Encoder \<Rightarrow> Encoder" where
  "encoderOpt (SeparatorOpt s) e = e\<lparr>enc_separator := s\<rparr>"

definition NewEncoder :: "Writer \<Rightarrow> Option list \<Rightarrow> Encoder" where
  "NewEncoder w opts =
     fold encoderOpt opts \<lparr>enc_w = w, enc_separator = defaultSeparator, enc_err = None\<rparr>"

definition enc_write :: "bytes \<Rightarrow> Encoder \<Rightarrow> gerr option \<times> Encoder" where
  "enc_write b e =
     (case enc_err e of
        Some er \<Rightarrow> (Some er, e)
      | None \<Rightarrow>
          (case wr_write b (enc_w e) of
             (Some er, w) \<Rightarrow> (Some er, e\<lparr>enc_w := w, enc_err := Some er\<rparr>)
           | (None, w) \<Rightarrow> (None, e\<lparr>enc_w := w\<rparr>)))"

definition msg_too_long :: gerr where
  "msg_too_long = ErrMsg ''Message too long to encode length in 1 byte''"

definition Encode :: "bytes \<Rightarrow> Encoder \<Rightarrow> gerr option \<times> Encoder" where
  "Encode msg e =
     (case enc_err e of
        Some er \<Rightarrow> (Some er, e)
      | None \<Rightarrow>
          if length msg > 0xff then (Some msg_too_long, e\<lparr>enc_err := Some msg_too_long\<rparr>)
          else
            let e1 = (case enc_separator e of None \<Rightarrow> e | Some s \<Rightarrow> snd (enc_write s e));
                e2 = snd (enc_write [of_nat (length msg)] e1);
                e3 = snd (enc_write msg e2)
            in (enc_err e3, e3))"

section \<open>Decoder\<close>

record Decoder =
  dec_r :: Reader
  dec_separator :: "bytes option"
  dec_err :: "gerr option"
  pendingPrefix :: bool
  pendingLen :: nat

fun decoderOpt :: "Option \<Rightarrow> Decoder \<Rightarrow> Decoder" where
  "decoderOpt (SeparatorOpt s) d = d\<lparr>dec_separator := s\<rparr>"

definition NewDecoder :: "Reader \<Rightarrow> Option list \<Rightarrow> Decoder" where
  "NewDecoder r opts =
     fold decoderOpt opts
       \<lparr>dec_r = r, dec_separator = defaultSeparator, dec_err = None,
        pendingPrefix = False, pendingLen = 0\<rparr>"

text \<open>\<^verbatim>\<open>len(nil)\<close> is 0: a nil separator reads as the empty one.\<close>

definition sep_bytes :: "bytes option \<Rightarrow> bytes" where
  "sep_bytes s = (case s of None \<Rightarrow> [] | Some b \<Rightarrow> b)"

definition readPrefix :: "Decoder \<Rightarrow> gerr option \<times> Decoder" where
  "readPrefix d =
     (case dec_err d of
        Some er \<Rightarrow> (Some er, d)
      | None \<Rightarrow>
          if pendingPrefix d then (None, d)
          else
            let sep = sep_bytes (dec_separator d) in
            (case ReadFull (length sep + 1) (dec_r d) of
               (Inr prefixBuf, r) \<Rightarrow>
                 if 0 < length sep \<and> take (length sep) prefixBuf \<noteq> sep
                 then (Some SeparatorMismatch, d\<lparr>dec_r := r, dec_err := Some SeparatorMismatch\<rparr>)
                 else (None, d\<lparr>dec_r := r, pendingPrefix := True,
                               pendingLen := unat (prefixBuf ! length sep)\<rparr>)
             | (Inl er, r) \<Rightarrow> (Some er, d\<lparr>dec_r := r, dec_err := Some er\<rparr>)))"

definition buf_too_small :: gerr where
  "buf_too_small = ErrMsg ''Buffer not large enough for next message''"

text \<open>
  \<open>DecodeInto blen bcap d\<close> decodes into a slice of length \<open>blen\<close> and capacity \<open>bcap\<close>; the value
  returned is what the slice's first \<open>pendingLen\<close> bytes then hold. Slicing \<^verbatim>\<open>b[:d.pendingLen]\<close>
  beyond the capacity panics.
\<close>

definition DecodeInto :: "nat \<Rightarrow> nat \<Rightarrow> Decoder \<Rightarrow> bytes res \<times> Decoder" where
  "DecodeInto blen bcap d =
     (case readPrefix d of
        (Some er, d1) \<Rightarrow> (Err er, d1)
      | (None, d1) \<Rightarrow>
          if pendingLen d1 < blen then (Err buf_too_small, d1\<lparr>dec_err := Some buf_too_small\<rparr>)
          else if bcap < pendingLen d1 then (Panic ''slice bounds out of range'', d1)
          else
            (case ReadFull (pendingLen d1) (dec_r d1) of
               (Inl er, r) \<Rightarrow>
                 let er' = (if er = EOF then UnexpectedEOF else er)
                 in (Err er', d1\<lparr>dec_r := r, dec_err := Some er'\<rparr>)
             | (Inr payload, r) \<Rightarrow>
                 (Ok payload, d1\<lparr>dec_r := r, pendingPrefix := False, pendingLen := 0\<rparr>)))"

definition Decode :: "Decoder \<Rightarrow> bytes res \<times> Decoder" where
  "Decode d =
     (case readPrefix d of
        (Some er, d1) \<Rightarrow> (Err er, d1)
      | (None, d1) \<Rightarrow> DecodeInto (pendingLen d1) (pendingLen d1) d1)"

definition NextLen :: "Decoder \<Rightarrow> nat res \<times> Decoder" where
  "NextLen d =
     (case dec_err d of
        Some er \<Rightarrow> (Err er, d)
      | None \<Rightarrow>
          if pendingPrefix d then (Ok (pendingLen d), d)
          else (case readPrefix d of
                  (Some er, d1) \<Rightarrow> (Err er, d1)
                | (None, d1) \<Rightarrow> (Ok (pendingLen d1), d1)))"

section \<open>The frame of a message\<close>

definition lenc_frame :: "bytes option \<Rightarrow> bytes \<Rightarrow> bytes" where
  "lenc_frame sep m = sep_bytes sep @ [of_nat (length m)] @ m"

text \<open>A decoder with nothing pending and no error, as \<open>NewDecoder\<close> returns it.\<close>

definition clean_decoder :: "bytes option \<Rightarrow> gerr \<Rightarrow> bytes \<Rightarrow> Decoder" where
  "clean_decoder sep e bs =
     \<lparr>dec_r = \<lparr>rd_data = bs, rd_end = e\<rparr>, dec_separator = sep, dec_err = None,
      pendingPrefix = False, pendingLen = 0\<rparr>"

text \<open>One \<open>Decode\<close> of a fresh decoder over a byte slice, with the input that is left.\<close>

definition lenc_step :: "bytes option \<Rightarrow> bytes \<Rightarrow> bytes res \<times> bytes" where
  "lenc_step sep bs =
     (case Decode (clean_decoder sep EOF bs) of (r, d) \<Rightarrow> (r, rd_data (dec_r d)))"

text \<open>Encoding a list of messages, and calling \<open>Decode\<close> repeatedly until it fails.\<close>

fun EncodeAll :: "bytes list \<Rightarrow> Encoder \<Rightarrow> gerr option \<times> Encoder" where
  "EncodeAll [] e = (enc_err e, e)"
| "EncodeAll (m # ms) e = EncodeAll ms (snd (Encode m e))"

fun DecodeMany :: "nat \<Rightarrow> Decoder \<Rightarrow> bytes list \<times> bytes res option \<times> Decoder" where
  "DecodeMany 0 d = ([], None, d)"
| "DecodeMany (Suc n) d =
     (case Decode d of
        (Ok m, d') \<Rightarrow> (case DecodeMany n d' of (ms, r, d'') \<Rightarrow> (m # ms, r, d''))
      | (r, d') \<Rightarrow> ([], Some r, d'))"

lemma NewDecoder_clean [codec_simps]:
  "NewDecoder (bytes_reader bs) [SeparatorOpt sep] = clean_decoder sep EOF bs"
  by (simp add: NewDecoder_def clean_decoder_def bytes_reader_def)

lemma sep_bytes_simps [simp]: "sep_bytes None = []" "sep_bytes (Some s) = s"
  by (simp_all add: sep_bytes_def)

subsection \<open>Encoding\<close>

lemma Encode_buffer [codec_simps]:
  assumes "enc_err e = None" "wr_room (enc_w e) = None" "length m \<le> 255"
  shows "Encode m e =
    (None, e\<lparr>enc_w := enc_w e\<lparr>wr_out := wr_out (enc_w e) @ lenc_frame (enc_separator e) m\<rparr>\<rparr>)"
  using assms
  by (cases "enc_separator e")
     (simp_all add: Encode_def enc_write_def wr_write_unbounded lenc_frame_def)

lemma Encode_err: "enc_err e = Some er \<Longrightarrow> Encode m e = (Some er, e)"
  by (simp add: Encode_def)

lemma EncodeAll_err: "enc_err e = Some er \<Longrightarrow> EncodeAll ms e = (Some er, e)"
  by (induction ms) (simp_all add: Encode_err)

lemma EncodeAll_buffer:
  assumes "enc_err e = None" "wr_room (enc_w e) = None" "\<forall>m \<in> set ms. length m \<le> 255"
  shows "EncodeAll ms e =
    (None, e\<lparr>enc_w := enc_w e\<lparr>wr_out := wr_out (enc_w e)
       @ concat (map (lenc_frame (enc_separator e)) ms)\<rparr>\<rparr>)"
  using assms by (induction ms arbitrary: e) (simp_all add: Encode_buffer)

lemma EncodeAll_new:
  assumes "\<forall>m \<in> set ms. length m \<le> 255"
  shows "wr_out (enc_w (snd (EncodeAll ms (NewEncoder bytes_buffer [SeparatorOpt sep])))) =
    concat (map (lenc_frame sep) ms)"
  using assms by (simp add: EncodeAll_buffer NewEncoder_def bytes_buffer_def)

subsection \<open>Decoding\<close>

lemma readPrefix_frame:
  assumes "length m \<le> 255"
  shows "readPrefix (clean_decoder sep e (lenc_frame sep m @ rest)) =
    (None, (clean_decoder sep e (m @ rest))\<lparr>pendingPrefix := True, pendingLen := length m\<rparr>)"
  using assms
  by (simp add: readPrefix_def clean_decoder_def lenc_frame_def ReadFull_def Let_def
      nth_append unat_of_nat_byte)

lemma Decode_frame [codec_simps]:
  assumes "length m \<le> 255"
  shows "Decode (clean_decoder sep e (lenc_frame sep m @ rest)) = (Ok m, clean_decoder sep e rest)"
  using assms
  by (simp add: Decode_def readPrefix_frame DecodeInto_def readPrefix_def [of "_\<lparr>pendingPrefix := True, pendingLen := _\<rparr>"])
     (simp add: clean_decoder_def ReadFull_def)

lemma Decode_empty: "Decode (clean_decoder sep e []) = (Err e, (clean_decoder sep e [])\<lparr>dec_err := Some e\<rparr>)"
  by (simp add: Decode_def readPrefix_def clean_decoder_def ReadFull_def)

lemma Decode_cut:
  assumes "length m \<le> 255" "0 < k" "k < length (lenc_frame sep m)"
  shows "\<exists>d. Decode (clean_decoder sep EOF (take k (lenc_frame sep m))) = (Err UnexpectedEOF, d)
     \<and> rd_data (dec_r d) = []"
proof (cases "k < length (sep_bytes sep) + 1")
  case True
  with assms show ?thesis
    by (auto simp: Decode_def readPrefix_def clean_decoder_def ReadFull_def lenc_frame_def Let_def)
next
  case False
  define j where "j = k - (length (sep_bytes sep) + 1)"
  from False have k: "k = length (sep_bytes sep) + 1 + j" by (simp add: j_def)
  have cut: "take k (lenc_frame sep m) = sep_bytes sep @ [of_nat (length m)] @ take j m"
    unfolding k lenc_frame_def by simp
  have j: "j < length m" using assms(3) k by (simp add: lenc_frame_def)
  let ?d = "(clean_decoder sep EOF (take j m))\<lparr>pendingPrefix := True, pendingLen := length m\<rparr>"
  have rp: "readPrefix (clean_decoder sep EOF (take k (lenc_frame sep m))) = (None, ?d)"
    unfolding cut using assms(1)
    by (simp add: readPrefix_def clean_decoder_def ReadFull_def nth_append unat_of_nat_byte)
  moreover have "readPrefix ?d = (None, ?d)"
    by (simp add: readPrefix_def clean_decoder_def)
  ultimately show ?thesis using j
    by (simp add: Decode_def DecodeInto_def)
       (auto simp: clean_decoder_def ReadFull_def)
qed

interpretation lenc: framing "\<lambda>m. length m \<le> 255" "lenc_frame sep" "lenc_step sep"
  for sep :: "bytes option"
proof unfold_locales
  fix m rest :: bytes
  assume "length m \<le> 255"
  then show "lenc_step sep (lenc_frame sep m @ rest) = (Ok m, rest)"
    by (simp add: lenc_step_def Decode_frame) (simp add: clean_decoder_def)
next
  show "lenc_step sep [] = (Err EOF, [])"
    by (simp add: lenc_step_def Decode_empty) (simp add: clean_decoder_def)
next
  fix m :: bytes and k :: nat
  assume "length m \<le> 255" "0 < k" "k < length (lenc_frame sep m)"
  from Decode_cut [OF this]
  show "\<exists>e rest. lenc_step sep (take k (lenc_frame sep m)) = (Err e, rest) \<and> e \<noteq> EOF"
    by (auto simp: lenc_step_def)
qed

subsection \<open>Decoder states\<close>

lemma ReadFull_length: "ReadFull n r = (Inr xs, r') \<Longrightarrow> length xs = n"
  by (auto simp: ReadFull_def split: if_splits)

lemma ReadFull_frame: "ReadFull n r = (x, r') \<Longrightarrow> rd_end r' = rd_end r"
  by (auto simp: ReadFull_def split: if_splits)

lemma Decode_clean:
  assumes "Decode (clean_decoder sep e bs) = (Ok m, d)"
  shows "d = clean_decoder sep e (rd_data (dec_r d))"
  using assms
  by (auto simp: Decode_def DecodeInto_def readPrefix_def clean_decoder_def ReadFull_def Let_def
      split: if_splits)

lemma DecodeMany_drain:
  "DecodeMany n (clean_decoder sep EOF bs) = (ms, r, d) \<Longrightarrow>
   drain n (lenc_step sep) bs = (ms, r, rd_data (dec_r d))"
proof (induction n arbitrary: bs ms r d)
  case 0
  then show ?case by (auto simp: clean_decoder_def)
next
  case (Suc n)
  obtain x d1 where D: "Decode (clean_decoder sep EOF bs) = (x, d1)" by fastforce
  then have L: "lenc_step sep bs = (x, rd_data (dec_r d1))" by (simp add: lenc_step_def)
  show ?case
  proof (cases x)
    case (Ok m)
    with D have c: "d1 = clean_decoder sep EOF (rd_data (dec_r d1))"
      by (auto dest: Decode_clean)
    obtain ms' r' d2 where M: "DecodeMany n d1 = (ms', r', d2)" by (cases "DecodeMany n d1") auto
    from M c have "drain n (lenc_step sep) (rd_data (dec_r d1)) = (ms', r', rd_data (dec_r d2))"
      using Suc.IH by metis
    with Suc.prems D L Ok M show ?thesis by auto
  qed (use Suc.prems D L in auto)
qed

lemma readPrefix_err_sets: "readPrefix d = (Some er, d') \<Longrightarrow> dec_err d' = Some er"
  by (auto simp: readPrefix_def Let_def split: option.splits if_splits prod.splits sum.splits)

lemma readPrefix_ok: "readPrefix d = (None, d') \<Longrightarrow> pendingPrefix d' \<and> dec_err d' = None"
  by (auto simp: readPrefix_def Let_def split: option.splits if_splits prod.splits sum.splits)

lemma readPrefix_again: "pendingPrefix d \<Longrightarrow> dec_err d = None \<Longrightarrow> readPrefix d = (None, d)"
  by (simp add: readPrefix_def)

lemma DecodeInto_err_sets: "DecodeInto bl bc d = (Err er, d') \<Longrightarrow> dec_err d' = Some er"
  by (auto simp: DecodeInto_def Let_def readPrefix_err_sets
      split: option.splits if_splits prod.splits sum.splits)

lemma Decode_err_sets: "Decode d = (Err er, d') \<Longrightarrow> dec_err d' = Some er"
  by (auto simp: Decode_def readPrefix_err_sets DecodeInto_err_sets
      split: option.splits prod.splits)

text \<open>What decodes was framed, and decoding never panics.\<close>

lemma Decode_ok_frame:
  assumes "Decode (clean_decoder sep e bs) = (Ok m, d)"
  shows "\<exists>rest. length m \<le> 255 \<and> bs = lenc_frame sep m @ rest \<and> d = clean_decoder sep e rest"
proof -
  let ?s = "sep_bytes sep"
  from assms have l: "length ?s < length bs" and s: "take (length ?s) bs = ?s"
    and n: "length ?s + 1 + unat (bs ! length ?s) \<le> length bs"
    and m: "m = take (unat (bs ! length ?s)) (drop (length ?s + 1) bs)"
    and d: "d = clean_decoder sep e (drop (length ?s + 1 + unat (bs ! length ?s)) bs)"
    by (auto simp: Decode_def DecodeInto_def readPrefix_def clean_decoder_def ReadFull_def Let_def add.commute
        split: if_splits)
  from n m have lm: "length m = unat (bs ! length ?s)" by simp
  have "bs = take (length ?s) bs @ bs ! length ?s # drop (Suc (length ?s)) bs"
    using l by (simp add: id_take_nth_drop)
  also have "drop (Suc (length ?s)) bs = m @ drop (length m) (drop (Suc (length ?s)) bs)"
    using m lm by (metis Suc_eq_plus1 append_take_drop_id)
  also have "bs ! length ?s = of_nat (length m)" unfolding lm by simp
  finally have "bs = lenc_frame sep m @ drop (length m) (drop (Suc (length ?s)) bs)"
    unfolding s by (simp add: lenc_frame_def)
  moreover have "length m \<le> 255" unfolding lm using unat_byte_lt [of "bs ! length ?s"] by linarith
  ultimately show ?thesis using d by (auto simp: lm add.commute)
qed

lemma Decode_no_panic: "\<not> is_panic (fst (Decode (clean_decoder sep e bs)))"
  by (auto simp: Decode_def DecodeInto_def readPrefix_def clean_decoder_def ReadFull_def Let_def)

section \<open>Properties\<close>

text \<open>
  C32. Round trip of the key-handle framing: any list of messages of at most 255 bytes, encoded
  one after the other into a buffer, decodes with a new decoder of the same separator to exactly
  that list, and the next \<open>Decode\<close> reports the clean end of input (\<open>EOF\<close>).
\<close>

theorem lencode_roundtrip:
  assumes "\<forall>m \<in> set ms. length m \<le> 255"
  shows "let buf = wr_out (enc_w (snd (EncodeAll ms (NewEncoder bytes_buffer [SeparatorOpt sep]))));
             (out, last, d) = DecodeMany (Suc (length ms))
                                (NewDecoder (bytes_reader buf) [SeparatorOpt sep])
         in out = ms \<and> last = Some (Err EOF) \<and> rd_data (dec_r d) = []"
proof -
  let ?buf = "concat (map (lenc_frame sep) ms)"
  obtain out last d where D: "DecodeMany (Suc (length ms)) (clean_decoder sep EOF ?buf) = (out, last, d)"
    by (cases "DecodeMany (Suc (length ms)) (clean_decoder sep EOF ?buf)") auto
  from DecodeMany_drain [OF D] lenc.drain_all [OF assms]
  have "out = ms \<and> last = Some (Err EOF) \<and> rd_data (dec_r d) = []" by simp
  then show ?thesis
    using D by (simp add: EncodeAll_new [OF assms] NewDecoder_clean del: DecodeMany.simps)
qed

theorem lencode_roundtrip_witness:
  "let buf = wr_out (enc_w (snd (EncodeAll [[1, 2], [], [3]]
                (NewEncoder bytes_buffer [SeparatorOpt (Some [84, 80, 77])]))));
       (out, last, d) = DecodeMany 4 (NewDecoder (bytes_reader buf) [SeparatorOpt (Some [84, 80, 77])])
   in out = [[1, 2], [], [3]] \<and> last = Some (Err EOF) \<and> rd_data (dec_r d) = []"
  using lencode_roundtrip [of "[[1, 2], [], [3]]" "Some [84, 80, 77]"]
  by (simp add: numeral_eq_Suc del: DecodeMany.simps EncodeAll.simps)

text \<open>
  C33. A truncated stream is never misread: of a stream of frames cut at any point the decoder
  returns a prefix of the messages and then an error, and that error is the clean end \<open>EOF\<close>
  exactly when the cut falls on a message boundary.
\<close>

theorem lencode_truncation:
  assumes "\<forall>m \<in> set ms. length m \<le> 255"
    and "k \<le> length (concat (map (lenc_frame sep) ms))"
  shows "\<exists>j e d. j \<le> length ms \<and>
    DecodeMany (Suc (length ms))
      (NewDecoder (bytes_reader (take k (concat (map (lenc_frame sep) ms)))) [SeparatorOpt sep])
      = (take j ms, Some (Err e), d) \<and>
    (e = EOF \<longleftrightarrow> k = length (concat (map (lenc_frame sep) (take j ms))))"
proof -
  let ?cut = "take k (concat (map (lenc_frame sep) ms))"
  obtain out last d where D: "DecodeMany (Suc (length ms)) (clean_decoder sep EOF ?cut) = (out, last, d)"
    by (cases "DecodeMany (Suc (length ms)) (clean_decoder sep EOF ?cut)") auto
  from lenc.drain_cut [OF assms] DecodeMany_drain [OF D] show ?thesis
    by (auto simp: NewDecoder_clean D simp del: DecodeMany.simps drain.simps)
qed

theorem lencode_truncation_witness:
  "\<exists>j e d. j \<le> 2 \<and>
    DecodeMany 3 (NewDecoder (bytes_reader (take 3 (concat (map (lenc_frame None) [[7], [8]]))))
       [SeparatorOpt None]) = (take j [[7], [8]], Some (Err e), d) \<and>
    (e = EOF \<longleftrightarrow> 3 = length (concat (map (lenc_frame None) (take j [[7], [8]]))))"
  using lencode_truncation [of "[[7], [8]]" 3 None]
  by (simp add: lenc_frame_def numeral_eq_Suc del: DecodeMany.simps)

text \<open>
  Decoder errors are sticky: after a failed \<open>Decode\<close> every later \<open>Decode\<close>, \<open>DecodeInto\<close> and
  \<open>NextLen\<close> returns the same error and reads nothing more.
\<close>

theorem decoder_error_sticky:
  assumes "Decode d = (Err er, d')"
  shows "Decode d' = (Err er, d') \<and> DecodeInto bl bc d' = (Err er, d') \<and> NextLen d' = (Err er, d')"
  using Decode_err_sets [OF assms]
  by (simp add: Decode_def DecodeInto_def NextLen_def readPrefix_def)

theorem decoder_error_sticky_witness:
  "Decode (clean_decoder None EOF []) = (Err EOF, (clean_decoder None EOF [])\<lparr>dec_err := Some EOF\<rparr>) \<and>
   NextLen ((clean_decoder None EOF [])\<lparr>dec_err := Some EOF\<rparr>) =
     (Err EOF, (clean_decoder None EOF [])\<lparr>dec_err := Some EOF\<rparr>)"
  using decoder_error_sticky [OF Decode_empty [of None EOF]] by (simp add: Decode_empty)

text \<open>
  What \<open>DecodeInto\<close> does with the caller's slice, for every frame and every slice: it fails on
  a slice longer than the message, although the message fits, and panics when the capacity is
  smaller than the message. The comment asks for a slice that is "large enough"; the check
  compares the other way round, so only a slice no longer than the message with enough capacity
  receives it.
\<close>

theorem DecodeInto_slice_check:
  assumes "length m \<le> 255" "blen \<le> bcap"
  shows "fst (DecodeInto blen bcap (clean_decoder sep e (lenc_frame sep m @ rest))) =
    (if length m < blen then Err buf_too_small
     else if bcap < length m then Panic ''slice bounds out of range''
     else Ok m)"
  using assms
  by (simp add: DecodeInto_def readPrefix_frame)
     (simp add: clean_decoder_def ReadFull_def)

theorem DecodeInto_slice_check_witness:
  "fst (DecodeInto 2 2 (clean_decoder None EOF (lenc_frame None [9] @ []))) = Err buf_too_small \<and>
   fst (DecodeInto 0 0 (clean_decoder None EOF (lenc_frame None [9] @ [])))
     = Panic ''slice bounds out of range''"
  using DecodeInto_slice_check [of "[9]" 2 2 None EOF "[]"]
    DecodeInto_slice_check [of "[9]" 0 0 None EOF "[]"] by simp

text \<open>
  A message too long for the one-byte length is refused without writing anything, and the
  encoder refuses everything after it: the buffer stays as it was whatever is encoded next.
\<close>

theorem Encode_too_long:
  assumes "enc_err e = None" "255 < length m"
  shows "fst (Encode m e) = Some msg_too_long \<and>
    fst (EncodeAll ms (snd (Encode m e))) = Some msg_too_long \<and>
    enc_w (snd (EncodeAll ms (snd (Encode m e)))) = enc_w e"
proof -
  from assms have E: "Encode m e = (Some msg_too_long, e\<lparr>enc_err := Some msg_too_long\<rparr>)"
    by (simp add: Encode_def)
  then show ?thesis by (simp add: EncodeAll_err)
qed

theorem Encode_too_long_witness:
  "fst (Encode (replicate 256 0) (NewEncoder bytes_buffer [])) = Some msg_too_long \<and>
   enc_w (snd (EncodeAll [[1]] (snd (Encode (replicate 256 0) (NewEncoder bytes_buffer []))))) = bytes_buffer"
  using Encode_too_long [of "NewEncoder bytes_buffer []" "replicate 256 0" "[[1]]"]
  by (simp add: NewEncoder_def)

end
