(* ===== verification/NativeMsg.thy ===== *)
theory NativeMsg
  imports Prelude
begin

text \<open>
  \<^verbatim>\<open>nativemsg/io.go\<close>: the Chrome Native Messaging transport, a 4-byte little-endian length and
  then the payload. \<open>json.Marshal\<close> of the response is the argument \<open>marshal\<close> of \<open>Write\<close>.
\<close>

definition MaxMessageSize :: nat where
  "MaxMessageSize = 1024 * 1024"

definition Read :: "Reader \<Rightarrow> bytes res \<times> Reader" where
  "Read r =
     (case ReadFull 4 r of
        (Inl e, r1) \<Rightarrow> (Err e, r1)
      | (Inr b, r1) \<Rightarrow>
          let len = (of_nat (le_nat b) :: 32 word) in
          if len = 0 then (Err (ErrMsg ''invalid message length: 0''), r1)
          else if MaxMessageSize < unat len
          then (Err (ErrMsg (''message too large: '' @ show_nat (unat len) @ '' bytes (max ''
                  @ show_nat MaxMessageSize @ '')'')), r1)
          else
            (case ReadFull (unat len) r1 of
               (Inl e, r2) \<Rightarrow> (Err (Wrapped ''failed to read message payload: '' e), r2)
             | (Inr msg, r2) \<Rightarrow> (Ok msg, r2)))"

definition Write :: "('m \<Rightarrow> gerr + bytes) \<Rightarrow> 'm \<Rightarrow> Writer \<Rightarrow> gerr option \<times> Writer" where
  "Write marshal msg w =
     (case marshal msg of
        Inl e \<Rightarrow> (Some (Wrapped ''failed to marshal message: '' e), w)
      | Inr data \<Rightarrow>
          if MaxMessageSize < length data
          then (Some (ErrMsg (''message too large: '' @ show_nat (length data) @ '' bytes (max ''
                  @ show_nat MaxMessageSize @ '')'')), w)
          else
            let len = (of_nat (length data) :: 32 word) in
            (case wr_write (le_fixed 4 (unat len)) w of
               (Some e, w1) \<Rightarrow> (Some (Wrapped ''failed to write length prefix: '' e), w1)
             | (None, w1) \<Rightarrow>
                 (case wr_write data w1 of
                    (Some e, w2) \<Rightarrow> (Some (Wrapped ''failed to write message payload: '' e), w2)
                  | (None, w2) \<Rightarrow> (None, w2))))"

section \<open>Frames\<close>

definition nm_frame :: "bytes \<Rightarrow> bytes" where
  "nm_frame m = le_fixed 4 (length m) @ m"

definition nm_valid :: "bytes \<Rightarrow> bool" where
  "nm_valid m \<longleftrightarrow> 0 < length m \<and> length m \<le> MaxMessageSize"

definition nm_step :: "bytes \<Rightarrow> bytes res \<times> bytes" where
  "nm_step bs = (case Read (bytes_reader bs) of (r, rd) \<Rightarrow> (r, rd_data rd))"

lemma le_nat_lt: "le_nat bs < 256 ^ length bs"
proof (induction bs)
  case (Cons b bs)
  from Cons have "le_nat bs + 1 \<le> 256 ^ length bs" by simp
  then have "256 * le_nat bs + 256 \<le> 256 * 256 ^ length bs" by simp
  then show ?case using unat_byte_lt [of b] by (simp del: unat_byte_lt)
qed simp

lemma le_fixed_le_nat: "le_fixed (length bs) (le_nat bs) = bs"
proof (induction bs)
  case (Cons b bs)
  have b: "unat b < 256" by simp
  have z: "(256 :: byte) = 0" by simp
  have "(of_nat (unat b + 256 * le_nat bs) :: byte) = b"
    by (simp only: of_nat_add of_nat_mult of_nat_numeral z) simp
  with Cons b show ?case by simp
qed simp

lemma nm_len: "nm_valid m \<Longrightarrow> le_nat (le_fixed 4 (length m)) = length m"
  by (simp add: le_nat_le_fixed nm_valid_def MaxMessageSize_def)

lemma nm_len_word: "nm_valid m \<Longrightarrow> unat (of_nat (length m) :: 32 word) = length m"
  by (simp add: nm_valid_def MaxMessageSize_def unat_of_nat)

lemma nm_len_nz: "nm_valid m \<Longrightarrow> (of_nat (length m) :: 32 word) \<noteq> 0"
  using nm_len_word [of m] by (auto simp: nm_valid_def)

lemma Read_frame [codec_simps]:
  assumes "nm_valid m"
  shows "Read \<lparr>rd_data = nm_frame m @ rest, rd_end = e\<rparr> = (Ok m, \<lparr>rd_data = rest, rd_end = e\<rparr>)"
  using assms
  by (simp add: Read_def ReadFull_def nm_frame_def nm_len nm_len_word nm_len_nz Let_def)
     (simp add: nm_valid_def)

lemma Read_cut:
  assumes m: "nm_valid m" and k: "0 < k" "k < length (nm_frame m)"
  shows "\<exists>e r. Read (bytes_reader (take k (nm_frame m))) = (Err e, r) \<and> e \<noteq> EOF"
proof (cases "k < 4")
  case True
  with k show ?thesis by (simp add: Read_def ReadFull_def bytes_reader_def nm_frame_def)
next
  case False
  then obtain j where j: "k = 4 + j" by (metis le_add_diff_inverse not_less)
  have "take k (nm_frame m) = le_fixed 4 (length m) @ take j m"
    by (simp add: j nm_frame_def)
  moreover have "j < length m" using k(2) j by (simp add: nm_frame_def)
  ultimately show ?thesis using m
    by (simp add: Read_def ReadFull_def bytes_reader_def nm_len nm_len_word nm_len_nz Let_def)
qed

interpretation nm: framing nm_valid nm_frame nm_step
proof unfold_locales
  fix m rest assume "nm_valid m"
  then show "nm_step (nm_frame m @ rest) = (Ok m, rest)"
    by (simp add: nm_step_def bytes_reader_def Read_frame)
next
  show "nm_step [] = (Err EOF, [])"
    by (simp add: nm_step_def Read_def ReadFull_def bytes_reader_def)
next
  fix m k assume "nm_valid m" "0 < k" "k < length (nm_frame m)"
  from Read_cut [OF this]
  show "\<exists>e rest. nm_step (take k (nm_frame m)) = (Err e, rest) \<and> e \<noteq> EOF"
    by (auto simp: nm_step_def)
qed

lemma Read_Ok:
  assumes "Read r = (Ok m, r')"
  shows "nm_valid m \<and> rd_data r = nm_frame m @ rd_data r' \<and> rd_end r' = rd_end r"
proof -
  let ?h = "take 4 (rd_data r)"
  from assms have h: "length ?h = 4" and four: "4 \<le> length (rd_data r)"
    by (auto simp: Read_def ReadFull_def Let_def split: if_splits)
  have lt: "le_nat ?h < 2 ^ 32" using le_nat_lt [of ?h] h by simp
  then have w: "unat (of_nat (le_nat ?h) :: 32 word) = le_nat ?h"
    by (simp add: unat_of_nat)
  from assms four w have m: "m = take (le_nat ?h) (drop 4 (rd_data r))"
    and len: "le_nat ?h \<le> length (drop 4 (rd_data r))" "le_nat ?h \<le> MaxMessageSize"
    and nz: "(of_nat (le_nat ?h) :: 32 word) \<noteq> 0"
    and r': "rd_data r' = drop (le_nat ?h) (drop 4 (rd_data r))" "rd_end r' = rd_end r"
    by (auto simp: Read_def ReadFull_def Let_def split: if_splits)
  have lm: "length m = le_nat ?h" using m len(1) by simp
  have "le_fixed 4 (length m) = ?h" using le_fixed_le_nat [of ?h] lm h by simp
  then have "nm_frame m @ rd_data r' = rd_data r"
    unfolding nm_frame_def r' m using lm m
    by (metis append.assoc append_take_drop_id)
  moreover have "0 < length m" using nz lm by (cases "le_nat ?h") auto
  ultimately show ?thesis using lm len(2) r' by (simp add: nm_valid_def)
qed

lemma Write_frame [codec_simps]:
  assumes "marshal msg = Inr data" "length data \<le> MaxMessageSize" "wr_room w = None"
  shows "Write marshal msg w = (None, w\<lparr>wr_out := wr_out w @ nm_frame data\<rparr>)"
proof -
  have "unat (of_nat (length data) :: 32 word) = length data"
    using assms(2) by (simp add: MaxMessageSize_def unat_of_nat)
  then show ?thesis using assms
    by (simp add: Write_def wr_write_unbounded nm_frame_def)
qed

section \<open>Properties\<close>

text \<open>
  C35. The transport is exact: when \<open>Read\<close> returns a message, the input was precisely the 4-byte
  little-endian length of that message, the message and what is left, and the length is at least
  1 and at most 1 MiB.
\<close>

theorem Read_exact:
  assumes "Read r = (Ok m, r')"
  shows "1 \<le> length m \<and> length m \<le> 1048576 \<and>
    rd_data r = le_fixed 4 (length m) @ m @ rd_data r'"
  using Read_Ok [OF assms] by (simp add: nm_valid_def MaxMessageSize_def nm_frame_def Suc_le_eq)

theorem Read_exact_witness:
  "1 \<le> length [7::byte] \<and> length [7::byte] \<le> 1048576 \<and>
   rd_data \<lparr>rd_data = nm_frame [7] @ [8], rd_end = EOF\<rparr> = le_fixed 4 (length [7::byte]) @ [7] @ [8]"
proof -
  have "nm_valid [7]" by (simp add: nm_valid_def MaxMessageSize_def)
  from Read_exact [OF Read_frame [OF this]] show ?thesis by simp
qed

fun WriteAll :: "('m \<Rightarrow> gerr + bytes) \<Rightarrow> 'm list \<Rightarrow> Writer \<Rightarrow> Writer" where
  "WriteAll marshal [] w = w"
| "WriteAll marshal (x # xs) w = WriteAll marshal xs (snd (Write marshal x w))"

lemma WriteAll_buffer:
  assumes "\<forall>x \<in> set xs. marshal x = Inr (enc x) \<and> nm_valid (enc x)" "wr_room w = None"
  shows "wr_out (WriteAll marshal xs w) = wr_out w @ concat (map (\<lambda>x. nm_frame (enc x)) xs)"
  using assms by (induction xs arbitrary: w) (simp_all add: Write_frame nm_valid_def)

text \<open>
  C34. Writing and reading are inverse on whole conversations: the frames that \<open>Write\<close> produces for
  a list of values whose encodings are non-empty and at most 1 MiB are read back, in order, as
  exactly those encodings, and then the end of the stream is seen as \<open>EOF\<close>.
\<close>

theorem native_roundtrip:
  assumes "\<forall>x \<in> set xs. marshal x = Inr (enc x) \<and> 1 \<le> length (enc x) \<and> length (enc x) \<le> 1048576"
  shows "drain (Suc (length xs)) nm_step (wr_out (WriteAll marshal xs bytes_buffer))
    = (map enc xs, Some (Err EOF), [])"
proof -
  have v: "\<forall>x \<in> set xs. marshal x = Inr (enc x) \<and> nm_valid (enc x)"
    using assms by (auto simp: nm_valid_def MaxMessageSize_def Suc_le_eq)
  have "wr_out (WriteAll marshal xs bytes_buffer) = concat (map nm_frame (map enc xs))"
    using WriteAll_buffer [OF v, of bytes_buffer] by (simp add: bytes_buffer_def comp_def)
  with nm.drain_all [of "map enc xs"] v show ?thesis by simp
qed

theorem native_roundtrip_witness:
  "drain (Suc (length [[1], [2, 3 :: byte]])) nm_step (wr_out (WriteAll Inr [[1], [2, 3]] bytes_buffer)) = ([[1], [2, 3]], Some (Err EOF), [])"
  using native_roundtrip [of "[[1], [2, 3]]" Inr "\<lambda>x. x"] by (simp del: drain.simps WriteAll.simps)

end
