(* ===== verification/HostLoop.thy ===== *)
theory HostLoop
  imports NativeMsg
begin

text \<open>
  \<^verbatim>\<open>runNativeMessaging\<close> of \<^verbatim>\<open>tpmfido.go\<close>: read a message from stdin, handle it, write the response
  to stdout, until an error ends the loop. The handler is an argument: \<open>Inl m\<close> is a panic in the
  handler, which ends the process. The input is a finite stream and every iteration consumes at
  least one byte of it, so the loop is a total function.
\<close>

datatype loop_end = EndEOF | EndRead gerr | EndWrite gerr | EndPanic string

lemma Read_shrinks: "Read r = (Ok m, r') \<Longrightarrow> length (rd_data r') < length (rd_data r)"
  by (drule Read_Ok) (simp add: nm_frame_def)

function runNativeMessaging ::
  "(bytes \<Rightarrow> 's \<Rightarrow> (string + 'r) \<times> 's) \<Rightarrow> ('r \<Rightarrow> gerr + bytes) \<Rightarrow> Reader \<Rightarrow> Writer \<Rightarrow> 's \<Rightarrow>
   loop_end \<times> Reader \<times> Writer \<times> 's" where
  "runNativeMessaging handle marshal stdin stdout s =
     (case Read stdin of
        (Err e, stdin1) \<Rightarrow> ((if e = EOF then EndEOF else EndRead e), stdin1, stdout, s)
      | (Panic m, stdin1) \<Rightarrow> (EndPanic m, stdin1, stdout, s)
      | (Ok msg, stdin1) \<Rightarrow>
          (case handle msg s of
             (Inl m, s1) \<Rightarrow> (EndPanic m, stdin1, stdout, s1)
           | (Inr response, s1) \<Rightarrow>
               (case Write marshal response stdout of
                  (Some e, stdout1) \<Rightarrow> (EndWrite e, stdin1, stdout1, s1)
                | (None, stdout1) \<Rightarrow> runNativeMessaging handle marshal stdin1 stdout1 s1)))"
  by pat_completeness auto
termination
  by (relation "measure (\<lambda>(_, _, stdin, _, _). length (rd_data stdin))") (auto dest!: sym Read_shrinks)

declare runNativeMessaging.simps [simp del]

text \<open>The specification: the handler run over the messages in order, and its responses.\<close>

fun serve :: "(bytes \<Rightarrow> 's \<Rightarrow> (string + 'r) \<times> 's) \<Rightarrow> bytes list \<Rightarrow> 's \<Rightarrow> (string + 'r) list \<times> 's" where
  "serve handle [] s = ([], s)"
| "serve handle (m # ms) s =
     (case handle m s of
        (Inl p, s1) \<Rightarrow> ([Inl p], s1)
      | (Inr r, s1) \<Rightarrow> (case serve handle ms s1 of (rs, s2) \<Rightarrow> (Inr r # rs, s2)))"

text \<open>
  An invariant of the handler is an invariant of the loop, up to a message on which the handler may
  fail; then the input starts with frames up to that message.
\<close>

lemma Read_no_panic: "Read r \<noteq> (Panic m, r')"
  by (auto simp: Read_def Let_def split: prod.splits sum.splits if_splits)

lemma loop_keeps:
  assumes "\<And>msg s x s1. I s \<Longrightarrow> handle msg s = (x, s1) \<Longrightarrow> bad msg \<or> (I s1 \<and> (\<exists>r. x = Inr r))"
  shows "I s \<Longrightarrow> runNativeMessaging handle marshal stdin stdout s = (e, stdin', stdout', s') \<Longrightarrow>
    (I s' \<and> (\<forall>m. e \<noteq> EndPanic m)) \<or>
    (\<exists>ms msg rest. rd_data stdin = concat (map nm_frame ms) @ nm_frame msg @ rest \<and> bad msg)"
proof (induction "length (rd_data stdin)" arbitrary: stdin stdout s rule: less_induct)
  case less
  obtain q stdin1 where R: "Read stdin = (q, stdin1)" by fastforce
  show ?case
  proof (cases q)
    case (Ok msg)
    from R Ok have d: "rd_data stdin = nm_frame msg @ rd_data stdin1" and l: "length (rd_data stdin1) < length (rd_data stdin)"
      using Read_Ok [of stdin msg stdin1] Read_shrinks [of stdin msg stdin1] by simp_all
    obtain x s1 where h: "handle msg s = (x, s1)" by fastforce
    show ?thesis
    proof (cases "bad msg")
      case True
      with d have "rd_data stdin = concat (map nm_frame []) @ nm_frame msg @ rd_data stdin1 \<and> bad msg" by simp
      then show ?thesis by blast
    next
      case False
      with assms [OF less.prems(1) h] obtain r where i: "I s1" "x = Inr r" by blast
      obtain w stdout1 where W: "Write marshal r stdout = (w, stdout1)" by fastforce
      note step = less.prems(2) [unfolded runNativeMessaging.simps [of handle marshal stdin]]
      show ?thesis
      proof (cases w)
        case None
        with step R Ok h i W have "runNativeMessaging handle marshal stdin1 stdout1 s1 = (e, stdin', stdout', s')" by simp
        from less.hyps [OF l i(1) this] show ?thesis
        proof
          assume "\<exists>ms m rest. rd_data stdin1 = concat (map nm_frame ms) @ nm_frame m @ rest \<and> bad m"
          then obtain ms m rest where "rd_data stdin1 = concat (map nm_frame ms) @ nm_frame m @ rest" "bad m" by blast
          with d have "rd_data stdin = concat (map nm_frame (msg # ms)) @ nm_frame m @ rest \<and> bad m" by simp
          then show ?thesis by blast
        qed simp
      qed (use step R Ok h i W in auto)
    qed
  qed (use less.prems R Read_no_panic in \<open>auto simp: runNativeMessaging.simps [of handle marshal stdin] split: if_splits\<close>)
qed

text \<open>
  The host answers the messages once and in order. For a stream of well-sized messages and a
  handler that does not panic on them, stdout holds exactly the frames of the handler's
  responses in the order of the requests, the state being threaded from one request to the next, up
  to the first response that does not marshal to at most 1 MiB: the write error ends the loop there.
\<close>

definition fits :: "('r \<Rightarrow> gerr + bytes) \<Rightarrow> 'r \<Rightarrow> bool" where
  "fits marshal r \<longleftrightarrow> (case marshal r of Inl _ \<Rightarrow> False | Inr b \<Rightarrow> length b \<le> MaxMessageSize)"

definition reply_frame :: "('r \<Rightarrow> gerr + bytes) \<Rightarrow> 'r \<Rightarrow> bytes" where
  "reply_frame marshal r = (case marshal r of Inl _ \<Rightarrow> [] | Inr b \<Rightarrow> nm_frame b)"

lemma Write_fits:
  "fits marshal r \<Longrightarrow> wr_room w = None \<Longrightarrow> Write marshal r w = (None, w\<lparr>wr_out := wr_out w @ reply_frame marshal r\<rparr>)"
  by (auto simp: fits_def reply_frame_def Write_frame split: sum.splits)

lemma Write_unfit: "\<not> fits marshal r \<Longrightarrow> \<exists>e. Write marshal r w = (Some e, w)"
  by (auto simp: fits_def Write_def split: sum.splits)

lemma serve_Cons_Inr:
  assumes "serve handle (m # ms) s = (map Inr rs, s')"
  obtains r s1 rs' where "handle m s = (Inr r, s1)" "serve handle ms s1 = (map Inr rs', s')" "rs = r # rs'"
  using assms by (cases rs) (auto split: prod.splits sum.splits)

definition serves_upto :: "(bytes \<Rightarrow> 's \<Rightarrow> (string + 'r) \<times> 's) \<Rightarrow> ('r \<Rightarrow> gerr + bytes) \<Rightarrow> bytes list \<Rightarrow> Writer \<Rightarrow> 's \<Rightarrow>
    'r list \<Rightarrow> 's \<Rightarrow> loop_end \<Rightarrow> Writer \<Rightarrow> bool" where
  "serves_upto handle marshal ms out s rs s' e out' \<longleftrightarrow>
     serve handle (take (length rs) ms) s = (map Inr rs, s') \<and> length rs \<le> length ms \<and>
     (length rs = length ms \<and> list_all (fits marshal) rs \<and> e = EndEOF \<and>
        out' = out\<lparr>wr_out := wr_out out @ concat (map (reply_frame marshal) rs)\<rparr> \<or>
      (\<exists>rs0 r err. rs = rs0 @ [r] \<and> list_all (fits marshal) rs0 \<and> \<not> fits marshal r \<and> e = EndWrite err \<and>
        out' = out\<lparr>wr_out := wr_out out @ concat (map (reply_frame marshal) rs0)\<rparr>))"

lemma host_loop_serves:
  assumes "\<forall>m \<in> set ms. 1 \<le> length m \<and> length m \<le> 1048576"
    and "serve handle ms s = (map Inr rs, s')" "wr_room out = None"
  shows "\<exists>e stdin' out' s1 rs1.
    runNativeMessaging handle marshal (bytes_reader (concat (map nm_frame ms))) out s = (e, stdin', out', s1) \<and>
    serves_upto handle marshal ms out s rs1 s1 e out'"
  using assms
proof (induction ms arbitrary: s rs out)
  case Nil
  have "serves_upto handle marshal [] out s [] s EndEOF out" by (simp add: serves_upto_def)
  moreover have "runNativeMessaging handle marshal (bytes_reader (concat (map nm_frame []))) out s = (EndEOF, bytes_reader [], out, s)"
    by (simp add: runNativeMessaging.simps Read_def ReadFull_def bytes_reader_def)
  ultimately show ?case by blast
next
  case (Cons m ms)
  from Cons.prems(1) have v: "nm_valid m"
    by (auto simp: nm_valid_def MaxMessageSize_def Suc_le_eq)
  from Cons.prems(2) obtain r s1 rs' where h: "handle m s = (Inr r, s1)" and rest: "serve handle ms s1 = (map Inr rs', s')"
    by (rule serve_Cons_Inr)
  have R: "Read (bytes_reader (concat (map nm_frame (m # ms)))) = (Ok m, bytes_reader (concat (map nm_frame ms)))"
    using v by (simp add: bytes_reader_def Read_frame)
  note run = runNativeMessaging.simps [of handle marshal "bytes_reader (concat (map nm_frame (m # ms)))" out s]
  show ?case
  proof (cases "fits marshal r")
    case True
    let ?out1 = "out\<lparr>wr_out := wr_out out @ reply_frame marshal r\<rparr>"
    have "\<forall>m \<in> set ms. 1 \<le> length m \<and> length m \<le> 1048576" "wr_room ?out1 = None" using Cons.prems by auto
    from Cons.IH [OF this(1) rest this(2)] obtain e stdin' out' s2 rs1 where
      l: "runNativeMessaging handle marshal (bytes_reader (concat (map nm_frame ms))) ?out1 s1 = (e, stdin', out', s2)"
      and u: "serves_upto handle marshal ms ?out1 s1 rs1 s2 e out'" by blast
    from u have "serves_upto handle marshal (m # ms) out s (r # rs1) s2 e out'"
      using True h unfolding serves_upto_def by (auto simp: Cons_eq_append_conv)
    moreover have "runNativeMessaging handle marshal (bytes_reader (concat (map nm_frame (m # ms)))) out s = (e, stdin', out', s2)"
      unfolding run R using h l Write_fits [OF True Cons.prems(3)] by simp
    ultimately show ?thesis by blast
  next
    case False
    from Write_unfit [OF this] obtain e where "Write marshal r out = (Some e, out)" by blast
    then have "runNativeMessaging handle marshal (bytes_reader (concat (map nm_frame (m # ms)))) out s =
        (EndWrite e, bytes_reader (concat (map nm_frame ms)), out, s1)"
      unfolding run R using h by simp
    moreover have "serves_upto handle marshal (m # ms) out s [r] s1 (EndWrite e) out"
      using False h by (simp add: serves_upto_def)
    ultimately show ?thesis by blast
  qed
qed

text \<open>The first \<open>n\<close> iterations of the loop; \<open>None\<close> when it has not ended by then.\<close>

fun loop_fuel ::
  "nat \<Rightarrow> (bytes \<Rightarrow> 's \<Rightarrow> (string + 'r) \<times> 's) \<Rightarrow> ('r \<Rightarrow> gerr + bytes) \<Rightarrow> Reader \<Rightarrow> Writer \<Rightarrow> 's \<Rightarrow>
   (loop_end \<times> Reader \<times> Writer \<times> 's) option" where
  "loop_fuel 0 handle marshal stdin stdout s = None"
| "loop_fuel (Suc n) handle marshal stdin stdout s =
     (case Read stdin of
        (Err e, stdin1) \<Rightarrow> Some ((if e = EOF then EndEOF else EndRead e), stdin1, stdout, s)
      | (Panic m, stdin1) \<Rightarrow> Some (EndPanic m, stdin1, stdout, s)
      | (Ok msg, stdin1) \<Rightarrow>
          (case handle msg s of
             (Inl m, s1) \<Rightarrow> Some (EndPanic m, stdin1, stdout, s1)
           | (Inr response, s1) \<Rightarrow>
               (case Write marshal response stdout of
                  (Some e, stdout1) \<Rightarrow> Some (EndWrite e, stdin1, stdout1, s1)
                | (None, stdout1) \<Rightarrow> loop_fuel n handle marshal stdin1 stdout1 s1)))"

lemma Read_shrinks5: "Read r = (Ok m, r') \<Longrightarrow> length (rd_data r') + 5 \<le> length (rd_data r)"
  by (drule Read_Ok) (auto simp: nm_frame_def nm_valid_def Suc_le_eq)

section \<open>Properties\<close>

text \<open>
  C36. The loop ends, and how soon is bounded by the input: with \<open>n\<close> bytes on stdin it has ended after at most
  \<open>n div 5 + 1\<close> iterations, whatever the handler does and whatever is written, because every
  iteration that goes on has consumed a length and at least one byte.
\<close>

theorem host_loop_terminates:
  assumes "length (rd_data stdin) div 5 < n"
  shows "loop_fuel n handle marshal stdin stdout s = Some (runNativeMessaging handle marshal stdin stdout s)"
  using assms
proof (induction n arbitrary: stdin stdout s)
  case (Suc n)
  obtain q stdin1 where R: "Read stdin = (q, stdin1)" by fastforce
  show ?case
  proof (cases q)
    case (Ok msg)
    with R Read_shrinks5 [of stdin msg stdin1] have "length (rd_data stdin1) + 5 \<le> length (rd_data stdin)" by simp
    with Suc.prems have "length (rd_data stdin1) div 5 < n" by linarith
    from Suc.IH [OF this] R Ok show ?thesis
      by (auto simp: runNativeMessaging.simps [of handle marshal stdin] split: prod.split sum.split option.split)
  qed (simp_all add: R runNativeMessaging.simps [of handle marshal stdin])
qed simp

theorem host_loop_terminates_witness:
  "loop_fuel 2 (\<lambda>m n. (Inr (rev m), Suc n)) Inr (bytes_reader (nm_frame [1])) bytes_buffer 0 =
   Some (runNativeMessaging (\<lambda>m n. (Inr (rev m), Suc n)) Inr (bytes_reader (nm_frame [1])) bytes_buffer (0::nat))"
  by (rule host_loop_terminates) (simp add: bytes_reader_def nm_frame_def)

end
