(* ===== verification/Ctap2Types.thy ===== *)
theory Ctap2Types
  imports Prelude
begin

text \<open>
  \<^verbatim>\<open>ctap2/commands.go\<close> and \<^verbatim>\<open>ctap2/types.go\<close>: command bytes, status codes, COSE identifiers, flags
  and the request and response structures. The CBOR library is not part of the repository: \<open>Cbor\<close>
  collects its functions as the program calls them, and \<open>cbor_in\<close> lists the Go values the program
  hands to the encoder, so nothing is assumed about the bytes it produces.
\<close>

section \<open>Constants\<close>

definition CmdMakeCredential :: byte where
  "CmdMakeCredential = 0x01"

definition CmdGetAssertion :: byte where
  "CmdGetAssertion = 0x02"

definition CmdGetInfo :: byte where
  "CmdGetInfo = 0x04"

definition CmdClientPIN :: byte where
  "CmdClientPIN = 0x06"

definition CmdReset :: byte where
  "CmdReset = 0x07"

definition CmdGetNextAssertion :: byte where
  "CmdGetNextAssertion = 0x08"

definition CmdSelection :: byte where
  "CmdSelection = 0x0B"

definition StatusSuccess :: byte where
  "StatusSuccess = 0x00"

definition StatusInvalidCommand :: byte where
  "StatusInvalidCommand = 0x01"

definition StatusInvalidParameter :: byte where
  "StatusInvalidParameter = 0x02"

definition StatusInvalidLength :: byte where
  "StatusInvalidLength = 0x03"

definition StatusInvalidSeq :: byte where
  "StatusInvalidSeq = 0x04"

definition StatusTimeout :: byte where
  "StatusTimeout = 0x05"

definition StatusChannelBusy :: byte where
  "StatusChannelBusy = 0x06"

definition StatusLockRequired :: byte where
  "StatusLockRequired = 0x0A"

definition StatusInvalidChannel :: byte where
  "StatusInvalidChannel = 0x0B"

definition StatusCBORUnexpectedType :: byte where
  "StatusCBORUnexpectedType = 0x11"

definition StatusInvalidCBOR :: byte where
  "StatusInvalidCBOR = 0x12"

definition StatusMissingParameter :: byte where
  "StatusMissingParameter = 0x14"

definition StatusLimitExceeded :: byte where
  "StatusLimitExceeded = 0x15"

definition StatusUnsupportedExtension :: byte where
  "StatusUnsupportedExtension = 0x16"

definition StatusCredentialExcluded :: byte where
  "StatusCredentialExcluded = 0x19"

definition StatusProcessing :: byte where
  "StatusProcessing = 0x21"

definition StatusInvalidCredential :: byte where
  "StatusInvalidCredential = 0x22"

definition StatusUserActionPending :: byte where
  "StatusUserActionPending = 0x23"

definition StatusOperationPending :: byte where
  "StatusOperationPending = 0x24"

definition StatusNoCredentials :: byte where
  "StatusNoCredentials = 0x2E"

definition StatusUserActionTimeout :: byte where
  "StatusUserActionTimeout = 0x2F"

definition StatusNotAllowed :: byte where
  "StatusNotAllowed = 0x30"

definition StatusPINInvalid :: byte where
  "StatusPINInvalid = 0x31"

definition StatusPINBlocked :: byte where
  "StatusPINBlocked = 0x32"

definition StatusPINAuthInvalid :: byte where
  "StatusPINAuthInvalid = 0x33"

definition StatusPINAuthBlocked :: byte where
  "StatusPINAuthBlocked = 0x34"

definition StatusPINNotSet :: byte where
  "StatusPINNotSet = 0x35"

definition StatusPINRequired :: byte where
  "StatusPINRequired = 0x36"

definition StatusPINPolicyViolation :: byte where
  "StatusPINPolicyViolation = 0x37"

definition StatusPINTokenExpired :: byte where
  "StatusPINTokenExpired = 0x38"

definition StatusRequestTooLarge :: byte where
  "StatusRequestTooLarge = 0x39"

definition StatusActionTimeout :: byte where
  "StatusActionTimeout = 0x3A"

definition StatusUpRequired :: byte where
  "StatusUpRequired = 0x3B"

definition StatusUvBlocked :: byte where
  "StatusUvBlocked = 0x3C"

definition StatusKeepaliveCancel :: byte where
  "StatusKeepaliveCancel = 0x2D"

definition StatusOperationDenied :: byte where
  "StatusOperationDenied = 0x27"

definition StatusOther :: byte where
  "StatusOther = 0x7F"

definition COSEAlgES256 :: int where
  "COSEAlgES256 = -7"

definition COSEAlgRS256 :: int where
  "COSEAlgRS256 = -257"

definition COSEAlgECDH :: int where
  "COSEAlgECDH = -25"

definition StatusExtensionFirst :: byte where
  "StatusExtensionFirst = 0xE0"

definition COSEKeyTypeEC2 :: int where
  "COSEKeyTypeEC2 = 2"

definition COSEKeyTypeRSA :: int where
  "COSEKeyTypeRSA = 3"

definition COSECurveP256 :: int where
  "COSECurveP256 = 1"

definition COSEKeyLabelKty :: int where
  "COSEKeyLabelKty = 1"

definition COSEKeyLabelAlg :: int where
  "COSEKeyLabelAlg = 3"

definition COSEKeyLabelCrv :: int where
  "COSEKeyLabelCrv = -1"

definition COSEKeyLabelX :: int where
  "COSEKeyLabelX = -2"

definition COSEKeyLabelY :: int where
  "COSEKeyLabelY = -3"

definition FlagUserPresent :: byte where
  "FlagUserPresent = 0x01"

definition FlagUserVerified :: byte where
  "FlagUserVerified = 0x04"

definition FlagAttestedCredData :: byte where
  "FlagAttestedCredData = 0x40"

definition FlagExtensionData :: byte where
  "FlagExtensionData = 0x80"

definition CredentialTypePublicKey :: string where
  "CredentialTypePublicKey = ''public-key''"

definition ClientPINSubCmdGetPINRetries :: nat where
  "ClientPINSubCmdGetPINRetries = 0x01"

definition ClientPINSubCmdGetKeyAgreement :: nat where
  "ClientPINSubCmdGetKeyAgreement = 0x02"

definition ClientPINSubCmdSetPIN :: nat where
  "ClientPINSubCmdSetPIN = 0x03"

definition ClientPINSubCmdChangePIN :: nat where
  "ClientPINSubCmdChangePIN = 0x04"

definition ClientPINSubCmdGetPINToken :: nat where
  "ClientPINSubCmdGetPINToken = 0x05"

definition ClientPINSubCmdGetPINUvAuthTokenUsingUvWithPermissions :: nat where
  "ClientPINSubCmdGetPINUvAuthTokenUsingUvWithPermissions = 0x06"

definition ClientPINSubCmdGetUVRetries :: nat where
  "ClientPINSubCmdGetUVRetries = 0x07"

definition ClientPINSubCmdGetPINUvAuthTokenUsingPinWithPermissions :: nat where
  "ClientPINSubCmdGetPINUvAuthTokenUsingPinWithPermissions = 0x09"

section \<open>Structures\<close>

text \<open>
  Dynamic Go values (\<^verbatim>\<open>interface{}\<close>); a float is given by its bits. A Go map is unordered and the encoder sorts its keys; the
  model lists its entries in the order of the source's literal.
\<close>

datatype goval =
    GNil | GInt int | GFloat "64 word" | GBytes bytes | GStr string | GBool bool | GList "goval list"
  | GMapInt "(int \<times> goval) list" | GMapStr "(string \<times> goval) list"
  | GMap "(goval \<times> goval) list"

record PublicKeyCredentialParameters =
  kp_Type :: string
  kp_Alg :: int

record PublicKeyCredentialRpEntity =
  rp_ID :: string
  rp_Name :: string

record PublicKeyCredentialUserEntity =
  ue_ID :: bytes
  ue_Name :: string
  ue_DisplayName :: string

record PublicKeyCredentialDescriptor =
  pd_Type :: string
  pd_ID :: bytes
  pd_Transports :: "string list"

record GetInfoResponse =
  gi_Versions :: "string list"
  gi_Extensions :: "string list"
  gi_AAGUID :: bytes
  gi_Options :: "(string \<times> bool) list"
  gi_MaxMsgSize :: nat
  gi_PinUvAuthProtocols :: "nat list"
  gi_MaxCredentialCountInList :: nat
  gi_MaxCredentialIdLength :: nat
  gi_Transports :: "string list"
  gi_Algorithms :: "PublicKeyCredentialParameters list"
  gi_MaxSerializedLargeBlobArray :: nat
  gi_ForcePINChange :: bool
  gi_MinPINLength :: nat
  gi_FirmwareVersion :: nat
  gi_MaxCredBlobLength :: nat
  gi_MaxRPIDsForSetMinPINLength :: nat
  gi_PreferredPlatformUvAttempts :: nat
  gi_UvModality :: nat
  gi_Certifications :: "(string \<times> int) list"
  gi_RemainingDiscoverableCredentials :: int
  gi_VendorPrototypeConfigCommands :: "nat list"

text \<open>
  In the requests a nil map is \<open>None\<close>; the two option maps are association lists whose first entry
  for a key counts.
\<close>

record MakeCredentialRequest =
  mc_ClientDataHash :: bytes
  mc_RP :: PublicKeyCredentialRpEntity
  mc_User :: PublicKeyCredentialUserEntity
  mc_PubKeyCredParams :: "PublicKeyCredentialParameters list"
  mc_ExcludeList :: "PublicKeyCredentialDescriptor list"
  mc_Extensions :: "(string \<times> goval) list option"
  mc_Options :: "(string \<times> bool) list option"
  mc_PinUvAuthParam :: bytes
  mc_PinUvAuthProtocol :: nat
  mc_EnterpriseAttestation :: nat

record MakeCredentialResponse =
  mr_Fmt :: string
  mr_AuthData :: bytes
  mr_AttStmt :: "(string \<times> goval) list"

record GetAssertionRequest =
  ga_RPID :: string
  ga_ClientDataHash :: bytes
  ga_AllowList :: "PublicKeyCredentialDescriptor list"
  ga_Extensions :: "(string \<times> goval) list option"
  ga_Options :: "(string \<times> bool) list option"
  ga_PinUvAuthParam :: bytes
  ga_PinUvAuthProtocol :: nat

record GetAssertionResponse =
  gr_Credential :: "PublicKeyCredentialDescriptor option"
  gr_AuthData :: bytes
  gr_Signature :: bytes
  gr_User :: "PublicKeyCredentialUserEntity option"
  gr_NumberOfCredentials :: nat

record COSEKey =
  ck_Kty :: int
  ck_Alg :: int
  ck_Crv :: int
  ck_X :: bytes
  ck_Y :: bytes

record HmacSecretInput =
  hs_KeyAgreement :: COSEKey
  hs_SaltEnc :: bytes
  hs_SaltAuth :: bytes
  hs_PinUvAuthProtocol :: nat

record ClientPINRequest =
  cp_PinUvAuthProtocol :: nat
  cp_SubCommand :: nat
  cp_KeyAgreement :: "COSEKey option"
  cp_PinUvAuthParam :: bytes
  cp_NewPinEnc :: bytes
  cp_PinHashEnc :: bytes
  cp_Permissions :: nat
  cp_PermissionsRPID :: string

record ClientPINResponse =
  cr_KeyAgreement :: "COSEKey option"
  cr_PinUvAuthToken :: bytes
  cr_PinRetries :: nat
  cr_PowerCycleState :: bool
  cr_UvRetries :: nat

section \<open>The CBOR library as the program calls it\<close>

datatype cbor_in =
    InVal goval
  | InMakeCredential MakeCredentialResponse
  | InGetAssertion GetAssertionResponse
  | InGetInfo GetInfoResponse
  | InClientPIN ClientPINResponse

record Cbor =
  ctapMarshal :: "cbor_in \<Rightarrow> gerr + bytes"
  cborMarshal :: "goval \<Rightarrow> gerr + bytes"
  unmarshalMakeCredential :: "bytes \<Rightarrow> gerr + MakeCredentialRequest"
  unmarshalGetAssertion :: "bytes \<Rightarrow> gerr + GetAssertionRequest"
  unmarshalClientPIN :: "bytes \<Rightarrow> gerr + ClientPINRequest"
  unmarshalHmacSecret :: "bytes \<Rightarrow> gerr + HmacSecretInput"

text \<open>\<^verbatim>\<open>encoded, _ := ctapEncMode.Marshal(...)\<close>: on an error the result is nil.\<close>

definition marshal_ignoring_err :: "Cbor \<Rightarrow> goval \<Rightarrow> bytes" where
  "marshal_ignoring_err C v = (case ctapMarshal C (InVal v) of Inl _ \<Rightarrow> [] | Inr b \<Rightarrow> b)"

end
