(* ===== verification/Sha256.thy ===== *)
theory Sha256
  imports Prelude
begin

text \<open>
  \<^verbatim>\<open>crypto/sha256\<close> and \<^verbatim>\<open>crypto/hmac\<close> as FIPS 180-4 and RFC 2104 define them: \<open>sha256\<close> is
  \<^verbatim>\<open>sha256.Sum256\<close> (and a hash object that is written once and summed), \<open>hmac_sha256 k m\<close> is
  \<^verbatim>\<open>hmac.New(sha256.New, k)\<close> written with \<open>m\<close> and summed. The definitions are executable.
\<close>

unbundle bit_operations_syntax

type_synonym word32 = "32 word"

text \<open>
  The constants are defined as the standard defines them: the first 32 bits of the fractional
  parts of the cube roots of the first 64 primes (round constants) and of the square roots of the
  first 8 (initial state). \<open>iroot k n\<close> is the integer \<open>k\<close>-th root, found bit by bit; the whole
  part of the root falls away in the conversion to 32 bits.
\<close>

definition iroot :: "nat \<Rightarrow> nat \<Rightarrow> nat" where
  "iroot k n = fold (\<lambda>i r. if (r + 2 ^ i) ^ k \<le> n then r + 2 ^ i else r) (rev [0..<40]) 0"

definition primes64 :: "nat list" where
  "primes64 = filter (\<lambda>p. list_all (\<lambda>d. p mod d \<noteq> 0) [2..<p]) [2..<312]"

definition K256 :: "word32 list" where
  "K256 = map (\<lambda>p. of_nat (iroot 3 (p * 2 ^ 96))) primes64"

definition H0_words :: "word32 list" where
  "H0_words = map (\<lambda>p. of_nat (iroot 2 (p * 2 ^ 64))) (take 8 primes64)"

type_synonym hstate = "word32 \<times> word32 \<times> word32 \<times> word32 \<times> word32 \<times> word32 \<times> word32 \<times> word32"

definition H256 :: hstate where
  "H256 = (H0_words ! 0, H0_words ! 1, H0_words ! 2, H0_words ! 3,
           H0_words ! 4, H0_words ! 5, H0_words ! 6, H0_words ! 7)"

definition rotr32 :: "nat \<Rightarrow> word32 \<Rightarrow> word32" where
  "rotr32 n x = drop_bit n x OR push_bit (32 - n) x"

text \<open>The message schedule is kept newest word first.\<close>

fun schedule :: "nat \<Rightarrow> word32 list \<Rightarrow> word32 list" where
  "schedule 0 ws = ws"
| "schedule (Suc n) ws =
     (let w15 = ws ! 14; w2 = ws ! 1;
          s0 = rotr32 7 w15 XOR rotr32 18 w15 XOR drop_bit 3 w15;
          s1 = rotr32 17 w2 XOR rotr32 19 w2 XOR drop_bit 10 w2
      in schedule n ((s1 + ws ! 6 + s0 + ws ! 15) # ws))"

fun rounds :: "(word32 \<times> word32) list \<Rightarrow> hstate \<Rightarrow> hstate" where
  "rounds [] st = st"
| "rounds ((k, w) # kws) (a, b, c, d, e, f, g, h) =
     (let s1 = rotr32 6 e XOR rotr32 11 e XOR rotr32 25 e;
          ch = (e AND f) XOR (NOT e AND g);
          t1 = h + s1 + ch + k + w;
          s0 = rotr32 2 a XOR rotr32 13 a XOR rotr32 22 a;
          maj = (a AND b) XOR (a AND c) XOR (b AND c);
          t2 = s0 + maj
      in rounds kws (t1 + t2, a, b, c, d + t1, e, f, g))"

definition add_state :: "hstate \<Rightarrow> hstate \<Rightarrow> hstate" where
  "add_state x y =
     (case x of (a, b, c, d, e, f, g, h) \<Rightarrow> case y of (a', b', c', d', e', f', g', h') \<Rightarrow>
        (a + a', b + b', c + c', d + d', e + e', f + f', g + g', h + h'))"

fun words_of :: "bytes \<Rightarrow> word32 list" where
  "words_of (a # b # c # d # bs) = of_nat (be_nat [a, b, c, d]) # words_of bs"
| "words_of _ = []"

definition compress :: "hstate \<Rightarrow> bytes \<Rightarrow> hstate" where
  "compress st block = add_state st (rounds (zip K256 (rev (schedule 48 (rev (words_of block))))) st)"

fun blocks :: "nat \<Rightarrow> hstate \<Rightarrow> bytes \<Rightarrow> hstate" where
  "blocks 0 st bs = st"
| "blocks (Suc n) st bs = blocks n (compress st (take 64 bs)) (drop 64 bs)"

definition sha_pad :: "bytes \<Rightarrow> bytes" where
  "sha_pad m = m @ [0x80] @ replicate ((119 - length m mod 64) mod 64) 0 @ be_fixed 8 (8 * length m)"

definition digest_bytes :: "hstate \<Rightarrow> bytes" where
  "digest_bytes st =
     (case st of (a, b, c, d, e, f, g, h) \<Rightarrow>
        concat (map (\<lambda>w. be_fixed 4 (unat w)) [a, b, c, d, e, f, g, h]))"

definition sha256 :: "bytes \<Rightarrow> bytes" where
  "sha256 m = (let p = sha_pad m in digest_bytes (blocks (length p div 64) H256 p))"

definition hmac_key :: "bytes \<Rightarrow> bytes" where
  "hmac_key k = (let k' = (if 64 < length k then sha256 k else k) in k' @ replicate (64 - length k') 0)"

definition hmac_sha256 :: "bytes \<Rightarrow> bytes \<Rightarrow> bytes" where
  "hmac_sha256 k m =
     (let k' = hmac_key k in
      sha256 (map (\<lambda>b. b XOR 0x5c) k' @ sha256 (map (\<lambda>b. b XOR 0x36) k' @ m)))"

lemma length_digest_bytes [simp]: "length (digest_bytes st) = 32"
  by (simp add: digest_bytes_def split: prod.split)

lemma length_sha256 [simp]: "length (sha256 m) = 32"
  by (simp add: sha256_def Let_def)

lemma length_hmac_sha256 [simp]: "length (hmac_sha256 k m) = 32"
  by (simp add: hmac_sha256_def Let_def)

text \<open>The padded message is a whole number of blocks, so no input byte is dropped.\<close>

lemma length_sha_pad: "64 dvd length (sha_pad m)"
proof -
  define q r where "q = length m div 64" and "r = length m mod 64"
  have n: "length m = 64 * q + r" and r: "r < 64" by (simp_all add: q_def r_def)
  have "(119 - r) mod 64 = (if r \<le> 55 then 55 - r else 119 - r)"
    using r by (auto simp: mod_if)
  then have "length (sha_pad m) = 64 * (if r \<le> 55 then q + 1 else q + 2)"
    using r by (simp add: sha_pad_def n)
  then show ?thesis by simp
qed

end
