(* ===== verification/AuthData.thy ===== *)
theory AuthData
  imports Ctap2Types Sha256
begin

text \<open>
  \<^verbatim>\<open>ctap2/authenticatordata.go\<close> and the helper \<open>bigIntToBytes\<close> of \<^verbatim>\<open>ctap2/makecredential.go\<close>: the
  authenticator data structure that is signed in every response, the RP id hash and the COSE
  public key. \<open>parse_auth\<close> is the relying party's reading of the format (WebAuthn, 6.1), which the
  round-trip theorem compares the serialisation with.
\<close>

record AttestedCredentialData =
  acd_AAGUID :: bytes
  acd_CredentialID :: bytes
  acd_CredentialPublicKey :: bytes

record AuthenticatorData =
  ad_RPIDHash :: bytes
  ad_Flags :: byte
  ad_SignCount :: "32 word"
  ad_Attested :: "AttestedCredentialData option"
  ad_Extensions :: bytes

definition MarshalAuthData :: "AuthenticatorData \<Rightarrow> bytes" where
  "MarshalAuthData ad =
     ad_RPIDHash ad @
     [ad_Flags ad] @
     be_fixed 4 (unat (ad_SignCount ad)) @
     (case ad_Attested ad of
        Some acd \<Rightarrow>
          if ad_Flags ad AND FlagAttestedCredData \<noteq> 0 then
            acd_AAGUID acd @
            be_fixed 2 (unat (of_nat (length (acd_CredentialID acd)) :: 16 word)) @
            acd_CredentialID acd @
            acd_CredentialPublicKey acd
          else []
      | None \<Rightarrow> []) @
     (if ad_Flags ad AND FlagExtensionData \<noteq> 0 \<and> 0 < length (ad_Extensions ad)
      then ad_Extensions ad else [])"

definition HashRPID :: "string \<Rightarrow> bytes" where
  "HashRPID rpID = sha256 (str_bytes rpID)"

definition padTo32 :: "bytes \<Rightarrow> bytes" where
  "padTo32 b = (if 32 \<le> length b then take 32 b else replicate (32 - length b) 0 @ b)"

definition BuildCOSEPublicKeyES256 :: "Cbor \<Rightarrow> nat \<Rightarrow> nat \<Rightarrow> gerr + bytes" where
  "BuildCOSEPublicKeyES256 C x y =
     (let xBytes = padTo32 (nat_bytes x);
          yBytes = padTo32 (nat_bytes y);
          coseKey = [(1, GInt 2), (3, GInt (-7)), (-1, GInt 1), (-2, GBytes xBytes), (-3, GBytes yBytes)]
      in ctapMarshal C (InVal (GMapInt coseKey)))"

definition bigIntToBytes :: "nat \<Rightarrow> bytes" where
  "bigIntToBytes n =
     (let b = nat_bytes n in
      if length b < 32 then replicate (32 - length b) 0 @ b else b)"

lemma length_HashRPID [simp]: "length (HashRPID rp) = 32"
  by (simp add: HashRPID_def)

lemma length_padTo32 [simp]: "length (padTo32 b) = 32"
  by (simp add: padTo32_def)

lemma padTo32_nat: "n < 2 ^ 256 \<Longrightarrow> padTo32 (nat_bytes n) = be_fixed 32 n"
proof -
  assume "n < 2 ^ 256"
  then have n: "n < 256 ^ 32" by simp
  from nat_bytes_length_le [OF n] nat_bytes_pad [OF n] show ?thesis
    by (auto simp: padTo32_def)
qed

lemma bigIntToBytes_nat: "n < 2 ^ 256 \<Longrightarrow> bigIntToBytes n = be_fixed 32 n"
proof -
  assume "n < 2 ^ 256"
  then have n: "n < 256 ^ 32" by simp
  from nat_bytes_length_le [OF n] nat_bytes_pad [OF n] show ?thesis
    by (auto simp: bigIntToBytes_def Let_def)
qed

section \<open>The format as a relying party reads it\<close>

record ParsedAuth =
  pa_rpIdHash :: bytes
  pa_flags :: byte
  pa_signCount :: nat
  pa_credential :: "(bytes \<times> bytes) option"
  pa_rest :: bytes

definition parse_attested :: "bytes \<Rightarrow> ((bytes \<times> bytes) \<times> bytes) option" where
  "parse_attested bs =
     (if length bs < 18 then None
      else
        let n = be_nat (take 2 (drop 16 bs)); rest = drop 18 bs in
        if length rest < n then None else Some ((take 16 bs, take n rest), drop n rest))"

definition parse_auth :: "bytes \<Rightarrow> ParsedAuth option" where
  "parse_auth bs =
     (if length bs < 37 then None
      else
        let fl = bs ! 32; cnt = be_nat (take 4 (drop 33 bs)); rest = drop 37 bs in
        if fl AND 0x40 = 0 then
          Some \<lparr>pa_rpIdHash = take 32 bs, pa_flags = fl, pa_signCount = cnt, pa_credential = None,
                pa_rest = rest\<rparr>
        else
          (case parse_attested rest of
             None \<Rightarrow> None
           | Some (c, rest') \<Rightarrow>
               Some \<lparr>pa_rpIdHash = take 32 bs, pa_flags = fl, pa_signCount = cnt,
                     pa_credential = Some c, pa_rest = rest'\<rparr>))"

text \<open>The extension bytes that are written: those of the structure if the ED flag is set.\<close>

definition ext_part :: "AuthenticatorData \<Rightarrow> bytes" where
  "ext_part ad = (if ad_Flags ad AND FlagExtensionData \<noteq> 0 then ad_Extensions ad else [])"

lemma parse_header:
  assumes "length h = 32" "length c = 4"
  shows "parse_auth (h @ [fl] @ c @ rest) =
    (if fl AND 0x40 = 0 then
       Some \<lparr>pa_rpIdHash = h, pa_flags = fl, pa_signCount = be_nat c, pa_credential = None, pa_rest = rest\<rparr>
     else (case parse_attested rest of None \<Rightarrow> None
           | Some (cr, rest') \<Rightarrow> Some \<lparr>pa_rpIdHash = h, pa_flags = fl, pa_signCount = be_nat c,
               pa_credential = Some cr, pa_rest = rest'\<rparr>))"
proof -
  have 1: "(h @ [fl] @ c @ rest) ! 32 = fl" using assms(1) by (simp add: nth_append)
  have 2: "take 32 (h @ [fl] @ c @ rest) = h" using assms(1) by simp
  have 3: "drop 33 (h @ [fl] @ c @ rest) = c @ rest" using assms(1) by simp
  have 4: "drop 37 (h @ [fl] @ c @ rest) = rest" using assms by simp
  have 5: "\<not> length (h @ [fl] @ c @ rest) < 37" using assms by simp
  have 6: "take 4 (c @ rest) = c" using assms(2) by simp
  show ?thesis unfolding parse_auth_def using 5
    by (simp only: 1 2 3 4 6 if_False Let_def)
qed

lemma parse_attested_written:
  assumes "length g = 16" "length i < 65536"
  shows "parse_attested (g @ be_fixed 2 (length i) @ i @ rest) = Some ((g, i), rest)"
proof -
  have 1: "be_nat (be_fixed 2 (length i)) = length i" using assms(2) by (simp add: be_nat_be_fixed)
  have 2: "drop 18 (g @ be_fixed 2 (length i) @ i @ rest) = i @ rest" using assms(1) by simp
  have 3: "take 2 (drop 16 (g @ be_fixed 2 (length i) @ i @ rest)) = be_fixed 2 (length i)"
    using assms(1) by simp
  have 4: "take 16 (g @ be_fixed 2 (length i) @ i @ rest) = g" using assms(1) by simp
  show ?thesis unfolding parse_attested_def Let_def 1 2 3 4 using assms(1) by simp
qed

lemma parse_MarshalAuthData:
  assumes "length (ad_RPIDHash ad) = 32"
    and "ad_Flags ad AND FlagAttestedCredData \<noteq> 0 \<longleftrightarrow> ad_Attested ad \<noteq> None"
    and "\<And>acd. ad_Attested ad = Some acd \<Longrightarrow>
           length (acd_AAGUID acd) = 16 \<and> length (acd_CredentialID acd) < 65536"
  shows "parse_auth (MarshalAuthData ad) =
    Some \<lparr>pa_rpIdHash = ad_RPIDHash ad, pa_flags = ad_Flags ad, pa_signCount = unat (ad_SignCount ad),
      pa_credential = map_option (\<lambda>acd. (acd_AAGUID acd, acd_CredentialID acd)) (ad_Attested ad),
      pa_rest = (case ad_Attested ad of None \<Rightarrow> [] | Some acd \<Rightarrow> acd_CredentialPublicKey acd) @ ext_part ad\<rparr>"
proof -
  let ?c = "be_fixed 4 (unat (ad_SignCount ad))"
  have cnt: "be_nat ?c = unat (ad_SignCount ad)"
    using word_nat_bound [of "ad_SignCount ad"] by (simp add: be_nat_be_fixed)
  have flag: "ad_Flags ad AND 0x40 \<noteq> 0 \<longleftrightarrow> ad_Attested ad \<noteq> None"
    using assms(2) by (simp add: FlagAttestedCredData_def)
  show ?thesis
  proof (cases "ad_Attested ad")
    case None
    then have m: "MarshalAuthData ad = ad_RPIDHash ad @ [ad_Flags ad] @ ?c @ ext_part ad"
      by (simp add: MarshalAuthData_def ext_part_def)
    show ?thesis unfolding m using None flag cnt assms(1) by (subst parse_header) simp_all
  next
    case (Some acd)
    then have len: "unat (of_nat (length (acd_CredentialID acd)) :: 16 word) = length (acd_CredentialID acd)"
      using assms(3) by (simp add: unat_of_nat)
    have m: "MarshalAuthData ad = ad_RPIDHash ad @ [ad_Flags ad] @ ?c @
        (acd_AAGUID acd @ be_fixed 2 (length (acd_CredentialID acd)) @ acd_CredentialID acd @
          (acd_CredentialPublicKey acd @ ext_part ad))"
      using Some assms(2) len by (simp add: MarshalAuthData_def ext_part_def)
    from Some assms(3) have "length (acd_AAGUID acd) = 16" "length (acd_CredentialID acd) < 65536" by auto
    from parse_attested_written [OF this] show ?thesis
      unfolding m using Some flag cnt assms(1) by (subst parse_header) simp_all
  qed
qed

section \<open>Properties\<close>

text \<open>
  C31. Authenticator data is laid out as WebAuthn prescribes: a relying party that parses the
  serialised bytes gets back the RP id hash, the flags, the signature counter (big-endian), for
  attested data the AAGUID and the whole credential id, and exactly the key and extension bytes
  after them. The credential id is at most 65535 bytes, the range of its 2-byte length.
\<close>

theorem authdata_roundtrip:
  assumes "length (ad_RPIDHash ad) = 32"
    and "ad_Flags ad AND FlagAttestedCredData \<noteq> 0 \<longleftrightarrow> ad_Attested ad \<noteq> None"
    and "\<And>acd. ad_Attested ad = Some acd \<Longrightarrow>
           length (acd_AAGUID acd) = 16 \<and> length (acd_CredentialID acd) < 65536"
  shows "parse_auth (MarshalAuthData ad) =
    Some \<lparr>pa_rpIdHash = ad_RPIDHash ad, pa_flags = ad_Flags ad, pa_signCount = unat (ad_SignCount ad),
      pa_credential = map_option (\<lambda>acd. (acd_AAGUID acd, acd_CredentialID acd)) (ad_Attested ad),
      pa_rest = (case ad_Attested ad of None \<Rightarrow> [] | Some acd \<Rightarrow> acd_CredentialPublicKey acd) @ ext_part ad\<rparr>"
  using assms by (rule parse_MarshalAuthData)

definition ad0 :: AuthenticatorData where
  "ad0 = \<lparr>ad_RPIDHash = replicate 32 9, ad_Flags = 0x45, ad_SignCount = 258,
     ad_Attested = Some \<lparr>acd_AAGUID = replicate 16 3, acd_CredentialID = [1, 2], acd_CredentialPublicKey = [5]\<rparr>,
     ad_Extensions = []\<rparr>"

theorem authdata_roundtrip_witness:
  "parse_auth (MarshalAuthData ad0) =
    Some \<lparr>pa_rpIdHash = replicate 32 9, pa_flags = 0x45, pa_signCount = 258,
      pa_credential = Some (replicate 16 3, [1, 2]), pa_rest = [5]\<rparr>"
proof -
  have "parse_auth (MarshalAuthData ad0) = Some
    \<lparr>pa_rpIdHash = ad_RPIDHash ad0, pa_flags = ad_Flags ad0, pa_signCount = unat (ad_SignCount ad0),
      pa_credential = map_option (\<lambda>acd. (acd_AAGUID acd, acd_CredentialID acd)) (ad_Attested ad0),
      pa_rest = (case ad_Attested ad0 of None \<Rightarrow> [] | Some acd \<Rightarrow> acd_CredentialPublicKey acd) @ ext_part ad0\<rparr>"
    by (rule authdata_roundtrip) (auto simp: ad0_def FlagAttestedCredData_def)
  then show ?thesis by (simp add: ad0_def ext_part_def FlagExtensionData_def)
qed

text \<open>
  The COSE key and the stored coordinates carry the point exactly: for coordinates below
  \<open>2 ^ 256\<close> both are 32 bytes long and read back, big-endian, as the coordinates.
\<close>

theorem cose_key_coordinates:
  assumes "x < 2 ^ 256" "y < 2 ^ 256"
  shows "\<exists>bx by. BuildCOSEPublicKeyES256 C x y = ctapMarshal C (InVal (GMapInt
      [(1, GInt COSEKeyTypeEC2), (3, GInt COSEAlgES256), (-1, GInt COSECurveP256),
       (-2, GBytes bx), (-3, GBytes by)])) \<and>
    length bx = 32 \<and> length by = 32 \<and> be_nat bx = x \<and> be_nat by = y \<and>
    bigIntToBytes x = bx \<and> bigIntToBytes y = by"
  using assms
  by (intro exI [of _ "be_fixed 32 x"] exI [of _ "be_fixed 32 y"])
     (simp add: BuildCOSEPublicKeyES256_def padTo32_nat bigIntToBytes_nat be_nat_be_fixed
       COSEKeyTypeEC2_def COSEAlgES256_def COSECurveP256_def)

definition cbor0 :: Cbor where
  "cbor0 = \<lparr>ctapMarshal = (\<lambda>_. Inr [0xA0]), cborMarshal = (\<lambda>_. Inr []),
     unmarshalMakeCredential = (\<lambda>_. Inl (ErrMsg ''cbor'')), unmarshalGetAssertion = (\<lambda>_. Inl (ErrMsg ''cbor'')),
     unmarshalClientPIN = (\<lambda>_. Inl (ErrMsg ''cbor'')), unmarshalHmacSecret = (\<lambda>_. Inl (ErrMsg ''cbor''))\<rparr>"

theorem cose_key_coordinates_witness:
  "\<exists>bx by. length bx = 32 \<and> length by = 32 \<and> be_nat bx = 5 \<and> be_nat by = 0 \<and>
     bigIntToBytes 5 = bx \<and> bigIntToBytes 0 = by"
  using cose_key_coordinates [of 5 0 cbor0] by auto

end
