(* ===== verification/Signer.thy ===== *)
theory Signer
  imports AuthData
begin

text \<open>
  The \<open>Signer\<close> interface of \<^verbatim>\<open>ctap2/ctap2.go\<close>, which the memory and the TPM backend implement, as
  a record of functions over the backend's state, and the contract the authenticator relies on.
  Randomness (\<^verbatim>\<open>crypto/rand\<close>) is an arbitrary byte sequence read from a position, any read of
  which may be declared to fail. The elliptic-curve and AEAD functions are the argument \<open>Crypto\<close>:
  XChaCha20-Poly1305 is a third-party package, and key generation and signing draw randomness in
  ways their documentation leaves open. \<open>crypto_ok\<close> states what their documentation promises.
\<close>

section \<open>Randomness\<close>

record Rng =
  rng_byte :: "nat \<Rightarrow> byte"
  rng_pos :: nat
  rng_fail :: "nat \<Rightarrow> bool"

definition rand_read :: "nat \<Rightarrow> Rng \<Rightarrow> (gerr + bytes) \<times> Rng" where
  "rand_read n r =
     (if rng_fail r (rng_pos r) then (Inl (ErrMsg ''rand''), r)
      else (Inr (map (\<lambda>i. rng_byte r (rng_pos r + i)) [0..<n]), r\<lparr>rng_pos := rng_pos r + n\<rparr>))"

text \<open>\<^verbatim>\<open>mustRand\<close> of both backends: panics when the system randomness fails.\<close>

definition mustRand :: "nat \<Rightarrow> Rng \<Rightarrow> bytes res \<times> Rng" where
  "mustRand n r =
     (case rand_read n r of (Inl e, r1) \<Rightarrow> (Panic (err_text e), r1) | (Inr b, r1) \<Rightarrow> (Ok b, r1))"

definition rng_good :: "Rng \<Rightarrow> bool" where
  "rng_good r \<longleftrightarrow> (\<forall>n. \<not> rng_fail r n)"

lemma mustRand_good:
  "rng_good r \<Longrightarrow> \<exists>b r'. mustRand n r = (Ok b, r') \<and> length b = n \<and> rng_good r'"
  by (simp add: mustRand_def rand_read_def rng_good_def)

section \<open>Cryptography outside the model\<close>

record Crypto =
  ecGenerateKey :: "Rng \<Rightarrow> (gerr + bytes \<times> nat \<times> nat) \<times> Rng"
  ecScalarBaseMult :: "nat \<Rightarrow> nat \<times> nat"
  ecScalarMult :: "nat \<Rightarrow> nat \<Rightarrow> nat \<Rightarrow> nat \<times> nat"
  ecdsaSignASN1 :: "nat \<Rightarrow> bytes \<Rightarrow> Rng \<Rightarrow> (gerr + bytes) \<times> Rng"
  ecdsaVerify :: "nat \<Rightarrow> nat \<Rightarrow> bytes \<Rightarrow> bytes \<Rightarrow> bool"
  aeadSeal :: "bytes \<Rightarrow> bytes \<Rightarrow> bytes \<Rightarrow> bytes \<Rightarrow> bytes"
  aeadOpen :: "bytes \<Rightarrow> bytes \<Rightarrow> bytes \<Rightarrow> bytes \<Rightarrow> (gerr + bytes)"

definition p256_order :: nat where
  "p256_order = 2 ^ 256 - 2 ^ 224 + 2 ^ 192 - 89188191075325690597107910205041859247"

definition aead_ok :: "Crypto \<Rightarrow> bool" where
  "aead_ok C \<longleftrightarrow>
     (\<forall>k n p ad. aeadOpen C k n (aeadSeal C k n p ad) ad = Inr p \<and>
                 length (aeadSeal C k n p ad) = length p + 16)"

definition ec_ok :: "Crypto \<Rightarrow> bool" where
  "ec_ok C \<longleftrightarrow>
     (\<forall>r. rng_good r \<longrightarrow>
        (\<exists>priv x y r'. ecGenerateKey C r = (Inr (priv, x, y), r') \<and> rng_good r' \<and>
           length priv = 32 \<and> 0 < be_nat priv \<and> be_nat priv < p256_order \<and>
           ecScalarBaseMult C (be_nat priv) = (x, y))) \<and>
     (\<forall>d digest r. rng_good r \<longrightarrow> 0 < d \<longrightarrow> d < p256_order \<longrightarrow>
        (\<exists>sig r'. ecdsaSignASN1 C d digest r = (Inr sig, r') \<and> rng_good r' \<and>
           (case ecScalarBaseMult C d of (x, y) \<Rightarrow> ecdsaVerify C x y digest sig))) \<and>
     (\<forall>d digest r. rng_good r \<longrightarrow> rng_good (snd (ecdsaSignASN1 C d digest r)))"

definition crypto_ok :: "Crypto \<Rightarrow> bool" where
  "crypto_ok C \<longleftrightarrow> aead_ok C \<and> ec_ok C"

lemma ec_ok_generate:
  "ec_ok C \<Longrightarrow> rng_good r \<Longrightarrow>
     \<exists>priv x y r'. ecGenerateKey C r = (Inr (priv, x, y), r') \<and> rng_good r' \<and>
       length priv = 32 \<and> 0 < be_nat priv \<and> be_nat priv < p256_order \<and>
       ecScalarBaseMult C (be_nat priv) = (x, y)"
  unfolding ec_ok_def by blast

lemma ec_ok_sign:
  "ec_ok C \<Longrightarrow> rng_good r \<Longrightarrow> 0 < d \<Longrightarrow> d < p256_order \<Longrightarrow>
     \<exists>sig r'. ecdsaSignASN1 C d digest r = (Inr sig, r') \<and> rng_good r' \<and>
       (case ecScalarBaseMult C d of (x, y) \<Rightarrow> ecdsaVerify C x y digest sig)"
  unfolding ec_ok_def by blast

section \<open>The interface\<close>

record 's Signer =
  RegisterKey :: "bytes \<Rightarrow> 's \<Rightarrow> (bytes \<times> nat \<times> nat) res \<times> 's"
  SignASN1 :: "bytes \<Rightarrow> bytes \<Rightarrow> bytes \<Rightarrow> 's \<Rightarrow> bytes res \<times> 's"
  Counter :: "'s \<Rightarrow> 32 word \<times> 's"
  DeriveCredRandom :: "bytes \<Rightarrow> 's \<Rightarrow> bytes res \<times> 's"

text \<open>
  A call of the interface, and the state after a sequence of calls, whatever they return.
\<close>

datatype signer_call =
    CallRegister bytes
  | CallSign bytes bytes bytes
  | CallCounter
  | CallDerive bytes

fun signer_after :: "'s Signer \<Rightarrow> signer_call list \<Rightarrow> 's \<Rightarrow> 's" where
  "signer_after S [] s = s"
| "signer_after S (CallRegister a # cs) s = signer_after S cs (snd (RegisterKey S a s))"
| "signer_after S (CallSign h a d # cs) s = signer_after S cs (snd (SignASN1 S h a d s))"
| "signer_after S (CallCounter # cs) s = signer_after S cs (snd (Counter S s))"
| "signer_after S (CallDerive h # cs) s = signer_after S cs (snd (DeriveCredRandom S h s))"

text \<open>
  \<open>inv\<close> is the backend's invariant; \<open>knows s h a x y\<close> says that in state \<open>s\<close> the handle \<open>h\<close> belongs to
  the application parameter \<open>a\<close> and the public key \<open>(x, y)\<close>. What is registered can sign any 32-byte
  digest ever after, handles fit the 16-bit length of authenticator data, no operation panics, and the secret derived from a handle is 32 bytes and never
  changes.
\<close>

definition grows ::
  "('s \<Rightarrow> bool) \<Rightarrow> ('s \<Rightarrow> bytes \<Rightarrow> bytes \<Rightarrow> nat \<Rightarrow> nat \<Rightarrow> bool) \<Rightarrow> 's \<Rightarrow> 's \<Rightarrow> bool" where
  "grows ok knows s s' \<longleftrightarrow> ok s' \<and> (\<forall>h b x y. knows s h b x y \<longrightarrow> knows s' h b x y)"

lemma grows_refl [simp]: "ok s \<Longrightarrow> grows ok knows s s"
  by (simp add: grows_def)

lemma grows_trans: "grows ok knows s s1 \<Longrightarrow> grows ok knows s1 s2 \<Longrightarrow> grows ok knows s s2"
  by (simp add: grows_def)

locale signer_contract =
  fixes S :: "'s Signer"
    and inv :: "'s \<Rightarrow> bool"
    and knows :: "'s \<Rightarrow> bytes \<Rightarrow> bytes \<Rightarrow> nat \<Rightarrow> nat \<Rightarrow> bool"
    and verify :: "nat \<Rightarrow> nat \<Rightarrow> bytes \<Rightarrow> bytes \<Rightarrow> bool"
  assumes register_knows: "inv s \<Longrightarrow> RegisterKey S a s = (Ok (h, x, y), s') \<Longrightarrow> knows s' h a x y"
    and register_length: "inv s \<Longrightarrow> RegisterKey S a s = (Ok (h, x, y), s') \<Longrightarrow> length h < 65536"
    and sign_known: "inv s \<Longrightarrow> knows s h a x y \<Longrightarrow> length d = 32 \<Longrightarrow>
      \<exists>sig s'. SignASN1 S h a d s = (Ok sig, s') \<and> verify x y d sig"
    and derive_length: "inv s \<Longrightarrow> DeriveCredRandom S h s = (Ok r, s') \<Longrightarrow> length r = 32"
    and register_keeps: "inv s \<Longrightarrow> RegisterKey S a s = (p, s') \<Longrightarrow>
      inv s' \<and> (\<forall>h b x y. knows s h b x y \<longrightarrow> knows s' h b x y) \<and> \<not> is_panic p"
    and sign_keeps: "inv s \<Longrightarrow> SignASN1 S g a d s = (q, s') \<Longrightarrow>
      inv s' \<and> (\<forall>h b x y. knows s h b x y \<longrightarrow> knows s' h b x y) \<and> \<not> is_panic q"
    and counter_keeps: "inv s \<Longrightarrow> Counter S s = (n, s') \<Longrightarrow>
      inv s' \<and> (\<forall>h b x y. knows s h b x y \<longrightarrow> knows s' h b x y)"
    and derive_keeps: "inv s \<Longrightarrow> DeriveCredRandom S g s = (q, s') \<Longrightarrow>
      inv s' \<and> (\<forall>h b x y. knows s h b x y \<longrightarrow> knows s' h b x y) \<and> \<not> is_panic q"
begin

lemma sign_known_ok:
  "inv s \<Longrightarrow> knows s h a x y \<Longrightarrow> SignASN1 S h a d s = (r, s') \<Longrightarrow> length d = 32 \<Longrightarrow>
     \<exists>sig. r = Ok sig \<and> verify x y d sig"
  using sign_known [of s h a x y d] by auto

lemma register_then_sign:
  assumes "inv s" "RegisterKey S a s = (Ok (h, x, y), s')" "length d = 32"
  shows "\<exists>sig s2. SignASN1 S h a d s' = (Ok sig, s2) \<and> verify x y d sig"
  using register_keeps [OF assms(1,2)] sign_known [OF _ register_knows [OF assms(1,2)] assms(3)] by blast

lemma call_keeps:
  "inv s \<Longrightarrow> s' = signer_after S [c] s \<Longrightarrow>
     inv s' \<and> (\<forall>h b x y. knows s h b x y \<longrightarrow> knows s' h b x y)"
  by (cases c) (metis prod.collapse register_keeps sign_keeps counter_keeps derive_keeps
      signer_after.simps)+

lemma after_keeps:
  "inv s \<Longrightarrow> inv (signer_after S cs s) \<and>
     (\<forall>h b x y. knows s h b x y \<longrightarrow> knows (signer_after S cs s) h b x y)"
proof (induction cs arbitrary: s)
  case (Cons c cs)
  have "signer_after S (c # cs) s = signer_after S cs (signer_after S [c] s)" by (cases c) simp_all
  with Cons.IH [of "signer_after S [c] s"] call_keeps [OF Cons.prems refl, of c] show ?case
    by (metis (no_types, lifting))
qed simp

lemma register_known_later:
  assumes "inv s" "RegisterKey S a s = (Ok (h, x, y), s')"
  shows "inv (signer_after S cs s') \<and> knows (signer_after S cs s') h a x y"
  using after_keeps [of s' cs] register_keeps [OF assms] register_knows [OF assms] by blast

lemma register_sign_later:
  assumes "inv s" "RegisterKey S a s = (Ok (h, x, y), s')" "length d = 32"
  shows "\<exists>sig s2. SignASN1 S h a d (signer_after S cs s') = (Ok sig, s2) \<and> verify x y d sig"
  using register_known_later [OF assms(1,2), of cs] sign_known assms(3) by blast

end

text \<open>
  The contract of the PRF: moreover the secret of a handle is a function that no operation changes.
\<close>

locale stable_secret = signer_contract +
  fixes secret :: "'a \<Rightarrow> bytes \<Rightarrow> bytes res"
  assumes derive_secret: "inv s \<Longrightarrow> DeriveCredRandom S h s = (q, s') \<Longrightarrow> q = secret s h \<and> secret s' = secret s"
    and register_secret: "inv s \<Longrightarrow> RegisterKey S a s = (p, s') \<Longrightarrow> secret s' = secret s"
    and sign_secret: "inv s \<Longrightarrow> SignASN1 S g a d s = (q, s') \<Longrightarrow> secret s' = secret s"
    and counter_secret: "inv s \<Longrightarrow> Counter S s = (n, s') \<Longrightarrow> secret s' = secret s"

text \<open>Fixing the secrets is then an invariant of its own, so what is kept by \<open>grows\<close> includes them.\<close>

sublocale stable_secret \<subseteq> keyed: signer_contract S "\<lambda>s. inv s \<and> secret s = f" knows verify for f
  by unfold_locales
    (use register_knows register_length sign_known derive_length register_keeps sign_keeps counter_keeps derive_keeps
      derive_secret register_secret sign_secret counter_secret in \<open>blast | metis\<close>)+

end
