(* ===== verification/MemoryBackend.thy ===== *)
theory MemoryBackend
  imports Signer
begin

text \<open>
  \<^verbatim>\<open>memory/memory.go\<close>: the in-memory backend. Key handles are the child private key sealed under
  the master key with the application parameter as associated data; \<open>rng\<close> is the process's
  \<^verbatim>\<open>crypto/rand\<close>.
\<close>

record Mem =
  masterPrivateKey :: bytes
  signCounter :: "32 word"
  mem_rng :: Rng

definition KeySize :: nat where "KeySize = 32"

definition NonceSizeX :: nat where "NonceSizeX = 24"

definition mem_New :: "Rng \<Rightarrow> Mem res" where
  "mem_New r =
     (case mustRand KeySize r of
        (Ok k, r1) \<Rightarrow> Ok \<lparr>masterPrivateKey = k, signCounter = 0, mem_rng = r1\<rparr>
      | (Err e, r1) \<Rightarrow> Err e
      | (Panic m, r1) \<Rightarrow> Panic m)"

definition mem_Counter :: "Mem \<Rightarrow> 32 word \<times> Mem" where
  "mem_Counter m = (let c = signCounter m + 1 in (c, m\<lparr>signCounter := c\<rparr>))"

text \<open>\<^verbatim>\<open>chacha20poly1305.NewX\<close> refuses keys of another length.\<close>

definition NewX :: "bytes \<Rightarrow> gerr option" where
  "NewX key =
     (if length key \<noteq> KeySize then Some (ErrMsg ''chacha20poly1305: bad key length'') else None)"

definition wrap_metadata :: "bytes \<Rightarrow> bytes" where
  "wrap_metadata applicationParam = sha256 (str_bytes ''fido_wrapping_key'' @ applicationParam)"

definition mem_RegisterKey :: "Crypto \<Rightarrow> bytes \<Rightarrow> Mem \<Rightarrow> (bytes \<times> nat \<times> nat) res \<times> Mem" where
  "mem_RegisterKey C applicationParam m =
     (case ecGenerateKey C (mem_rng m) of
        (Inl e, r1) \<Rightarrow> (Err (Wrapped ''gen key err: '' e), m\<lparr>mem_rng := r1\<rparr>)
      | (Inr (childPrivateKey, x, y), r1) \<Rightarrow>
          let sum = wrap_metadata applicationParam in
          (case NewX (masterPrivateKey m) of
             Some e \<Rightarrow> (Err (Wrapped ''chacha NewX err: '' e), m\<lparr>mem_rng := r1\<rparr>)
           | None \<Rightarrow>
               (case mustRand NonceSizeX r1 of
                  (Panic p, r2) \<Rightarrow> (Panic p, m\<lparr>mem_rng := r2\<rparr>)
                | (Err e, r2) \<Rightarrow> (Err e, m\<lparr>mem_rng := r2\<rparr>)
                | (Ok nonce, r2) \<Rightarrow>
                    let enc = aeadSeal C (masterPrivateKey m) nonce childPrivateKey sum;
                        keyHandle = nonce @ enc
                    in if 255 < length keyHandle
                       then (Panic ''keyHandle is too big'', m\<lparr>mem_rng := r2\<rparr>)
                       else (Ok (keyHandle, x, y), m\<lparr>mem_rng := r2\<rparr>))))"

definition mem_DeriveCredRandom :: "bytes \<Rightarrow> Mem \<Rightarrow> bytes res \<times> Mem" where
  "mem_DeriveCredRandom credentialID m = (Ok (hmac_sha256 (masterPrivateKey m) credentialID), m)"

definition mem_SignASN1 :: "Crypto \<Rightarrow> bytes \<Rightarrow> bytes \<Rightarrow> bytes \<Rightarrow> Mem \<Rightarrow> bytes res \<times> Mem" where
  "mem_SignASN1 C keyHandle applicationParam digest m =
     (case NewX (masterPrivateKey m) of
        Some e \<Rightarrow> (Panic (err_text e), m)
      | None \<Rightarrow>
          if length keyHandle < NonceSizeX
          then (Err (ErrMsg (''incorrect size for key handle: '' @ show_nat (length keyHandle)
                       @ '' smaller than nonce)'')), m)
          else
            let nonce = take NonceSizeX keyHandle;
                cipherText = drop NonceSizeX keyHandle;
                sum = wrap_metadata applicationParam
            in (case aeadOpen C (masterPrivateKey m) nonce cipherText sum of
                  Inl e \<Rightarrow> (Err (Wrapped ''open child private key err: '' e), m)
                | Inr childPrivateKey \<Rightarrow>
                    (case ecdsaSignASN1 C (be_nat childPrivateKey) digest (mem_rng m) of
                       (Inl e, r1) \<Rightarrow> (Err e, m\<lparr>mem_rng := r1\<rparr>)
                     | (Inr sig, r1) \<Rightarrow> (Ok sig, m\<lparr>mem_rng := r1\<rparr>))))"

definition mem_signer :: "Crypto \<Rightarrow> Mem Signer" where
  "mem_signer C =
     \<lparr>RegisterKey = mem_RegisterKey C, SignASN1 = mem_SignASN1 C, Counter = mem_Counter,
      DeriveCredRandom = mem_DeriveCredRandom\<rparr>"

section \<open>The contract\<close>

definition mem_inv :: "Crypto \<Rightarrow> Mem \<Rightarrow> bool" where
  "mem_inv C m \<longleftrightarrow> length (masterPrivateKey m) = KeySize \<and> rng_good (mem_rng m) \<and> crypto_ok C"

definition mem_knows :: "Crypto \<Rightarrow> Mem \<Rightarrow> bytes \<Rightarrow> bytes \<Rightarrow> nat \<Rightarrow> nat \<Rightarrow> bool" where
  "mem_knows C m h a x y \<longleftrightarrow>
     (\<exists>p. NonceSizeX \<le> length h \<and>
          aeadOpen C (masterPrivateKey m) (take NonceSizeX h) (drop NonceSizeX h) (wrap_metadata a) = Inr p \<and>
          0 < be_nat p \<and> be_nat p < p256_order \<and> ecScalarBaseMult C (be_nat p) = (x, y))"

lemma mem_knows_cong: "masterPrivateKey m = masterPrivateKey m' \<Longrightarrow> mem_knows C m = mem_knows C m'"
  by (simp add: mem_knows_def fun_eq_iff)

lemma mem_New_inv: "rng_good r \<Longrightarrow> crypto_ok C \<Longrightarrow> \<exists>m. mem_New r = Ok m \<and> mem_inv C m"
  using mustRand_good [of r KeySize] by (auto simp: mem_New_def mem_inv_def)

lemma mem_RegisterKey_ok:
  assumes "mem_inv C m"
  shows "\<exists>h x y m'. mem_RegisterKey C a m = (Ok (h, x, y), m') \<and> mem_inv C m' \<and>
    masterPrivateKey m' = masterPrivateKey m \<and> mem_knows C m' h a x y \<and> length h = 72"
proof -
  from assms have r: "rng_good (mem_rng m)" "ec_ok C" by (simp_all add: mem_inv_def crypto_ok_def)
  from ec_ok_generate [OF r(2,1)] obtain priv x y r1 where
    g: "ecGenerateKey C (mem_rng m) = (Inr (priv, x, y), r1)" "rng_good r1" "length priv = 32"
      "0 < be_nat priv" "be_nat priv < p256_order" "ecScalarBaseMult C (be_nat priv) = (x, y)"
    by blast
  from mustRand_good [OF g(2), of NonceSizeX] obtain nonce r2 where
    n: "mustRand NonceSizeX r1 = (Ok nonce, r2)" "length nonce = NonceSizeX" "rng_good r2" by auto
  from assms have k: "length (masterPrivateKey m) = KeySize"
    and seal: "aead_ok C" by (simp_all add: mem_inv_def crypto_ok_def)
  with assms g n show ?thesis
    by (simp add: mem_RegisterKey_def NewX_def Let_def mem_inv_def mem_knows_def aead_ok_def NonceSizeX_def)
qed

lemma mem_SignASN1_known:
  assumes "mem_inv C m" "mem_knows C m h a x y"
  shows "\<exists>sig m'. mem_SignASN1 C h a d m = (Ok sig, m') \<and> ecdsaVerify C x y d sig"
proof -
  from assms(2) obtain p where p: "NonceSizeX \<le> length h"
    "aeadOpen C (masterPrivateKey m) (take NonceSizeX h) (drop NonceSizeX h) (wrap_metadata a) = Inr p"
    "0 < be_nat p" "be_nat p < p256_order" "ecScalarBaseMult C (be_nat p) = (x, y)"
    by (auto simp: mem_knows_def)
  from assms(1) have g: "rng_good (mem_rng m)" "ec_ok C" and n: "NewX (masterPrivateKey m) = None"
    by (simp_all add: mem_inv_def crypto_ok_def NewX_def)
  from ec_ok_sign [OF g(2,1) p(3,4), of d] p(5) obtain sig r' where
    "ecdsaSignASN1 C (be_nat p) d (mem_rng m) = (Inr sig, r')" "ecdsaVerify C x y d sig"
    by auto
  with n p(1,2) show ?thesis
    by (simp add: mem_SignASN1_def Let_def)
qed

lemma mem_SignASN1_state:
  "mem_SignASN1 C h a d m = (r, m') \<Longrightarrow>
   masterPrivateKey m' = masterPrivateKey m \<and> signCounter m' = signCounter m"
  by (auto simp: mem_SignASN1_def Let_def split: option.splits if_splits sum.splits prod.splits)

lemma mem_SignASN1_inv:
  assumes "mem_inv C m" "mem_SignASN1 C h a d m = (r, m')"
  shows "mem_inv C m' \<and> \<not> is_panic r"
proof -
  from assms(1) have g: "\<And>p q r1. ecdsaSignASN1 C p d (mem_rng m) = (q, r1) \<Longrightarrow> rng_good r1"
    unfolding mem_inv_def crypto_ok_def ec_ok_def by (metis snd_conv)
  from assms(1) have "NewX (masterPrivateKey m) = None" by (simp add: mem_inv_def NewX_def)
  with assms show ?thesis
    by (auto simp: mem_SignASN1_def Let_def mem_inv_def dest: g
        split: if_splits sum.splits prod.splits)
qed

interpretation mem: signer_contract "mem_signer C" "mem_inv C" "mem_knows C" "ecdsaVerify C" for C
proof (unfold_locales, unfold mem_signer_def Signer.simps)
  fix s a h x y s'
  assume "mem_inv C s" "mem_RegisterKey C a s = (Ok (h, x, y), s')"
  then show "mem_knows C s' h a x y" using mem_RegisterKey_ok [of C s a] by auto
next
  fix s a h x y s'
  assume "mem_inv C s" "mem_RegisterKey C a s = (Ok (h, x, y), s')"
  then show "length h < 65536" using mem_RegisterKey_ok [of C s a] by auto
next
  fix s h a x y d
  assume "mem_inv C s" "mem_knows C s h a x y"
  then show "\<exists>sig s'. mem_SignASN1 C h a d s = (Ok sig, s') \<and> ecdsaVerify C x y d sig"
    by (rule mem_SignASN1_known)
next
  fix s h r s'
  assume "mem_DeriveCredRandom h s = (Ok r, s')"
  then show "length r = 32" by (auto simp: mem_DeriveCredRandom_def)
next
  fix s a p s'
  assume "mem_inv C s" "mem_RegisterKey C a s = (p, s')"
  then show "mem_inv C s' \<and> (\<forall>h b x y. mem_knows C s h b x y \<longrightarrow> mem_knows C s' h b x y) \<and> \<not> is_panic p"
    using mem_RegisterKey_ok [of C s a] mem_knows_cong [of s s' C] by auto
next
  fix s g a d q s'
  assume "mem_inv C s" "mem_SignASN1 C g a d s = (q, s')"
  then show "mem_inv C s' \<and> (\<forall>h b x y. mem_knows C s h b x y \<longrightarrow> mem_knows C s' h b x y) \<and> \<not> is_panic q"
    using mem_SignASN1_inv mem_SignASN1_state mem_knows_cong [of s s' C] by metis
next
  fix s n s'
  assume "mem_inv C s" "mem_Counter s = (n, s')"
  then show "mem_inv C s' \<and> (\<forall>h b x y. mem_knows C s h b x y \<longrightarrow> mem_knows C s' h b x y)"
    by (auto simp: mem_Counter_def Let_def mem_inv_def mem_knows_def)
next
  fix s g q s'
  assume "mem_inv C s" "mem_DeriveCredRandom g s = (q, s')"
  then show "mem_inv C s' \<and> (\<forall>h b x y. mem_knows C s h b x y \<longrightarrow> mem_knows C s' h b x y) \<and> \<not> is_panic q"
    by (auto simp: mem_DeriveCredRandom_def)
qed

text \<open>The master key never changes, so neither does the secret of a credential.\<close>

lemma mem_after_key: "masterPrivateKey (signer_after (mem_signer C) cs m) = masterPrivateKey m"
proof (induction "mem_signer C" cs m rule: signer_after.induct)
  case (2 a cs s)
  have "masterPrivateKey (snd (mem_RegisterKey C a s)) = masterPrivateKey s"
    by (auto simp: mem_RegisterKey_def Let_def split: option.splits sum.splits prod.splits res.splits)
  with 2 show ?case by (simp add: mem_signer_def)
next
  case (3 h a d cs s)
  have "masterPrivateKey (snd (mem_SignASN1 C h a d s)) = masterPrivateKey s"
    by (metis mem_SignASN1_state prod.collapse)
  with 3 show ?case by (simp add: mem_signer_def)
qed (simp_all add: mem_signer_def mem_Counter_def mem_DeriveCredRandom_def Let_def)

interpretation mem: stable_secret "mem_signer C" "mem_inv C" "mem_knows C" "ecdsaVerify C"
  "\<lambda>m h. Ok (hmac_sha256 (masterPrivateKey m) h)" for C
proof (unfold_locales, unfold mem_signer_def Signer.simps)
  fix s h q s'
  assume "mem_DeriveCredRandom h s = (q, s')"
  then show "q = Ok (hmac_sha256 (masterPrivateKey s) h) \<and>
      (\<lambda>h. Ok (hmac_sha256 (masterPrivateKey s') h)) = (\<lambda>h. Ok (hmac_sha256 (masterPrivateKey s) h))"
    by (auto simp: mem_DeriveCredRandom_def)
next
  fix s a p s'
  assume "mem_inv C s" "mem_RegisterKey C a s = (p, s')"
  then show "(\<lambda>h. Ok (hmac_sha256 (masterPrivateKey s') h)) = (\<lambda>h. Ok (hmac_sha256 (masterPrivateKey s) h))"
    using mem_RegisterKey_ok [of C s a] by auto
next
  fix s g a d q s'
  assume "mem_SignASN1 C g a d s = (q, s')"
  from mem_SignASN1_state [OF this]
  show "(\<lambda>h. Ok (hmac_sha256 (masterPrivateKey s') h)) = (\<lambda>h. Ok (hmac_sha256 (masterPrivateKey s) h))" by simp
next
  fix s n s'
  assume "mem_Counter s = (n, s')"
  then show "(\<lambda>h. Ok (hmac_sha256 (masterPrivateKey s') h)) = (\<lambda>h. Ok (hmac_sha256 (masterPrivateKey s) h))"
    by (auto simp: mem_Counter_def Let_def)
qed

section \<open>Properties\<close>

text \<open>
  A concrete cryptography on which the hypotheses hold: the public key of \<open>d\<close> is \<open>(d, d)\<close>, and
  sealing appends sixteen zero bytes.
\<close>

definition crypto0 :: Crypto where
  "crypto0 =
     \<lparr>ecGenerateKey = (\<lambda>r. (Inr (be_fixed 32 7, 7, 7), r)),
      ecScalarBaseMult = (\<lambda>d. (d, d)),
      ecScalarMult = (\<lambda>k x y. (k * x, k * y)),
      ecdsaSignASN1 = (\<lambda>d digest r. (Inr (be_fixed 32 d @ digest), r)),
      ecdsaVerify = (\<lambda>x y digest sig. sig = be_fixed 32 x @ digest),
      aeadSeal = (\<lambda>k n p ad. p @ replicate 16 0),
      aeadOpen = (\<lambda>k n c ad.
        if length c < 16 then Inl (ErrMsg ''chacha20poly1305: message authentication failed'')
        else Inr (take (length c - 16) c))\<rparr>"

definition rng0 :: Rng where
  "rng0 = \<lparr>rng_byte = of_nat, rng_pos = 0, rng_fail = (\<lambda>_. False)\<rparr>"

lemma rng0_good: "rng_good rng0"
  by (simp add: rng_good_def rng0_def)

lemma be_nat_32: "n < p256_order \<Longrightarrow> be_nat (be_fixed 32 n) = n"
  by (simp add: be_nat_be_fixed p256_order_def)

lemma crypto0_ok: "crypto_ok crypto0"
  by (auto simp: crypto_ok_def aead_ok_def ec_ok_def crypto0_def be_nat_be_fixed p256_order_def)

definition mem0 :: Mem where
  "mem0 = \<lparr>masterPrivateKey = replicate 32 1, signCounter = 0, mem_rng = rng0\<rparr>"

lemma mem0_inv: "mem_inv crypto0 mem0"
  by (simp add: mem_inv_def mem0_def crypto0_ok rng0_good KeySize_def)

lemma signer_after_counters:
  "signer_after (mem_signer C) (replicate n CallCounter) m = m\<lparr>signCounter := signCounter m + of_nat n\<rparr>"
  by (induction n arbitrary: m) (simp_all add: mem_signer_def mem_Counter_def Let_def algebra_simps)

text \<open>
  A key registered with the memory backend can be signed with at any later time: after any
  sequence of further calls on the backend, successful or not, \<^verbatim>\<open>SignASN1\<close> with the returned
  handle and the same application parameter succeeds and the signature verifies under the returned
  public key. Registration itself succeeds and its handle is 72 bytes, so the 255-byte panic
  is never reached.
\<close>

theorem mem_sign_later:
  assumes "mem_inv C m"
  shows "\<exists>h x y m'. mem_RegisterKey C a m = (Ok (h, x, y), m') \<and> length h = 72 \<and>
    (\<exists>sig m2. mem_SignASN1 C h a d (signer_after (mem_signer C) cs m') = (Ok sig, m2) \<and>
       ecdsaVerify C x y d sig)"
proof -
  from mem_RegisterKey_ok [OF assms] obtain h x y m' where
    r: "mem_RegisterKey C a m = (Ok (h, x, y), m')" and h: "length h = 72" by blast
  then have "RegisterKey (mem_signer C) a m = (Ok (h, x, y), m')" by (simp add: mem_signer_def)
  from mem.register_known_later [OF assms this, of cs] mem_SignASN1_known r h show ?thesis
    by blast
qed

lemma mem_sign_later_witness:
  "\<exists>h x y m'. mem_RegisterKey crypto0 [1] mem0 = (Ok (h, x, y), m') \<and> length h = 72 \<and>
    (\<exists>sig m2. mem_SignASN1 crypto0 h [1] [9]
        (signer_after (mem_signer crypto0) [CallRegister [2], CallCounter, CallSign [] [] []] m') = (Ok sig, m2) \<and>
       ecdsaVerify crypto0 x y [9] sig)"
  by (rule mem_sign_later [OF mem0_inv])

text \<open>
  The secret behind \<^verbatim>\<open>hmac-secret\<close> and PRF is a function of the master key and the credential
  ID alone: whatever calls are made on the memory backend, \<^verbatim>\<open>DeriveCredRandom\<close> of a credential
  returns the same 32 bytes, HMAC-SHA-256 of the credential ID under the master key, and
  changes nothing.
\<close>

theorem mem_cred_random_stable:
  "mem_DeriveCredRandom h (signer_after (mem_signer C) cs m) =
     (Ok (hmac_sha256 (masterPrivateKey m) h), signer_after (mem_signer C) cs m) \<and>
   length (hmac_sha256 (masterPrivateKey m) h) = 32"
  by (simp add: mem_DeriveCredRandom_def mem_after_key)

text \<open>
  The signature counter of the memory backend: the \<open>n\<close>-th call after creation returns
  \<open>n mod 2 ^ 32\<close>, so each of the first \<open>2 ^ 32 - 1\<close> values is larger than all before it, and the
  next one wraps to 0 (\<^verbatim>\<open>uint32\<close>).
\<close>

theorem mem_counter_values:
  assumes "mem_New r = Ok m"
  shows "unat (fst (mem_Counter (signer_after (mem_signer C) (replicate n CallCounter) m))) =
           Suc n mod 2 ^ 32"
proof -
  from assms have "signCounter m = 0"
    by (auto simp: mem_New_def split: prod.splits res.splits)
  then have "fst (mem_Counter (signer_after (mem_signer C) (replicate n CallCounter) m)) =
      (of_nat (Suc n) :: 32 word)"
    by (simp add: signer_after_counters mem_Counter_def Let_def)
  then show ?thesis by (simp only: unat_of_nat) simp
qed

lemma mem_counter_values_witness:
  "unat (fst (mem_Counter (signer_after (mem_signer crypto0) (replicate 2 CallCounter)
     \<lparr>masterPrivateKey = map of_nat [0..<32], signCounter = 0, mem_rng = rng0\<lparr>rng_pos := 32\<rparr>\<rparr>))) =
   Suc 2 mod 2 ^ 32"
  by (rule mem_counter_values [of rng0])
     (simp add: mem_New_def mustRand_def rand_read_def rng0_def KeySize_def)

text \<open>
  \<^verbatim>\<open>SignASN1\<close> of the memory backend refuses a handle it cannot open, and never signs with it: a handle
  shorter than the nonce and a handle whose sealed part does not authenticate are errors that
  leave the backend unchanged; only a failing signature function can make an opened handle err.
\<close>

theorem mem_sign_refuses:
  assumes "mem_inv C m"
  shows "(length h < 24 \<longrightarrow>
            mem_SignASN1 C h a d m =
              (Err (ErrMsg (''incorrect size for key handle: '' @ show_nat (length h) @ '' smaller than nonce)'')), m)) \<and>
         (\<forall>e. 24 \<le> length h \<longrightarrow>
            aeadOpen C (masterPrivateKey m) (take 24 h) (drop 24 h)
              (sha256 (str_bytes ''fido_wrapping_key'' @ a)) = Inl e \<longrightarrow>
            mem_SignASN1 C h a d m = (Err (Wrapped ''open child private key err: '' e), m))"
proof -
  from assms have "NewX (masterPrivateKey m) = None" by (simp add: mem_inv_def NewX_def)
  then show ?thesis
    by (simp add: mem_SignASN1_def NonceSizeX_def wrap_metadata_def Let_def)
qed

lemma mem_sign_refuses_witness:
  "mem_SignASN1 crypto0 (replicate 30 0) [1] [] mem0 =
     (Err (Wrapped ''open child private key err: ''
        (ErrMsg ''chacha20poly1305: message authentication failed'')), mem0)"
  using mem_sign_refuses [OF mem0_inv, of "replicate 30 0" "[1]" "[]"]
  by (simp add: crypto0_def)

end
