(* ===== verification/Storage.thy ===== *)
theory Storage
  imports Prelude
begin

text \<open>
  \<^verbatim>\<open>ctap2/storage.go\<close>: the store of resident credentials, a slice with two in-memory indexes
  that is rewritten to a JSON file after every change. The file system is an explicit state whose
  calls can fail at any point; the JSON codec of the credential list is the argument \<open>J\<close>. Each
  method runs under the store's mutex, so each is one atomic operation here. The stored pointers
  are never written through after they are stored, so the credentials are values.
\<close>

section \<open>File system\<close>

text \<open>
  Every call consumes one entry of the fault script: \<open>OpenFail\<close> fails before anything happens,
  \<open>WriteFail k\<close> after \<open>k\<close> bytes of a write reached the file. An empty script means no faults.
\<close>

datatype fault = NoFault | OpenFail | WriteFail nat

record FS =
  files :: "string \<Rightarrow> bytes option"
  faults :: "fault list"

definition next_fault :: "FS \<Rightarrow> fault \<times> FS" where
  "next_fault fs =
     (case faults fs of [] \<Rightarrow> (NoFault, fs) | f # fx \<Rightarrow> (f, fs\<lparr>faults := fx\<rparr>))"

definition os_err :: "string \<Rightarrow> gerr" where
  "os_err call = ErrMsg call"

text \<open>Directories are not part of the model: creating one only can fail.\<close>

definition MkdirAll :: "FS \<Rightarrow> gerr option \<times> FS" where
  "MkdirAll fs =
     (case next_fault fs of
        (NoFault, fs1) \<Rightarrow> (None, fs1)
      | (_, fs1) \<Rightarrow> (Some (os_err ''mkdir''), fs1))"

definition Stat :: "string \<Rightarrow> FS \<Rightarrow> gerr option \<times> FS" where
  "Stat path fs =
     (case next_fault fs of
        (NoFault, fs1) \<Rightarrow> ((if files fs1 path = None then Some (os_err ''stat'') else None), fs1)
      | (_, fs1) \<Rightarrow> (Some (os_err ''stat''), fs1))"

definition ReadFile :: "string \<Rightarrow> FS \<Rightarrow> (gerr + bytes) \<times> FS" where
  "ReadFile path fs =
     (case next_fault fs of
        (NoFault, fs1) \<Rightarrow>
          (case files fs1 path of None \<Rightarrow> (Inl (os_err ''open''), fs1) | Some d \<Rightarrow> (Inr d, fs1))
      | (_, fs1) \<Rightarrow> (Inl (os_err ''read''), fs1))"

definition WriteFile :: "string \<Rightarrow> bytes \<Rightarrow> FS \<Rightarrow> gerr option \<times> FS" where
  "WriteFile path data fs =
     (case next_fault fs of
        (NoFault, fs1) \<Rightarrow> (None, fs1\<lparr>files := (files fs1)(path := Some data)\<rparr>)
      | (OpenFail, fs1) \<Rightarrow> (Some (os_err ''open''), fs1)
      | (WriteFail k, fs1) \<Rightarrow>
          (Some (os_err ''write''), fs1\<lparr>files := (files fs1)(path := Some (take k data))\<rparr>))"

definition Rename :: "string \<Rightarrow> string \<Rightarrow> FS \<Rightarrow> gerr option \<times> FS" where
  "Rename old new fs =
     (case next_fault fs of
        (NoFault, fs1) \<Rightarrow>
          (case files fs1 old of
             None \<Rightarrow> (Some (os_err ''rename''), fs1)
           | Some d \<Rightarrow> (None, fs1\<lparr>files := (files fs1)(old := None, new := Some d)\<rparr>))
      | (_, fs1) \<Rightarrow> (Some (os_err ''rename''), fs1))"

section \<open>The store\<close>

record CredentialMetadata =
  cm_RPID :: string
  cm_RPName :: string
  cm_UserID :: bytes
  cm_UserName :: string
  cm_UserDisplayName :: string
  cm_CredentialID :: bytes
  cm_PublicKeyX :: bytes
  cm_PublicKeyY :: bytes
  cm_CreatedAt :: int

record CredentialStorage =
  filePath :: string
  credentials :: "CredentialMetadata list"
  byRPID :: "string \<Rightarrow> CredentialMetadata list option"
  byCredentialID :: "bytes \<Rightarrow> CredentialMetadata option"

text \<open>
  \<^verbatim>\<open>json.MarshalIndent\<close> of the credentials and \<^verbatim>\<open>json.Unmarshal\<close> into a slice of pointers: a JSON
  \<^verbatim>\<open>null\<close> among the elements becomes a nil pointer, \<open>None\<close>.
\<close>

record JsonCodec =
  js_marshal :: "CredentialMetadata list \<Rightarrow> gerr + bytes"
  js_unmarshal :: "bytes \<Rightarrow> gerr + CredentialMetadata option list"

definition index_one ::
  "CredentialMetadata \<Rightarrow> (string \<Rightarrow> CredentialMetadata list option) \<times> (bytes \<Rightarrow> CredentialMetadata option)
   \<Rightarrow> (string \<Rightarrow> CredentialMetadata list option) \<times> (bytes \<Rightarrow> CredentialMetadata option)" where
  "index_one cred ix =
     (case ix of (r, c) \<Rightarrow>
        (r(cm_RPID cred \<mapsto> (case r (cm_RPID cred) of None \<Rightarrow> [cred] | Some l \<Rightarrow> l @ [cred])),
         c(cm_CredentialID cred \<mapsto> cred)))"

definition rebuildIndexes :: "CredentialStorage \<Rightarrow> CredentialStorage" where
  "rebuildIndexes cs =
     (case fold index_one (credentials cs) (Map.empty, Map.empty) of
        (r, c) \<Rightarrow> cs\<lparr>byRPID := r, byCredentialID := c\<rparr>)"

text \<open>\<^verbatim>\<open>load\<close>: a nil element makes \<^verbatim>\<open>rebuildIndexes\<close> dereference a nil pointer.\<close>

definition load :: "JsonCodec \<Rightarrow> CredentialStorage \<Rightarrow> FS \<Rightarrow> (unit res \<times> CredentialStorage) \<times> FS" where
  "load J cs fs =
     (case ReadFile (filePath cs) fs of
        (Inl e, fs1) \<Rightarrow> ((Err e, cs), fs1)
      | (Inr data, fs1) \<Rightarrow>
          (case js_unmarshal J data of
             Inl e \<Rightarrow> ((Err e, cs), fs1)
           | Inr l \<Rightarrow>
               if None \<in> set l then ((Panic ''nil pointer dereference'', cs), fs1)
               else ((Ok (), rebuildIndexes (cs\<lparr>credentials := map the l\<rparr>)), fs1)))"

definition tmp_path :: "string \<Rightarrow> string" where
  "tmp_path p = p @ ''.tmp''"

definition save :: "JsonCodec \<Rightarrow> CredentialStorage \<Rightarrow> FS \<Rightarrow> gerr option \<times> FS" where
  "save J cs fs =
     (case js_marshal J (credentials cs) of
        Inl e \<Rightarrow> (Some e, fs)
      | Inr data \<Rightarrow>
          (case WriteFile (tmp_path (filePath cs)) data fs of
             (Some e, fs1) \<Rightarrow> (Some e, fs1)
           | (None, fs1) \<Rightarrow> Rename (tmp_path (filePath cs)) (filePath cs) fs1))"

definition empty_storage :: "string \<Rightarrow> CredentialStorage" where
  "empty_storage path =
     \<lparr>filePath = path, credentials = [], byRPID = Map.empty, byCredentialID = Map.empty\<rparr>"

definition NewCredentialStorage :: "JsonCodec \<Rightarrow> string \<Rightarrow> FS \<Rightarrow> CredentialStorage res \<times> FS" where
  "NewCredentialStorage J path fs =
     (let cs = empty_storage path in
      case MkdirAll fs of
        (Some e, fs1) \<Rightarrow> (Err e, fs1)
      | (None, fs1) \<Rightarrow>
          (case Stat path fs1 of
             (Some _, fs2) \<Rightarrow> (Ok cs, fs2)
           | (None, fs2) \<Rightarrow>
               (case load J cs fs2 of
                  ((Panic m, _), fs3) \<Rightarrow> (Panic m, fs3)
                | ((Err _, cs1), fs3) \<Rightarrow> (Ok cs1, fs3)
                | ((Ok _, cs1), fs3) \<Rightarrow> (Ok cs1, fs3))))"

text \<open>The loop of \<^verbatim>\<open>Save\<close>: replace the first entry of the same RP and user, else append.\<close>

definition same_user :: "CredentialMetadata \<Rightarrow> CredentialMetadata \<Rightarrow> bool" where
  "same_user existing cred \<longleftrightarrow>
     cm_RPID existing = cm_RPID cred \<and> cm_UserID existing = cm_UserID cred"

fun replace_or_append :: "CredentialMetadata \<Rightarrow> CredentialMetadata list \<Rightarrow> CredentialMetadata list" where
  "replace_or_append cred [] = [cred]"
| "replace_or_append cred (existing # rest) =
     (if same_user existing cred then cred # rest
      else existing # replace_or_append cred rest)"

definition Save ::
  "JsonCodec \<Rightarrow> CredentialMetadata \<Rightarrow> CredentialStorage \<Rightarrow> FS \<Rightarrow> gerr option \<times> CredentialStorage \<times> FS" where
  "Save J cred cs fs =
     (let cs1 = rebuildIndexes (cs\<lparr>credentials := replace_or_append cred (credentials cs)\<rparr>) in
      case save J cs1 fs of (e, fs1) \<Rightarrow> (e, cs1, fs1))"

definition GetByRPID :: "CredentialStorage \<Rightarrow> string \<Rightarrow> CredentialMetadata list" where
  "GetByRPID cs rpId = (case byRPID cs rpId of None \<Rightarrow> [] | Some creds \<Rightarrow> creds)"

definition GetByCredentialID :: "CredentialStorage \<Rightarrow> bytes \<Rightarrow> CredentialMetadata option" where
  "GetByCredentialID cs credId = byCredentialID cs credId"

definition Delete ::
  "JsonCodec \<Rightarrow> bytes \<Rightarrow> CredentialStorage \<Rightarrow> FS \<Rightarrow> gerr option \<times> CredentialStorage \<times> FS" where
  "Delete J credId cs fs =
     (if byCredentialID cs credId = None then (None, cs, fs)
      else
        let newCreds = filter (\<lambda>cred. cm_CredentialID cred \<noteq> credId) (credentials cs);
            cs1 = rebuildIndexes (cs\<lparr>credentials := newCreds\<rparr>)
        in case save J cs1 fs of (e, fs1) \<Rightarrow> (e, cs1, fs1))"

definition Count :: "CredentialStorage \<Rightarrow> nat" where
  "Count cs = length (credentials cs)"

definition GetAll :: "CredentialStorage \<Rightarrow> CredentialMetadata list" where
  "GetAll cs = credentials cs"

section \<open>Indexes and invariant\<close>

definition user_key :: "CredentialMetadata \<Rightarrow> string \<times> bytes" where
  "user_key c = (cm_RPID c, cm_UserID c)"

definition index_ok :: "CredentialStorage \<Rightarrow> bool" where
  "index_ok cs \<longleftrightarrow>
     (\<forall>rp. GetByRPID cs rp = filter (\<lambda>c. cm_RPID c = rp) (credentials cs)) \<and>
     (\<forall>i. GetByCredentialID cs i = find (\<lambda>c. cm_CredentialID c = i) (rev (credentials cs)))"

definition store_ok :: "CredentialStorage \<Rightarrow> bool" where
  "store_ok cs \<longleftrightarrow> index_ok cs \<and> distinct (map user_key (credentials cs))"

definition store_abs :: "CredentialStorage \<Rightarrow> string \<times> bytes \<Rightarrow> CredentialMetadata option" where
  "store_abs cs = map_of (map (\<lambda>c. (user_key c, c)) (credentials cs))"

lemma same_user_key: "same_user a b \<longleftrightarrow> user_key a = user_key b"
  by (simp add: same_user_def user_key_def)

definition rp_list :: "(string \<Rightarrow> CredentialMetadata list option) \<Rightarrow> string \<Rightarrow> CredentialMetadata list" where
  "rp_list r rp = (case r rp of None \<Rightarrow> [] | Some l \<Rightarrow> l)"

lemma find_append: "find P (xs @ ys) = (case find P xs of None \<Rightarrow> find P ys | Some x \<Rightarrow> Some x)"
  by (induction xs) auto

lemma fold_index_one:
  "fold index_one l (r, c) = (r', c') \<Longrightarrow>
   rp_list r' rp = rp_list r rp @ filter (\<lambda>x. cm_RPID x = rp) l \<and>
   c' i = (case find (\<lambda>x. cm_CredentialID x = i) (rev l) of None \<Rightarrow> c i | Some x \<Rightarrow> Some x)"
proof (induction l arbitrary: r c)
  case (Cons a l)
  let ?r = "r(cm_RPID a \<mapsto> (case r (cm_RPID a) of None \<Rightarrow> [a] | Some l \<Rightarrow> l @ [a]))"
  let ?c = "c(cm_CredentialID a \<mapsto> a)"
  have "fold index_one l (?r, ?c) = (r', c')"
    using Cons.prems by (simp add: index_one_def [of a "(r, c)"])
  from Cons.IH [OF this] show ?case
    by (auto simp: rp_list_def find_append split: option.splits)
qed (simp add: rp_list_def)

lemma rebuildIndexes_simps [simp]:
  "credentials (rebuildIndexes cs) = credentials cs"
  "filePath (rebuildIndexes cs) = filePath cs"
  by (simp_all add: rebuildIndexes_def split: prod.splits)

lemma rebuildIndexes_ok: "index_ok (rebuildIndexes cs)"
proof -
  obtain r c where f: "fold index_one (credentials cs) (Map.empty, Map.empty) = (r, c)"
    by fastforce
  have "rp_list r rp = filter (\<lambda>x. cm_RPID x = rp) (credentials cs)"
    and "c i = find (\<lambda>x. cm_CredentialID x = i) (rev (credentials cs))" for rp i
    using fold_index_one [OF f, of rp i] by (auto simp: rp_list_def split: option.splits)
  then show ?thesis
    by (simp add: index_ok_def rebuildIndexes_def f GetByRPID_def GetByCredentialID_def rp_list_def)
qed

lemma empty_storage_ok: "store_ok (empty_storage p)"
  by (simp add: store_ok_def index_ok_def empty_storage_def GetByRPID_def GetByCredentialID_def)

section \<open>What the operations do\<close>

lemma map_of_replace:
  "map_of (map (\<lambda>c. (user_key c, c)) (replace_or_append cred l)) =
   (map_of (map (\<lambda>c. (user_key c, c)) l))(user_key cred \<mapsto> cred)"
  by (induction l) (auto simp: same_user_key)

lemma keys_replace:
  "set (map user_key (replace_or_append cred l)) = insert (user_key cred) (set (map user_key l))"
  by (induction l) (auto simp: same_user_key)

lemma distinct_replace:
  "distinct (map user_key l) \<Longrightarrow> distinct (map user_key (replace_or_append cred l))"
proof (induction l)
  case (Cons a l)
  then show ?case using keys_replace [of cred l] by (auto simp: same_user_key)
qed simp

lemma replace_in: "cred \<in> set (replace_or_append cred l)"
  by (induction l) auto

lemma filter_replace:
  "filter (\<lambda>c. cm_RPID c = rp) (replace_or_append cred l) =
   (if cm_RPID cred = rp then replace_or_append cred (filter (\<lambda>c. cm_RPID c = rp) l)
    else filter (\<lambda>c. cm_RPID c = rp) l)"
  by (induction l) (auto simp: same_user_def)

lemma replace_twice: "replace_or_append cred (replace_or_append cred l) = replace_or_append cred l"
  by (induction l) (auto simp: same_user_def)

lemma Save_state:
  "Save J cred cs fs = (e, cs', fs') \<Longrightarrow>
   credentials cs' = replace_or_append cred (credentials cs) \<and> index_ok cs' \<and> filePath cs' = filePath cs"
  by (auto simp: Save_def Let_def rebuildIndexes_ok split: prod.splits)

lemma find_rev_None: "find P (rev l) = None \<longleftrightarrow> (\<forall>x \<in> set l. \<not> P x)"
  by (auto simp: find_None_iff)

lemma Delete_state:
  assumes "index_ok cs" "Delete J i cs fs = (e, cs', fs')"
  shows "credentials cs' = filter (\<lambda>c. cm_CredentialID c \<noteq> i) (credentials cs) \<and> index_ok cs' \<and>
    filePath cs' = filePath cs"
proof (cases "byCredentialID cs i = None")
  case True
  with assms(1) have "\<forall>c \<in> set (credentials cs). cm_CredentialID c \<noteq> i"
    by (simp add: index_ok_def GetByCredentialID_def find_rev_None)
  with True assms show ?thesis by (simp add: Delete_def)
next
  case False
  with assms(2) show ?thesis
    by (auto simp: Delete_def Let_def rebuildIndexes_ok split: prod.splits)
qed

lemma Save_ok: "store_ok cs \<Longrightarrow> Save J cred cs fs = (e, cs', fs') \<Longrightarrow> store_ok cs'"
  by (auto simp: store_ok_def distinct_replace dest!: Save_state)

lemma Delete_ok: "store_ok cs \<Longrightarrow> Delete J i cs fs = (e, cs', fs') \<Longrightarrow> store_ok cs'"
  using Delete_state [of cs J i fs e cs' fs']
  by (auto simp: store_ok_def intro: distinct_map_filter)

section \<open>The interface the authenticator relies on\<close>

text \<open>
  A store of credentials: whatever the file system answers, saving replaces or adds the entry of
  that user, leaves every other relying party alone and keeps at most one entry per user;
  deleting removes exactly the entries with that credential id; lookups by id and by relying
  party agree.
\<close>

locale credential_store =
  fixes ok :: "'st \<Rightarrow> bool"
    and save_op :: "CredentialMetadata \<Rightarrow> 'st \<Rightarrow> 'fs \<Rightarrow> gerr option \<times> 'st \<times> 'fs"
    and delete_op :: "bytes \<Rightarrow> 'st \<Rightarrow> 'fs \<Rightarrow> gerr option \<times> 'st \<times> 'fs"
    and by_rp :: "'st \<Rightarrow> string \<Rightarrow> CredentialMetadata list"
    and by_id :: "'st \<Rightarrow> bytes \<Rightarrow> CredentialMetadata option"
  assumes save_keeps: "ok st \<Longrightarrow> save_op c st fs = (e, st', fs') \<Longrightarrow> ok st'"
    and delete_keeps: "ok st \<Longrightarrow> delete_op i st fs = (e, st', fs') \<Longrightarrow> ok st'"
    and save_by_rp: "ok st \<Longrightarrow> save_op c st fs = (e, st', fs') \<Longrightarrow>
      by_rp st' rp = (if cm_RPID c = rp then replace_or_append c (by_rp st rp) else by_rp st rp)"
    and delete_by_rp: "ok st \<Longrightarrow> delete_op i st fs = (e, st', fs') \<Longrightarrow>
      by_rp st' rp = filter (\<lambda>c. cm_CredentialID c \<noteq> i) (by_rp st rp)"
    and by_rp_rp: "ok st \<Longrightarrow> c \<in> set (by_rp st rp) \<Longrightarrow> cm_RPID c = rp"
    and by_rp_users: "ok st \<Longrightarrow> distinct (map cm_UserID (by_rp st rp))"
    and by_id_Some: "ok st \<Longrightarrow> by_id st i = Some c \<Longrightarrow>
      cm_CredentialID c = i \<and> c \<in> set (by_rp st (cm_RPID c))"
    and by_id_None: "ok st \<Longrightarrow> by_id st i = None \<longleftrightarrow> (\<forall>rp. \<forall>c \<in> set (by_rp st rp). cm_CredentialID c \<noteq> i)"
begin

lemma save_found: "ok st \<Longrightarrow> save_op c st fs = (e, st', fs') \<Longrightarrow> c \<in> set (by_rp st' (cm_RPID c))"
  by (simp add: save_by_rp replace_in)

lemma save_other_rp:
  "ok st \<Longrightarrow> save_op c st fs = (e, st', fs') \<Longrightarrow> rp \<noteq> cm_RPID c \<Longrightarrow> by_rp st' rp = by_rp st rp"
  by (simp add: save_by_rp)

lemma save_replaces:
  assumes "ok st" "save_op c st fs = (e, st', fs')" "d \<in> set (by_rp st' (cm_RPID c))"
    "cm_UserID d = cm_UserID c"
  shows "d = c"
proof -
  have "ok st'" by (rule save_keeps [OF assms(1,2)])
  then have "inj_on cm_UserID (set (by_rp st' (cm_RPID c)))"
    using by_rp_users by (simp add: distinct_map)
  then show ?thesis using assms(3,4) save_found [OF assms(1,2)] by (simp add: inj_on_def)
qed

lemma save_again:
  "ok st \<Longrightarrow> save_op c st fs = (e, st', fs') \<Longrightarrow> save_op c st' fs' = (e2, st2, fs2) \<Longrightarrow>
   by_rp st2 rp = by_rp st' rp"
  by (simp add: save_by_rp [OF save_keeps] save_by_rp replace_twice)

lemma save_by_id:
  assumes "ok st" "save_op c st fs = (e, st', fs')"
  shows "by_id st' (cm_CredentialID c) \<noteq> None"
  using by_id_None [OF save_keeps [OF assms], of "cm_CredentialID c"] save_found [OF assms] by blast

lemma delete_gone:
  assumes "ok st" "delete_op i st fs = (e, st', fs')"
  shows "by_id st' i = None \<and> (\<forall>rp. \<forall>c \<in> set (by_rp st' rp). cm_CredentialID c \<noteq> i)"
  using by_id_None [OF delete_keeps [OF assms], of i] delete_by_rp [OF assms] by auto

lemma delete_keeps_others:
  "ok st \<Longrightarrow> delete_op i st fs = (e, st', fs') \<Longrightarrow> c \<in> set (by_rp st rp) \<Longrightarrow> cm_CredentialID c \<noteq> i \<Longrightarrow>
   c \<in> set (by_rp st' rp)"
  by (simp add: delete_by_rp)

end

lemma GetByRPID_filter: "index_ok cs \<Longrightarrow> GetByRPID cs rp = filter (\<lambda>c. cm_RPID c = rp) (credentials cs)"
  by (simp add: index_ok_def)

interpretation cred_store: credential_store store_ok "Save J" "Delete J" GetByRPID GetByCredentialID
  for J :: JsonCodec
proof unfold_locales
  fix c st fs e st' fs'
  assume *: "store_ok st" "Save J c st fs = (e, st', fs')"
  show "store_ok st'" by (rule Save_ok [OF *])
  show "GetByRPID st' rp = (if cm_RPID c = rp then replace_or_append c (GetByRPID st rp) else GetByRPID st rp)" for rp
    using Save_state [OF *(2)] *(1) by (simp add: GetByRPID_filter filter_replace store_ok_def)
next
  fix i st fs e st' fs'
  assume *: "store_ok st" "Delete J i st fs = (e, st', fs')"
  show "store_ok st'" by (rule Delete_ok [OF *])
  show "GetByRPID st' rp = filter (\<lambda>c. cm_CredentialID c \<noteq> i) (GetByRPID st rp)" for rp
    using Delete_state [OF _ *(2)] *(1)
    by (simp add: GetByRPID_filter store_ok_def conj_commute)
next
  fix st c rp assume "store_ok st" "c \<in> set (GetByRPID st rp)"
  then show "cm_RPID c = rp" by (simp add: GetByRPID_filter store_ok_def)
next
  fix st rp assume st: "store_ok st"
  then have "inj_on user_key (set (credentials st))" and "distinct (credentials st)"
    by (simp_all add: store_ok_def distinct_map)
  then show "distinct (map cm_UserID (GetByRPID st rp))"
    using st by (auto simp: GetByRPID_filter store_ok_def distinct_map inj_on_def user_key_def)
next
  fix st i c assume "store_ok st" "GetByCredentialID st i = Some c"
  then show "cm_CredentialID c = i \<and> c \<in> set (GetByRPID st (cm_RPID c))"
    by (auto simp: store_ok_def index_ok_def find_Some_iff rev_nth)
next
  fix st i assume "store_ok st"
  then show "GetByCredentialID st i = None \<longleftrightarrow> (\<forall>rp. \<forall>c\<in>set (GetByRPID st rp). cm_CredentialID c \<noteq> i)"
    by (auto simp: store_ok_def index_ok_def find_rev_None)
qed

section \<open>Files\<close>

lemma tmp_path_neq [simp]: "tmp_path p \<noteq> p" "p \<noteq> tmp_path p"
  by (simp_all add: tmp_path_def)

lemma next_fault_files [simp]: "files (snd (next_fault fs)) = files fs"
  by (simp add: next_fault_def split: list.splits)

lemma next_fault_pair: "next_fault fs = (f, fs1) \<Longrightarrow> files fs1 = files fs"
  by (metis next_fault_files snd_conv)

lemma next_fault_none [simp]: "faults fs = [] \<Longrightarrow> next_fault fs = (NoFault, fs)"
  by (simp add: next_fault_def)

text \<open>The target file changes only by the final rename, and then to the full encoding.\<close>

lemma save_file:
  assumes "save J cs fs = (e, fs')"
  shows "(e = None \<longrightarrow> (\<exists>data. js_marshal J (credentials cs) = Inr data \<and>
            files fs' (filePath cs) = Some data)) \<and>
         (e \<noteq> None \<longrightarrow> files fs' (filePath cs) = files fs (filePath cs))"
proof (cases "js_marshal J (credentials cs)")
  case (Inl er)
  with assms show ?thesis by (auto simp: save_def)
next
  case (Inr data)
  obtain e1 fs1 where W: "WriteFile (tmp_path (filePath cs)) data fs = (e1, fs1)" by fastforce
  have same: "files fs1 (filePath cs) = files fs (filePath cs)"
    and tmp: "e1 = None \<longrightarrow> files fs1 (tmp_path (filePath cs)) = Some data"
    using W by (auto simp: WriteFile_def dest!: next_fault_pair split: prod.splits fault.splits)
  show ?thesis
  proof (cases e1)
    case None
    with assms Inr W have R: "Rename (tmp_path (filePath cs)) (filePath cs) fs1 = (e, fs')"
      by (simp add: save_def)
    obtain f fs2 where nf: "next_fault fs1 = (f, fs2)" by fastforce
    from next_fault_pair [OF nf] R nf same tmp None Inr show ?thesis
      by (auto simp: Rename_def split: fault.splits)
  next
    case (Some er)
    with assms Inr W same show ?thesis by (auto simp: save_def)
  qed
qed

lemma Save_save:
  "Save J cred cs fs = (e, cs', fs') \<Longrightarrow> save J cs' fs = (e, fs')"
  by (auto simp: Save_def Let_def split: prod.splits)

section \<open>Properties\<close>

datatype store_op = OpSave CredentialMetadata | OpDelete bytes

fun run_op :: "JsonCodec \<Rightarrow> store_op \<Rightarrow> CredentialStorage \<times> FS \<Rightarrow> CredentialStorage \<times> FS" where
  "run_op J (OpSave c) (cs, fs) = snd (Save J c cs fs)"
| "run_op J (OpDelete i) (cs, fs) = snd (Delete J i cs fs)"

fun abs_op :: "store_op \<Rightarrow> (string \<times> bytes \<Rightarrow> CredentialMetadata option) \<Rightarrow>
    (string \<times> bytes \<Rightarrow> CredentialMetadata option)" where
  "abs_op (OpSave c) m = m(user_key c \<mapsto> c)"
| "abs_op (OpDelete i) m =
     (\<lambda>k. case m k of None \<Rightarrow> None | Some c \<Rightarrow> if cm_CredentialID c = i then None else Some c)"

lemma map_of_keyed: "map_of (map (\<lambda>c. (f c, c)) l) k = find (\<lambda>c. f c = k) l"
  by (induction l) auto

lemma find_filter_distinct:
  "distinct (map f l) \<Longrightarrow>
   find (\<lambda>c. f c = k) (filter P l) =
   (case find (\<lambda>c. f c = k) l of None \<Rightarrow> None | Some c \<Rightarrow> if P c then Some c else None)"
proof (induction l)
  case (Cons a l)
  then have "find (\<lambda>c. f c = f a) l = None" by (fastforce simp: find_None_iff image_iff)
  with Cons show ?case by auto
qed simp

lemma run_op_refines:
  assumes "store_ok cs" "run_op J op (cs, fs) = (cs', fs')"
  shows "store_ok cs' \<and> store_abs cs' = abs_op op (store_abs cs)"
proof (cases op)
  case (OpSave c)
  obtain e where S: "Save J c cs fs = (e, cs', fs')"
    using assms(2) OpSave by (cases "Save J c cs fs") auto
  show ?thesis
    using Save_ok [OF assms(1) S] Save_state [OF S] OpSave by (simp add: store_abs_def map_of_replace)
next
  case (OpDelete i)
  obtain e where D: "Delete J i cs fs = (e, cs', fs')"
    using assms(2) OpDelete by (cases "Delete J i cs fs") auto
  show ?thesis
    using Delete_ok [OF assms(1) D] Delete_state [OF _ D] assms(1) OpDelete
    by (auto simp: store_abs_def store_ok_def map_of_keyed find_filter_distinct fun_eq_iff
        split: option.splits)
qed

text \<open>
  C8. The credential store refines a map from (RP id, user id) to credentials: after any sequence of
  saves and deletes, whichever of their file operations fail, the store is the map with the same
  updates applied in order, and its two indexes agree with its contents.
\<close>

theorem storage_refines_map:
  assumes "store_ok cs" and "fold (run_op J) ops (cs, fs) = (cs', fs')"
  shows "store_abs cs' = fold abs_op ops (store_abs cs) \<and>
    distinct (map user_key (GetAll cs')) \<and>
    (\<forall>rp. GetByRPID cs' rp = filter (\<lambda>c. cm_RPID c = rp) (GetAll cs')) \<and>
    (\<forall>i. GetByCredentialID cs' i = find (\<lambda>c. cm_CredentialID c = i) (rev (GetAll cs')))"
proof -
  from assms have "store_ok cs' \<and> store_abs cs' = fold abs_op ops (store_abs cs)"
  proof (induction ops arbitrary: cs fs)
    case (Cons op ops)
    obtain cs1 fs1 where r: "run_op J op (cs, fs) = (cs1, fs1)" by fastforce
    from run_op_refines [OF Cons.prems(1) r] Cons.IH [of cs1 fs1] Cons.prems r
    show ?case by simp
  qed simp
  then show ?thesis by (simp add: store_ok_def index_ok_def GetAll_def)
qed

definition cred0 :: CredentialMetadata where
  "cred0 = \<lparr>cm_RPID = ''a.org'', cm_RPName = ''A'', cm_UserID = [1], cm_UserName = ''u'',
     cm_UserDisplayName = ''U'', cm_CredentialID = [7], cm_PublicKeyX = [], cm_PublicKeyY = [],
     cm_CreatedAt = 0\<rparr>"

definition codec0 :: JsonCodec where
  "codec0 = \<lparr>js_marshal = (\<lambda>l. Inr (of_nat (length l) # concat (map cm_CredentialID l))),
     js_unmarshal = (\<lambda>b. if b = [1, 7] then Inr [Some cred0] else Inl (ErrMsg ''json''))\<rparr>"

theorem storage_refines_map_witness:
  "\<exists>cs' fs'. fold (run_op codec0) [OpSave cred0, OpDelete [7]]
     (empty_storage ''p'', \<lparr>files = Map.empty, faults = [OpenFail]\<rparr>) = (cs', fs') \<and>
   store_abs cs' = fold abs_op [OpSave cred0, OpDelete [7]] (store_abs (empty_storage ''p''))"
proof -
  let ?f = "fold (run_op codec0) [OpSave cred0, OpDelete [7]]
     (empty_storage ''p'', \<lparr>files = Map.empty, faults = [OpenFail]\<rparr>)"
  obtain cs' fs' where F: "?f = (cs', fs')" by fastforce
  from storage_refines_map [OF empty_storage_ok F] F show ?thesis by blast
qed

text \<open>What a \<^verbatim>\<open>Save\<close> leaves in the file.\<close>

lemma Save_file:
  assumes "Save J cred cs fs = (e, cs', fs')"
  shows "(e = None \<and> (\<exists>data. js_marshal J (credentials cs') = Inr data \<and>
             files fs' (filePath cs) = Some data)) \<or>
         (e \<noteq> None \<and> files fs' (filePath cs) = files fs (filePath cs))"
  using save_file [OF Save_save [OF assms]] Save_state [OF assms] by auto

lemma find_only:
  assumes "x \<in> set xs" "P x" "\<forall>y \<in> set xs. P y \<longrightarrow> y = x"
  shows "find P xs = Some x"
proof (cases "find P xs")
  case None
  with assms(1,2) show ?thesis unfolding find_None_iff by blast
next
  case (Some y)
  then have "y \<in> set xs \<and> P y" unfolding find_Some_iff by (metis nth_mem)
  with Some assms(3) show ?thesis by blast
qed

lemma replace_or_append_set: "set (replace_or_append c l) \<subseteq> insert c (set l)"
  by (induction l) auto

lemma Save_by_id:
  assumes "store_ok cs" "Save J cred cs fs = (e, cs', fs')" "\<forall>d \<in> set (GetAll cs). cm_CredentialID d \<noteq> cm_CredentialID cred"
  shows "GetByCredentialID cs' (cm_CredentialID cred) = Some cred"
proof -
  have i: "index_ok cs'" using cred_store.save_keeps [OF assms(1,2)] by (simp add: store_ok_def)
  have c: "credentials cs' = replace_or_append cred (credentials cs)" using Save_state [OF assms(2)] by simp
  have "cred \<in> set (credentials cs')" using cred_store.save_found [OF assms(1,2)] i by (simp add: index_ok_def)
  moreover have "\<forall>d \<in> set (credentials cs'). cm_CredentialID d = cm_CredentialID cred \<longrightarrow> d = cred"
    using replace_or_append_set [of cred "credentials cs"] assms(3) by (auto simp: c GetAll_def)
  ultimately show ?thesis using i by (simp add: index_ok_def find_only)
qed

text \<open>
  C26. The file is replaced atomically: whatever fails while saving, the credentials file holds
  either its old content, and then \<open>Save\<close> reports the error, or the complete encoding of the new
  list, and then \<open>Save\<close> reports success.
\<close>

theorem Save_atomic:
  assumes "Save J cred cs fs = (e, cs', fs')"
  shows "(e = None \<and> (\<exists>data. js_marshal J (credentials cs') = Inr data \<and>
             files fs' (filePath cs) = Some data)) \<or>
         (e \<noteq> None \<and> files fs' (filePath cs) = files fs (filePath cs))"
  by (rule Save_file [OF assms])

theorem Save_atomic_witness:
  "\<exists>e cs' fs'. Save codec0 cred0 (empty_storage ''p'') \<lparr>files = [''p'' \<mapsto> [5]], faults = [WriteFail 1]\<rparr>
     = (Some e, cs', fs') \<and> files fs' ''p'' = Some [5]"
proof -
  let ?fs = "\<lparr>files = [''p'' \<mapsto> [5]], faults = [WriteFail 1]\<rparr>"
  obtain e cs' fs' where S: "Save codec0 cred0 (empty_storage ''p'') ?fs = (e, cs', fs')"
    by (metis prod_cases3)
  moreover have "e \<noteq> None"
    using S by (auto simp: Save_def save_def codec0_def WriteFile_def next_fault_def
        rebuildIndexes_def empty_storage_def cred0_def index_one_def)
  ultimately show ?thesis using Save_atomic [OF S] by (auto simp: empty_storage_def)
qed

text \<open>
  C27. Persistence: after a successful \<open>Save\<close>, opening the store again from the file (the codec
  reading back what it wrote) gives the same credentials and the same lookups.
\<close>

theorem Save_then_reopen:
  assumes "store_ok cs" and "Save J cred cs fs = (None, cs', fs')"
    and "\<And>data. js_marshal J (credentials cs') = Inr data \<Longrightarrow>
           js_unmarshal J data = Inr (map Some (credentials cs'))"
  shows "\<exists>cs2 fs2. NewCredentialStorage J (filePath cs) (fs'\<lparr>faults := []\<rparr>) = (Ok cs2, fs2) \<and>
    GetAll cs2 = GetAll cs' \<and>
    (\<forall>rp. GetByRPID cs2 rp = GetByRPID cs' rp) \<and>
    (\<forall>i. GetByCredentialID cs2 i = GetByCredentialID cs' i)"
proof -
  from Save_file [OF assms(2)] obtain data where
    m: "js_marshal J (credentials cs') = Inr data" and f: "files fs' (filePath cs) = Some data" by auto
  let ?cs2 = "rebuildIndexes (empty_storage (filePath cs)\<lparr>credentials := credentials cs'\<rparr>)"
  have "NewCredentialStorage J (filePath cs) (fs'\<lparr>faults := []\<rparr>) = (Ok ?cs2, fs'\<lparr>faults := []\<rparr>)"
    using f assms(3) [OF m]
    by (simp add: NewCredentialStorage_def MkdirAll_def Stat_def load_def ReadFile_def
        empty_storage_def comp_def image_iff)
  moreover have "index_ok ?cs2" by (rule rebuildIndexes_ok)
  moreover have "index_ok cs'" using Save_state [OF assms(2)] by simp
  ultimately show ?thesis by (simp add: index_ok_def GetAll_def)
qed

theorem Save_then_reopen_witness:
  "\<exists>cs' fs' cs2 fs2. Save codec0 cred0 (empty_storage ''p'') \<lparr>files = Map.empty, faults = []\<rparr>
     = (None, cs', fs') \<and>
   NewCredentialStorage codec0 ''p'' (fs'\<lparr>faults := []\<rparr>) = (Ok cs2, fs2) \<and> GetAll cs2 = GetAll cs'"
proof -
  let ?fs = "\<lparr>files = Map.empty, faults = []\<rparr>"
  obtain e cs' fs' where S: "Save codec0 cred0 (empty_storage ''p'') ?fs = (e, cs', fs')"
    by (metis prod_cases3)
  have e: "e = None"
    using S by (auto simp: Save_def save_def codec0_def WriteFile_def Rename_def next_fault_def
        rebuildIndexes_def empty_storage_def cred0_def index_one_def)
  have c: "credentials cs' = [cred0]"
    using Save_state [OF S] by (simp add: empty_storage_def)
  have "\<And>data. js_marshal codec0 (credentials cs') = Inr data \<Longrightarrow>
      js_unmarshal codec0 data = Inr (map Some (credentials cs'))"
    by (auto simp: c codec0_def cred0_def)
  from Save_then_reopen [OF empty_storage_ok S [unfolded e] this] S e show ?thesis
    by (auto simp: empty_storage_def)
qed

text \<open>
  C28. A failed write is not rolled back in memory: when \<open>Save\<close> reports an error the new credential is
  nevertheless found by both lookups until the process ends (by its ID exactly, unless another
  credential has the same one), while the file keeps its old content.
  (The comment where \<^verbatim>\<open>MakeCredential\<close> ignores this error says the credential is then not
  discoverable.)
\<close>

theorem Save_error_still_discoverable:
  assumes "store_ok cs" and "Save J cred cs fs = (Some er, cs', fs')"
  shows "cred \<in> set (GetByRPID cs' (cm_RPID cred)) \<and>
    GetByCredentialID cs' (cm_CredentialID cred) \<noteq> None \<and>
    ((\<forall>d \<in> set (GetAll cs). cm_CredentialID d \<noteq> cm_CredentialID cred) \<longrightarrow>
       GetByCredentialID cs' (cm_CredentialID cred) = Some cred) \<and>
    files fs' (filePath cs) = files fs (filePath cs)"
  using cred_store.save_found [OF assms] cred_store.save_by_id [OF assms] Save_by_id [OF assms] Save_file [OF assms(2)]
  by simp

theorem Save_error_still_discoverable_witness:
  "\<exists>er cs' fs'. Save codec0 cred0 (empty_storage ''p'') \<lparr>files = Map.empty, faults = [OpenFail]\<rparr>
     = (Some er, cs', fs') \<and> cred0 \<in> set (GetByRPID cs' ''a.org'') \<and> files fs' ''p'' = None"
proof -
  let ?fs = "\<lparr>files = Map.empty, faults = [OpenFail]\<rparr>"
  obtain e cs' fs' where S: "Save codec0 cred0 (empty_storage ''p'') ?fs = (e, cs', fs')"
    by (metis prod_cases3)
  obtain er where "e = Some er"
    using S by (auto simp: Save_def save_def codec0_def WriteFile_def next_fault_def
        rebuildIndexes_def empty_storage_def cred0_def index_one_def)
  with S Save_error_still_discoverable [OF empty_storage_ok, of codec0 cred0 "''p''" ?fs er cs' fs']
  show ?thesis by (auto simp: cred0_def empty_storage_def)
qed

text \<open>
  C29. An unreadable credentials file is treated as an empty store and overwritten by the next
  save: if the stored bytes do not decode, the store opens empty, and one successful \<open>Save\<close> replaces
  the file by the encoding of that single credential, losing everything that was there.
\<close>

theorem unreadable_file_overwritten:
  assumes "files fs path = Some old" and "js_unmarshal J old = Inl er"
    and "js_marshal J [cred] = Inr new" and "faults fs = []"
  shows "\<exists>cs fs1 cs' fs2. NewCredentialStorage J path fs = (Ok cs, fs1) \<and> GetAll cs = [] \<and>
    Save J cred cs fs1 = (None, cs', fs2) \<and> files fs2 path = Some new"
  using assms
  by (simp add: NewCredentialStorage_def MkdirAll_def Stat_def load_def ReadFile_def empty_storage_def
      GetAll_def Save_def save_def WriteFile_def Rename_def rebuildIndexes_def index_one_def)

theorem unreadable_file_overwritten_witness:
  "\<exists>cs fs1 cs' fs2. NewCredentialStorage codec0 ''p'' \<lparr>files = [''p'' \<mapsto> [0, 0]], faults = []\<rparr> = (Ok cs, fs1)
    \<and> GetAll cs = [] \<and> Save codec0 cred0 cs fs1 = (None, cs', fs2) \<and> files fs2 ''p'' = Some [1, 7]"
  by (rule unreadable_file_overwritten [where old = "[0, 0]" and er = "ErrMsg ''json''"])
     (simp_all add: codec0_def cred0_def)

end
