(* ===== verification/UserPresence.thy ===== *)
theory UserPresence
  imports Prelude
begin

text \<open>
  \<^verbatim>\<open>userpresence/userpresence.go\<close>: detection of the confirmation command, \<open>ConfirmPresence\<close>, and the
  prompt goroutine. The mutex makes each critical section one step, so the concurrent system is
  the step relation \<open>up_step\<close>: clients ask, the external command ends, the result is handed to one
  receiver of the unbuffered channel or dropped after two seconds, and the request is cleared.
  Which command runs and when it ends is up to the environment. The notification popup is not
  modelled. At the end \<open>ask_presence\<close> is the view of one caller that waits with a deadline.
\<close>

section \<open>Confirmation methods\<close>

text \<open>\<^verbatim>\<open>ConfirmMethod\<close> is an \<^verbatim>\<open>int\<close> with two named values; others reach the default branch.\<close>

type_synonym ConfirmMethod = int

definition ConfirmMethodFprintd :: ConfirmMethod where
  "ConfirmMethodFprintd = 0"

definition ConfirmMethodZenity :: ConfirmMethod where
  "ConfirmMethodZenity = 1"

text \<open>\<open>found\<close> tells which programs \<^verbatim>\<open>exec.LookPath\<close> finds.\<close>

definition detectConfirmMethod :: "(string \<Rightarrow> bool) \<Rightarrow> ConfirmMethod option" where
  "detectConfirmMethod found =
     (if found ''fprintd-verify'' then Some ConfirmMethodFprintd
      else if found ''zenity'' then Some ConfirmMethodZenity
      else None)"

section \<open>State\<close>

record Result =
  res_OK :: bool
  res_Error :: "gerr option"

text \<open>
  The two channels of a request are created with it; \<open>rq_chan\<close> is their identity. Nothing ever
  receives from \<^verbatim>\<open>extendTimeout\<close>.
\<close>

record request =
  rq_timeout :: nat
  rq_chan :: nat
  rq_challengeParam :: bytes
  rq_applicationParam :: bytes

record UserPresence =
  activeRequest :: "request option"
  confirmMethod :: ConfirmMethod
  up_fresh :: nat

definition NewUserPresence :: "(string \<Rightarrow> bool) \<Rightarrow> UserPresence res" where
  "NewUserPresence found =
     (case detectConfirmMethod found of
        None \<Rightarrow> Panic ''nil pointer dereference''
      | Some m \<Rightarrow> Ok \<lparr>activeRequest = None, confirmMethod = m, up_fresh = 0\<rparr>)"

text \<open>What \<^verbatim>\<open>ConfirmPresence\<close> starts with \<^verbatim>\<open>go\<close>.\<close>

datatype spawned = ExtendTimeout nat | ConfirmPrompt request string

definition ConfirmPresence ::
  "string \<Rightarrow> bytes \<Rightarrow> bytes \<Rightarrow> UserPresence \<Rightarrow> (gerr + nat) \<times> spawned list \<times> UserPresence" where
  "ConfirmPresence prompt challengeParam applicationParam up =
     (case activeRequest up of
        Some rq \<Rightarrow>
          if challengeParam \<noteq> rq_challengeParam rq \<or> applicationParam \<noteq> rq_applicationParam rq
          then (Inl (ErrMsg ''other request already in progress''), [], up)
          else (Inr (rq_chan rq), [ExtendTimeout (rq_chan rq)], up)
      | None \<Rightarrow>
          let rq = \<lparr>rq_timeout = 30, rq_chan = up_fresh up, rq_challengeParam = challengeParam,
                    rq_applicationParam = applicationParam\<rparr>
          in (Inr (rq_chan rq), [ConfirmPrompt rq prompt],
              up\<lparr>activeRequest := Some rq, up_fresh := Suc (up_fresh up)\<rparr>))"

text \<open>
  The result \<^verbatim>\<open>confirmPrompt\<close> sends, given how the external command ended and whether the
  context's deadline had passed by then.
\<close>

definition prompt_result :: "ConfirmMethod \<Rightarrow> gerr option \<Rightarrow> bool \<Rightarrow> Result" where
  "prompt_result m cmd_err deadline =
     (if m = ConfirmMethodFprintd \<or> m = ConfirmMethodZenity then
        (case cmd_err of
           Some err \<Rightarrow>
             if deadline then \<lparr>res_OK = False, res_Error = Some (ErrMsg ''confirmation timed out'')\<rparr>
             else \<lparr>res_OK = False, res_Error = Some err\<rparr>
         | None \<Rightarrow> \<lparr>res_OK = True, res_Error = None\<rparr>)
      else \<lparr>res_OK = False, res_Error = Some (ErrMsg ''no confirmation method available'')\<rparr>)"

text \<open>The arguments of the two external commands; both are killed at the request's deadline.\<close>

definition confirmWithFprintd_cmd :: "string list" where
  "confirmWithFprintd_cmd = [''fprintd-verify'']"

definition confirmWithZenity_cmd :: "string \<Rightarrow> string list" where
  "confirmWithZenity_cmd prompt =
     [''zenity'', ''--question'', ''--title=TPM-FIDO'', ''--text='' @ prompt, ''--ok-label=Allow'',
      ''--cancel-label=Deny'']"

section \<open>The concurrent system\<close>

text \<open>
  The prompt goroutine of a request runs its command, then offers the result, then takes the
  mutex to clear the active request.
\<close>

datatype phase = Prompting | Sending Result | Clearing

record ask_params =
  ak_challenge :: bytes
  ak_application :: bytes

record System =
  sy_up :: UserPresence
  sy_prompts :: "nat \<Rightarrow> (request \<times> phase) option"
  sy_waiting :: "nat \<Rightarrow> (nat \<times> ask_params) option"
  sy_got :: "(nat \<times> nat \<times> ask_params \<times> Result) list"
  sy_confirmed :: "request set"

definition system0 :: "ConfirmMethod \<Rightarrow> System" where
  "system0 m =
     \<lparr>sy_up = \<lparr>activeRequest = None, confirmMethod = m, up_fresh = 0\<rparr>, sy_prompts = Map.empty,
      sy_waiting = Map.empty, sy_got = [], sy_confirmed = {}\<rparr>"

fun start :: "spawned list \<Rightarrow> System \<Rightarrow> System" where
  "start [] s = s"
| "start (ExtendTimeout c # gs) s = start gs s"
| "start (ConfirmPrompt rq p # gs) s =
     start gs (s\<lparr>sy_prompts := (sy_prompts s)(rq_chan rq \<mapsto> (rq, Prompting))\<rparr>)"

inductive up_step :: "System \<Rightarrow> System \<Rightarrow> bool" where
  ask: "sy_waiting s k = None \<Longrightarrow>
    ConfirmPresence prompt c a (sy_up s) = (Inr ch, gs, up') \<Longrightarrow>
    s' = start gs (s\<lparr>sy_up := up', sy_waiting := (sy_waiting s)(k \<mapsto> (ch, \<lparr>ak_challenge = c, ak_application = a\<rparr>))\<rparr>) \<Longrightarrow>
    up_step s s'"
| refuse: "ConfirmPresence prompt c a (sy_up s) = (Inl e, gs, up') \<Longrightarrow>
    up_step s (start gs (s\<lparr>sy_up := up'\<rparr>))"
| command_ends: "sy_prompts s ch = Some (rq, Prompting) \<Longrightarrow>
    r = prompt_result (confirmMethod (sy_up s)) cmd_err deadline \<Longrightarrow>
    up_step s (s\<lparr>sy_prompts := (sy_prompts s)(ch \<mapsto> (rq, Sending r)),
                 sy_confirmed := (if cmd_err = None then insert rq (sy_confirmed s) else sy_confirmed s)\<rparr>)"
| deliver: "sy_prompts s ch = Some (rq, Sending r) \<Longrightarrow> sy_waiting s k = Some (ch, p) \<Longrightarrow>
    up_step s (s\<lparr>sy_prompts := (sy_prompts s)(ch \<mapsto> (rq, Clearing)),
                 sy_waiting := (sy_waiting s)(k := None), sy_got := (k, ch, p, r) # sy_got s\<rparr>)"
| client_gone: "sy_prompts s ch = Some (rq, Sending r) \<Longrightarrow>
    up_step s (s\<lparr>sy_prompts := (sy_prompts s)(ch \<mapsto> (rq, Clearing))\<rparr>)"
| clear_request: "sy_prompts s ch = Some (rq, Clearing) \<Longrightarrow>
    up_step s (s\<lparr>sy_prompts := (sy_prompts s)(ch := None),
                 sy_up := (sy_up s)\<lparr>activeRequest := None\<rparr>\<rparr>)"
| wait_timeout: "sy_waiting s k = Some w \<Longrightarrow>
    up_step s (s\<lparr>sy_waiting := (sy_waiting s)(k := None)\<rparr>)"

inductive reachable :: "ConfirmMethod \<Rightarrow> System \<Rightarrow> bool" for m where
  init: "reachable m (system0 m)"
| next_step: "reachable m s \<Longrightarrow> up_step s s' \<Longrightarrow> reachable m s'"

section \<open>The invariant\<close>

text \<open>
  The prompts that exist are exactly the active request; channels are fresh; whoever waits, and
  whoever was answered, asked with the parameters of the request behind the channel; a positive
  answer was preceded by a successful command for that request; a channel answers once.
\<close>

definition one_prompt :: "System \<Rightarrow> bool" where
  "one_prompt s \<longleftrightarrow>
     (case activeRequest (sy_up s) of
        None \<Rightarrow> sy_prompts s = Map.empty
      | Some rq \<Rightarrow> (\<exists>ph. sy_prompts s = [rq_chan rq \<mapsto> (rq, ph)]) \<and> rq_chan rq < up_fresh (sy_up s))"

definition asked :: "request \<Rightarrow> nat \<Rightarrow> ask_params \<Rightarrow> bool" where
  "asked rq ch p \<longleftrightarrow>
     rq_chan rq = ch \<and> rq_challengeParam rq = ak_challenge p \<and> rq_applicationParam rq = ak_application p"

definition waiting_ok :: "System \<Rightarrow> bool" where
  "waiting_ok s \<longleftrightarrow>
     (\<forall>k ch p. sy_waiting s k = Some (ch, p) \<longrightarrow>
        ch < up_fresh (sy_up s) \<and>
        (\<forall>rq ph. sy_prompts s ch = Some (rq, ph) \<longrightarrow> asked rq ch p))"

definition sending_ok :: "System \<Rightarrow> bool" where
  "sending_ok s \<longleftrightarrow>
     (\<forall>ch rq r. sy_prompts s ch = Some (rq, Sending r) \<longrightarrow> res_OK r \<longrightarrow> rq \<in> sy_confirmed s)"

definition got_ok :: "System \<Rightarrow> bool" where
  "got_ok s \<longleftrightarrow>
     (\<forall>k ch p r. (k, ch, p, r) \<in> set (sy_got s) \<longrightarrow>
        ch < up_fresh (sy_up s) \<and> (res_OK r \<longrightarrow> (\<exists>rq \<in> sy_confirmed s. asked rq ch p)))"

definition once_ok :: "System \<Rightarrow> bool" where
  "once_ok s \<longleftrightarrow>
     distinct (map (\<lambda>(k, ch, p, r). ch) (sy_got s)) \<and>
     (\<forall>ch rq ph. sy_prompts s ch = Some (rq, ph) \<longrightarrow> ph \<noteq> Clearing \<longrightarrow>
        ch \<notin> set (map (\<lambda>(k, ch, p, r). ch) (sy_got s)))"

definition presence_inv :: "System \<Rightarrow> bool" where
  "presence_inv s \<longleftrightarrow> one_prompt s \<and> waiting_ok s \<and> sending_ok s \<and> got_ok s \<and> once_ok s"

lemmas presence_defs = presence_inv_def one_prompt_def waiting_ok_def sending_ok_def got_ok_def
  once_ok_def asked_def

lemma presence_inv_init: "presence_inv (system0 m)"
  by (simp add: presence_defs system0_def)

lemma ConfirmPresence_cases:
  assumes "ConfirmPresence prompt c a up = (res, gs, up')"
  obtains (busy) rq e where "activeRequest up = Some rq" "res = Inl e" "gs = []" "up' = up"
      "c \<noteq> rq_challengeParam rq \<or> a \<noteq> rq_applicationParam rq"
  | (join) rq where "activeRequest up = Some rq" "res = Inr (rq_chan rq)" "gs = [ExtendTimeout (rq_chan rq)]"
      "up' = up" "c = rq_challengeParam rq" "a = rq_applicationParam rq"
  | (new) rq where "activeRequest up = None" "res = Inr (up_fresh up)" "gs = [ConfirmPrompt rq prompt]"
      "up' = up\<lparr>activeRequest := Some rq, up_fresh := Suc (up_fresh up)\<rparr>"
      "rq_chan rq = up_fresh up" "rq_challengeParam rq = c" "rq_applicationParam rq = a"
  using assms by (auto simp: ConfirmPresence_def Let_def split: option.splits if_splits)

lemma one_prompt_chan: "one_prompt s \<Longrightarrow> sy_prompts s ch = Some (rq, ph) \<Longrightarrow>
    activeRequest (sy_up s) = Some rq \<and> sy_prompts s = [ch \<mapsto> (rq, ph)] \<and> ch = rq_chan rq \<and>
    ch < up_fresh (sy_up s)"
  by (auto simp: one_prompt_def split: option.splits if_splits)

lemma waiting_ok_join:
  assumes w: "waiting_ok s" and p: "sy_prompts s = [ch \<mapsto> (rq, ph)]" "ch < up_fresh (sy_up s)" "asked rq ch p"
  shows "waiting_ok (s\<lparr>sy_waiting := (sy_waiting s)(k \<mapsto> (ch, p))\<rparr>)"
  unfolding waiting_ok_def
proof (intro allI impI)
  fix k' ch' p'
  assume h: "sy_waiting (s\<lparr>sy_waiting := (sy_waiting s)(k \<mapsto> (ch, p))\<rparr>) k' = Some (ch', p')"
  have "ch' < up_fresh (sy_up s) \<and> (\<forall>rq ph. sy_prompts s ch' = Some (rq, ph) \<longrightarrow> asked rq ch' p')"
  proof (cases "k' = k")
    case True
    with h have "ch' = ch" "p' = p" by simp_all
    with p show ?thesis by simp
  next
    case False
    with h have "sy_waiting s k' = Some (ch', p')" by simp
    with w show ?thesis unfolding waiting_ok_def by blast
  qed
  then show "ch' < up_fresh (sy_up (s\<lparr>sy_waiting := (sy_waiting s)(k \<mapsto> (ch, p))\<rparr>)) \<and>
      (\<forall>rq ph. sy_prompts (s\<lparr>sy_waiting := (sy_waiting s)(k \<mapsto> (ch, p))\<rparr>) ch' = Some (rq, ph) \<longrightarrow> asked rq ch' p')"
    by simp
qed

lemma join_keeps:
  assumes inv: "presence_inv s" and rq: "activeRequest (sy_up s) = Some rq"
  shows "presence_inv (s\<lparr>sy_waiting := (sy_waiting s)(k \<mapsto> (rq_chan rq,
      \<lparr>ak_challenge = rq_challengeParam rq, ak_application = rq_applicationParam rq\<rparr>))\<rparr>)" (is "presence_inv ?s")
proof -
  obtain ph where o: "sy_prompts s = [rq_chan rq \<mapsto> (rq, ph)]" "rq_chan rq < up_fresh (sy_up s)"
    using inv rq(1) by (auto simp: presence_inv_def one_prompt_def)
  have "one_prompt ?s" "sending_ok ?s" "once_ok ?s" "got_ok ?s" using inv
    by (simp_all add: presence_inv_def one_prompt_def sending_ok_def once_ok_def got_ok_def cong: option.case_cong)
  moreover have "waiting_ok ?s"
    by (rule waiting_ok_join [OF _ o]) (use inv in \<open>simp_all add: presence_inv_def asked_def\<close>)
  ultimately show ?thesis by (simp add: presence_inv_def)
qed

lemma ask_keeps:
  assumes inv: "presence_inv s"
    and cp: "ConfirmPresence prompt c a (sy_up s) = (Inr ch, gs, up')"
    and s': "s' = start gs (s\<lparr>sy_up := up', sy_waiting := (sy_waiting s)(k \<mapsto> (ch, \<lparr>ak_challenge = c, ak_application = a\<rparr>))\<rparr>)"
  shows "presence_inv s'"
  using cp
proof (cases rule: ConfirmPresence_cases)
  case (join rq)
  with s' have "s' = s\<lparr>sy_waiting := (sy_waiting s)(k \<mapsto> (rq_chan rq,
      \<lparr>ak_challenge = rq_challengeParam rq, ak_application = rq_applicationParam rq\<rparr>))\<rparr>" by simp
  with join_keeps [OF inv join(1)] show ?thesis by simp
next
  case (new rq)
  then have n: "sy_prompts s = Map.empty" using inv by (simp add: presence_inv_def one_prompt_def)
  have u: "\<And>k ch p r. (k, ch, p, r) \<in> set (sy_got s) \<Longrightarrow> ch < up_fresh (sy_up s)"
    "\<And>k ch p. sy_waiting s k = Some (ch, p) \<Longrightarrow> ch < up_fresh (sy_up s)"
    using inv by (auto simp: presence_inv_def got_ok_def waiting_ok_def)
  have "one_prompt s'" "sending_ok s'" unfolding s' using new n
    by (auto simp: one_prompt_def sending_ok_def)
  moreover have "waiting_ok s'" unfolding s' using new n u(2)
    by (fastforce simp: waiting_ok_def asked_def less_Suc_eq)
  moreover have "got_ok s'" unfolding s' using new inv u(1)
    by (fastforce simp: presence_inv_def got_ok_def less_Suc_eq)
  moreover have "once_ok s'" unfolding s' using new n inv u(1)
    by (fastforce simp: presence_inv_def once_ok_def)
  ultimately show ?thesis by (simp add: presence_inv_def)
qed simp

lemma phase_step_keeps:
  assumes inv: "presence_inv s" and p: "sy_prompts s ch = Some (rq, ph)"
    and conf: "sy_confirmed s \<subseteq> C"
    and send: "\<And>r. ph' = Sending r \<Longrightarrow> res_OK r \<Longrightarrow> rq \<in> C"
    and nc: "ph' \<noteq> Clearing \<Longrightarrow> ph \<noteq> Clearing"
  shows "presence_inv (s\<lparr>sy_prompts := (sy_prompts s)(ch \<mapsto> (rq, ph')), sy_confirmed := C\<rparr>)"
proof -
  from inv p have o: "activeRequest (sy_up s) = Some rq" "sy_prompts s = [ch \<mapsto> (rq, ph)]" "ch = rq_chan rq"
    "ch < up_fresh (sy_up s)"
    using one_prompt_chan by (auto simp: presence_inv_def)
  let ?s = "s\<lparr>sy_prompts := (sy_prompts s)(ch \<mapsto> (rq, ph')), sy_confirmed := C\<rparr>"
  have "one_prompt ?s" using o by (auto simp: one_prompt_def)
  moreover have "waiting_ok ?s" using inv o p by (auto simp: presence_inv_def waiting_ok_def)
  moreover have "sending_ok ?s" using o send by (auto simp: sending_ok_def)
  moreover have "got_ok ?s" using inv conf by (fastforce simp: presence_inv_def got_ok_def)
  moreover have "once_ok ?s" using inv o p nc by (auto simp: presence_inv_def once_ok_def)
  ultimately show ?thesis by (simp add: presence_inv_def)
qed

lemma deliver_keeps:
  assumes inv: "presence_inv s" and p: "sy_prompts s ch = Some (rq, Sending r)" and w: "sy_waiting s k = Some (ch, p)"
  shows "presence_inv (s\<lparr>sy_prompts := (sy_prompts s)(ch \<mapsto> (rq, Clearing)),
    sy_waiting := (sy_waiting s)(k := None), sy_got := (k, ch, p, r) # sy_got s\<rparr>)" (is "presence_inv ?t")
proof -
  let ?s = "s\<lparr>sy_prompts := (sy_prompts s)(ch \<mapsto> (rq, Clearing)), sy_confirmed := sy_confirmed s\<rparr>"
  have i: "presence_inv ?s" by (rule phase_step_keeps [OF inv p]) simp_all
  have a: "asked rq ch p" "ch < up_fresh (sy_up s)"
    using inv p w by (auto simp: presence_inv_def waiting_ok_def)
  have c: "res_OK r \<Longrightarrow> rq \<in> sy_confirmed s"
    using inv p by (auto simp: presence_inv_def sending_ok_def)
  have n: "ch \<notin> set (map (\<lambda>(k, ch, p, r). ch) (sy_got s))"
    using inv p by (auto simp: presence_inv_def once_ok_def)
  have "one_prompt ?t" using i by (simp add: presence_inv_def one_prompt_def cong: option.case_cong)
  moreover have "waiting_ok ?t" "sending_ok ?t" using i by (simp_all add: presence_inv_def waiting_ok_def sending_ok_def)
  moreover have "got_ok ?t" using i a c by (auto simp: presence_inv_def got_ok_def)
  moreover have "once_ok ?t" using i n by (auto simp: presence_inv_def once_ok_def)
  ultimately show ?thesis by (simp add: presence_inv_def)
qed

lemma presence_inv_step: "up_step s s' \<Longrightarrow> presence_inv s \<Longrightarrow> presence_inv s'"
proof (induction rule: up_step.induct)
  case (ask s k prompt c a ch gs up' s')
  then show ?case using ask_keeps by blast
next
  case (refuse prompt c a s e gs up')
  from refuse(1) show ?case
    by (cases rule: ConfirmPresence_cases) (use refuse(2) in simp_all)
next
  case (command_ends s ch rq r cmd_err deadline)
  show ?case
    by (rule phase_step_keeps [OF command_ends(3,1)])
       (auto simp: command_ends(2) prompt_result_def split: option.splits if_splits)
next
  case (deliver s ch rq r k p)
  from deliver_keeps [OF deliver(3,1,2)] show ?case .
next
  case (client_gone s ch rq r)
  have "presence_inv (s\<lparr>sy_prompts := (sy_prompts s)(ch \<mapsto> (rq, Clearing)), sy_confirmed := sy_confirmed s\<rparr>)"
    by (rule phase_step_keeps [OF client_gone(2,1)]) simp_all
  then show ?case by simp
next
  case (clear_request s ch rq)
  with one_prompt_chan have "sy_prompts s = [ch \<mapsto> (rq, Clearing)]" by (auto simp: presence_inv_def)
  then have e: "(sy_prompts s)(ch := None) = Map.empty" by auto
  show ?case using clear_request(2) unfolding e
    by (simp add: presence_inv_def one_prompt_def waiting_ok_def sending_ok_def got_ok_def once_ok_def)
next
  case (wait_timeout s k w)
  then show ?case
    by (simp add: presence_inv_def one_prompt_def waiting_ok_def sending_ok_def got_ok_def once_ok_def
        cong: option.case_cong)
qed

lemma reachable_inv: "reachable m s \<Longrightarrow> presence_inv s"
  by (induction rule: reachable.induct) (simp_all add: presence_inv_init presence_inv_step)

text \<open>Results are only ever added, and only its timeout or a delivery on its channel ends a wait.\<close>

lemma start_fields [simp]: "sy_got (start gs s) = sy_got s" "sy_waiting (start gs s) = sy_waiting s"
  by (induction gs s rule: start.induct) simp_all

lemma got_grows: "up_step\<^sup>*\<^sup>* s s' \<Longrightarrow> set (sy_got s) \<subseteq> set (sy_got s')"
proof (induction rule: rtranclp_induct)
  case (step t u)
  from step(2) have "set (sy_got t) \<subseteq> set (sy_got u)" by (induction rule: up_step.induct) auto
  with step(3) show ?case by blast
qed simp

lemma wait_step:
  assumes "up_step s s'" "sy_waiting s k = Some (ch, q)"
  shows "sy_waiting s' k = Some (ch, q) \<or> s' = s\<lparr>sy_waiting := (sy_waiting s)(k := None)\<rparr> \<or>
    (\<exists>rq r. sy_prompts s ch = Some (rq, Sending r))"
  using assms by (induction rule: up_step.induct) auto

lemma filter_distinct_key:
  "distinct (map f xs) \<Longrightarrow> x \<in> set xs \<Longrightarrow> filter (\<lambda>y. f y = f x) xs = [x]"
  by (induction xs) (auto simp: filter_empty_conv image_iff)

lemma answered_once:
  assumes "reachable m s" "(k, ch, p, r) \<in> set (sy_got s)"
  shows "filter (\<lambda>(k, c, p, r). c = ch) (sy_got s) = [(k, ch, p, r)]" "sy_prompts s ch \<noteq> Some (rq, Sending r')"
proof -
  have o: "once_ok s" using reachable_inv [OF assms(1)] by (simp add: presence_inv_def)
  then have "distinct (map (\<lambda>(k, ch, p, r). ch) (sy_got s))" by (simp add: once_ok_def)
  from filter_distinct_key [OF this assms(2)] show "filter (\<lambda>(k, c, p, r). c = ch) (sy_got s) = [(k, ch, p, r)]"
    by (simp add: case_prod_unfold)
  show "sy_prompts s ch \<noteq> Some (rq, Sending r')" using o assms(2) by (force simp: once_ok_def)
qed

lemma reachable_steps: "reachable m s \<Longrightarrow> up_step\<^sup>*\<^sup>* s s' \<Longrightarrow> reachable m s'"
  by (rotate_tac, induction rule: rtranclp_induct) (auto intro: next_step)

section \<open>A run with two clients\<close>

definition params0 :: ask_params where
  "params0 = \<lparr>ak_challenge = [1], ak_application = [2]\<rparr>"

definition rq0 :: request where
  "rq0 = \<lparr>rq_timeout = 30, rq_chan = 0, rq_challengeParam = [1], rq_applicationParam = [2]\<rparr>"

definition yes :: Result where
  "yes = \<lparr>res_OK = True, res_Error = None\<rparr>"

definition busy_up :: UserPresence where
  "busy_up = \<lparr>activeRequest = Some rq0, confirmMethod = 0, up_fresh = 1\<rparr>"

definition run_state ::
  "UserPresence \<Rightarrow> (nat \<Rightarrow> (request \<times> phase) option) \<Rightarrow> (nat \<Rightarrow> (nat \<times> ask_params) option) \<Rightarrow>
   (nat \<times> nat \<times> ask_params \<times> Result) list \<Rightarrow> request set \<Rightarrow> System" where
  "run_state u p w g c =
     \<lparr>sy_up = u, sy_prompts = p, sy_waiting = w, sy_got = g, sy_confirmed = c\<rparr>"

text \<open>Two clients ask for the same request, the command succeeds, client 0 gets the result.\<close>

definition answered :: System where
  "answered = run_state busy_up [0 \<mapsto> (rq0, Clearing)] [1 \<mapsto> (0, params0)] [(0, 0, params0, yes)] {rq0}"

definition cleared :: System where
  "cleared = run_state (busy_up\<lparr>activeRequest := None\<rparr>) Map.empty [1 \<mapsto> (0, params0)]
     [(0, 0, params0, yes)] {rq0}"

lemmas run_defs = run_state_def busy_up_def rq0_def params0_def yes_def system0_def
  answered_def cleared_def

lemma answered_reachable: "reachable 0 answered"
proof -
  let ?w = "[0 \<mapsto> (0, params0)] :: nat \<Rightarrow> (nat \<times> ask_params) option"
  let ?s1 = "run_state busy_up [0 \<mapsto> (rq0, Prompting)] ?w [] {}"
  let ?s2 = "run_state busy_up [0 \<mapsto> (rq0, Prompting)] (?w(1 \<mapsto> (0, params0))) [] {}"
  let ?s3 = "run_state busy_up [0 \<mapsto> (rq0, Sending yes)] (?w(1 \<mapsto> (0, params0))) [] {rq0}"
  have "up_step (system0 0) ?s1"
    by (rule ask [of _ 0 "''p''" "[1]" "[2]" 0 "[ConfirmPrompt rq0 ''p'']" busy_up])
       (simp_all add: run_defs ConfirmPresence_def Let_def)
  moreover have "up_step ?s1 ?s2"
    by (rule ask [of _ 1 "''p''" "[1]" "[2]" 0 "[ExtendTimeout 0]" busy_up])
       (simp_all add: run_defs ConfirmPresence_def Let_def)
  moreover have "up_step ?s2 ?s3"
    using command_ends [of ?s2 0 rq0 yes None False]
    by (simp add: run_defs prompt_result_def ConfirmMethodFprintd_def)
  moreover have "up_step ?s3 answered"
    using deliver [of ?s3 0 rq0 yes 0 params0] by (simp add: run_defs fun_upd_twist)
  ultimately show ?thesis by (meson reachable.intros)
qed

lemma cleared_reachable: "reachable 0 cleared"
proof -
  have "up_step answered cleared"
    using clear_request [of answered 0 rq0] by (simp add: run_defs)
  with answered_reachable show ?thesis by (rule next_step)
qed

section \<open>Properties\<close>

text \<open>
  C23. No request is confirmed for something else: whenever, in any interleaving of any clients, a
  client receives a positive result, the external confirmation command has succeeded for a
  request made with exactly that client's challenge and application parameters, and no two
  results are ever delivered for the same request.
\<close>

theorem presence_confirms_same_request:
  assumes "reachable m s" "(k, ch, p, r) \<in> set (sy_got s)" "res_OK r"
  shows "(\<exists>rq \<in> sy_confirmed s. rq_chan rq = ch \<and> rq_challengeParam rq = ak_challenge p \<and>
            rq_applicationParam rq = ak_application p) \<and>
         distinct (map (\<lambda>(k, ch, p, r). ch) (sy_got s))"
  using reachable_inv [OF assms(1)] assms(2,3)
  by (fastforce simp: presence_inv_def got_ok_def once_ok_def asked_def)

lemma presence_confirms_same_request_witness:
  "(\<exists>rq \<in> sy_confirmed answered. rq_chan rq = 0 \<and> rq_challengeParam rq = [1] \<and> rq_applicationParam rq = [2]) \<and>
   distinct (map (\<lambda>(k, ch, p, r). ch) (sy_got answered))"
proof -
  have "(0, 0, params0, yes) \<in> set (sy_got answered)" "res_OK yes" by (simp_all add: run_defs)
  from presence_confirms_same_request [OF answered_reachable this] show ?thesis
    by (simp add: params0_def)
qed

text \<open>
  C24. There is never more than one confirmation prompt, and while there is one every other
  request is refused at once, without a prompt, with the error "other request already in progress".
\<close>

theorem one_prompt_at_a_time:
  assumes "reachable m s" "sy_prompts s ch = Some (rq, ph)"
  shows "(\<forall>ch' x. sy_prompts s ch' = Some x \<longrightarrow> ch' = ch) \<and>
    ((c, a) \<noteq> (rq_challengeParam rq, rq_applicationParam rq) \<longrightarrow>
       ConfirmPresence prompt c a (sy_up s) =
         (Inl (ErrMsg ''other request already in progress''), [], sy_up s))"
proof -
  have o: "activeRequest (sy_up s) = Some rq" "sy_prompts s = [ch \<mapsto> (rq, ph)]"
    using one_prompt_chan [OF _ assms(2)] reachable_inv [OF assms(1)] by (auto simp: presence_inv_def)
  then show ?thesis by (auto simp: ConfirmPresence_def)
qed

lemma one_prompt_at_a_time_witness:
  "sy_prompts answered 1 = None \<and>
   ConfirmPresence ''q'' [5] [2] (sy_up answered) =
     (Inl (ErrMsg ''other request already in progress''), [], sy_up answered)"
proof -
  have "sy_prompts answered 0 = Some (rq0, Clearing)" by (simp add: run_defs)
  from one_prompt_at_a_time [OF answered_reachable this, of "[5]" "[2]" "''q''"] show ?thesis
    by (cases "sy_prompts answered 1") (auto simp: rq0_def)
qed

text \<open>
  C25. A client that joins a request in progress is left without an answer: in every reachable state in
  which the result of a request has been handed to some client and another one waits on the same
  request's channel, no result is ever sent on that channel again, whatever happens next, and the
  waiting client goes on waiting until its own timeout. (The unbuffered channel hands the one result
  to one receiver.)
\<close>

theorem joined_waiter_starves:
  assumes "reachable m s" "(k, ch, p, r) \<in> set (sy_got s)" "sy_waiting s k' = Some (ch, q)" "up_step\<^sup>*\<^sup>* s s'"
  shows "filter (\<lambda>(k, c, p, r). c = ch) (sy_got s') = [(k, ch, p, r)] \<and>
    (sy_waiting s' k' = Some (ch, q) \<or>
     (\<exists>t. up_step\<^sup>*\<^sup>* s t \<and> sy_waiting t k' = Some (ch, q) \<and> up_step\<^sup>*\<^sup>* (t\<lparr>sy_waiting := (sy_waiting t)(k' := None)\<rparr>) s'))"
proof
  show "filter (\<lambda>(k, c, p, r). c = ch) (sy_got s') = [(k, ch, p, r)]"
    using answered_once(1) [OF reachable_steps [OF assms(1,4)]] got_grows [OF assms(4)] assms(2) by blast
  from assms(4) show "sy_waiting s' k' = Some (ch, q) \<or>
     (\<exists>t. up_step\<^sup>*\<^sup>* s t \<and> sy_waiting t k' = Some (ch, q) \<and> up_step\<^sup>*\<^sup>* (t\<lparr>sy_waiting := (sy_waiting t)(k' := None)\<rparr>) s')"
  proof (induction rule: rtranclp_induct)
    case (step t u)
    from step(3) show ?case
    proof
      assume w: "sy_waiting t k' = Some (ch, q)"
      have "(k, ch, p, r) \<in> set (sy_got t)" using got_grows [OF step(1)] assms(2) by blast
      from answered_once(2) [OF reachable_steps [OF assms(1) step(1)] this] wait_step [OF step(2) w]
      have "sy_waiting u k' = Some (ch, q) \<or> u = t\<lparr>sy_waiting := (sy_waiting t)(k' := None)\<rparr>" by blast
      with step(1) w show ?thesis by blast
    qed (use step(2) in \<open>meson rtranclp.rtrancl_into_rtrancl\<close>)
  qed (use assms(3) in simp)
qed

lemma joined_waiter_starves_witness:
  "filter (\<lambda>(k, c, p, r). c = 0) (sy_got cleared) = [(0, 0, params0, yes)] \<and>
   \<not> (\<exists>s' p r. up_step\<^sup>*\<^sup>* cleared s' \<and> (1, 0, p, r) \<in> set (sy_got s'))"
proof (intro conjI notI)
  have g: "(0, 0, params0, yes) \<in> set (sy_got cleared)" "sy_waiting cleared 1 = Some (0, params0)"
    by (simp_all add: run_defs)
  note starves = joined_waiter_starves [OF cleared_reachable g]
  from starves [of cleared] show "filter (\<lambda>(k, c, p, r). c = 0) (sy_got cleared) = [(0, 0, params0, yes)]" by simp
  assume "\<exists>s' p r. up_step\<^sup>*\<^sup>* cleared s' \<and> (1, 0, p, r) \<in> set (sy_got s')"
  then obtain s' p r where s: "up_step\<^sup>*\<^sup>* cleared s'" "(1, 0, p, r) \<in> set (sy_got s')" by blast
  then have "(1, 0, p, r) \<in> set (filter (\<lambda>(k, c, p, r). c = 0) (sy_got s'))" by simp
  with starves [OF s(1)] show False by simp
qed

text \<open>
  The active request is cleared only after its result was handed over, so a client that was
  just told the user confirmed can find its next, different request refused as "already in
  progress": such a state is reachable, and only the next step of the prompt goroutine ends it.
\<close>

theorem answered_client_refused:
  "\<exists>s. reachable 0 s \<and> (\<exists>p r. (0, 0, p, r) \<in> set (sy_got s) \<and> res_OK r) \<and> sy_waiting s 0 = None \<and>
     fst (ConfirmPresence prompt [9] [9] (sy_up s)) = Inl (ErrMsg ''other request already in progress'') \<and>
     (\<exists>s'. up_step s s' \<and> fst (ConfirmPresence prompt [9] [9] (sy_up s')) = Inr 1)"
proof (rule exI [of _ answered], intro conjI)
  show "reachable 0 answered" by (rule answered_reachable)
  have "up_step answered cleared"
    using clear_request [of answered 0 rq0] by (simp add: run_defs)
  moreover have "fst (ConfirmPresence prompt [9] [9] (sy_up cleared)) = Inr 1"
    by (simp add: run_defs ConfirmPresence_def Let_def)
  ultimately show "\<exists>s'. up_step answered s' \<and> fst (ConfirmPresence prompt [9] [9] (sy_up s')) = Inr 1"
    by blast
qed (simp_all add: run_defs ConfirmPresence_def)

text \<open>
  Creating the presence handler on a machine with neither \<^verbatim>\<open>fprintd-verify\<close> nor \<^verbatim>\<open>zenity\<close>
  panics (the warning it logs is followed by a dereference of the nil method); otherwise the
  fingerprint reader is preferred.
\<close>

theorem NewUserPresence_outcome:
  "is_panic (NewUserPresence found) = (\<not> found ''fprintd-verify'' \<and> \<not> found ''zenity'') \<and>
   NewUserPresence found \<noteq> Err e \<and>
   (NewUserPresence found = Ok up \<longrightarrow> activeRequest up = None \<and>
      confirmMethod up = (if found ''fprintd-verify'' then ConfirmMethodFprintd else ConfirmMethodZenity))"
  by (auto simp: NewUserPresence_def detectConfirmMethod_def)

lemma NewUserPresence_outcome_witness:
  "is_panic (NewUserPresence (\<lambda>p. False)) \<and>
   confirmMethod \<lparr>activeRequest = None, confirmMethod = 1, up_fresh = 0\<rparr> = ConfirmMethodZenity"
  using NewUserPresence_outcome [of "\<lambda>p. False"]
    NewUserPresence_outcome [of "\<lambda>p. p = ''zenity''" EOF "\<lparr>activeRequest = None, confirmMethod = 1, up_fresh = 0\<rparr>"]
  by (simp add: NewUserPresence_def detectConfirmMethod_def ConfirmMethodZenity_def)

section \<open>A caller with a deadline\<close>

text \<open>
  The handlers ask and wait in one go: \<^verbatim>\<open>select\<close> between the result and the context's timeout. The
  environment decides which comes first, and when the prompt goroutine clears the request it has
  finished with: right after the wait, or at any later time, also after other requests were refused
  (\<open>pr_cleared\<close> tells, for each call, whether it has happened by then).
\<close>

datatype wait_outcome = Received Result | ContextDone

record Presence =
  pr_up :: UserPresence
  pr_script :: "(wait_outcome \<times> bool) list"
  pr_cleared :: "bool list"

datatype presence_answer = AskError gerr | Answer Result | NoAnswer

definition next_wait :: "Presence \<Rightarrow> (wait_outcome \<times> bool) \<times> (wait_outcome \<times> bool) list" where
  "next_wait P = (case pr_script P of [] \<Rightarrow> ((ContextDone, False), []) | ev # evs \<Rightarrow> (ev, evs))"

definition cleared_by_now :: "Presence \<Rightarrow> UserPresence \<times> bool list" where
  "cleared_by_now P =
     (case pr_cleared P of
        [] \<Rightarrow> (pr_up P, [])
      | c # cs \<Rightarrow> ((if c then (pr_up P)\<lparr>activeRequest := None\<rparr> else pr_up P), cs))"

definition ask_presence :: "string \<Rightarrow> bytes \<Rightarrow> bytes \<Rightarrow> Presence \<Rightarrow> presence_answer \<times> Presence" where
  "ask_presence prompt challengeParam appParam P =
     (case cleared_by_now P of
        (up0, cs) \<Rightarrow>
          (case ConfirmPresence prompt challengeParam appParam up0 of
             (Inl e, _, up) \<Rightarrow> (AskError e, P\<lparr>pr_up := up, pr_cleared := cs\<rparr>)
           | (Inr ch, _, up) \<Rightarrow>
               (case next_wait P of
                  ((w, done), evs) \<Rightarrow>
                    ((case w of Received r \<Rightarrow> Answer r | ContextDone \<Rightarrow> NoAnswer),
                     \<lparr>pr_up = (if done then up\<lparr>activeRequest := None\<rparr> else up), pr_script = evs, pr_cleared = cs\<rparr>))))"

end
