(* ===== verification/Base64.thy ===== *)
theory Base64
  imports Prelude
begin

text \<open>
  The part of \<^verbatim>\<open>encoding/base64\<close> the program uses: \<^verbatim>\<open>RawURLEncoding\<close> (URL-safe alphabet, no
  padding, not strict). As in Go, the decoder skips CR and LF, refuses every other character
  outside the alphabet (so \<^verbatim>\<open>=\<close>, \<^verbatim>\<open>+\<close> and \<^verbatim>\<open>/\<close>), refuses a last quantum of one character and
  ignores the unused low bits of a short last quantum.
\<close>

definition b64_char :: "nat \<Rightarrow> char" where
  "b64_char i =
     (if i < 26 then char_of (65 + i)
      else if i < 52 then char_of (97 + (i - 26))
      else if i < 62 then char_of (48 + (i - 52))
      else if i = 62 then CHR ''-'' else CHR ''_'')"

definition b64_val :: "char \<Rightarrow> nat option" where
  "b64_val c =
     (let n = of_char c :: nat in
      if 65 \<le> n \<and> n \<le> 90 then Some (n - 65)
      else if 97 \<le> n \<and> n \<le> 122 then Some (n - 97 + 26)
      else if 48 \<le> n \<and> n \<le> 57 then Some (n - 48 + 52)
      else if n = 45 then Some 62
      else if n = 95 then Some 63
      else None)"

fun sextets :: "bytes \<Rightarrow> nat list" where
  "sextets [] = []"
| "sextets [a] = [unat a div 4, unat a mod 4 * 16]"
| "sextets [a, b] = [unat a div 4, unat a mod 4 * 16 + unat b div 16, unat b mod 16 * 4]"
| "sextets (a # b # c # bs) =
     unat a div 4 # (unat a mod 4 * 16 + unat b div 16) #
     (unat b mod 16 * 4 + unat c div 64) # unat c mod 64 # sextets bs"

fun unsextets :: "nat list \<Rightarrow> bytes option" where
  "unsextets [] = Some []"
| "unsextets [p] = None"
| "unsextets [p, q] = Some [of_nat (p * 4 + q div 16)]"
| "unsextets [p, q, r] = Some [of_nat (p * 4 + q div 16), of_nat (q * 16 + r div 4)]"
| "unsextets (p # q # r # s # xs) =
     (case unsextets xs of
        None \<Rightarrow> None
      | Some bs \<Rightarrow>
          Some (of_nat (p * 4 + q div 16) # of_nat (q * 16 + r div 4) # of_nat (r * 64 + s) # bs))"

fun all_vals :: "string \<Rightarrow> nat list option" where
  "all_vals [] = Some []"
| "all_vals (c # cs) =
     (case b64_val c of
        None \<Rightarrow> None
      | Some v \<Rightarrow> (case all_vals cs of None \<Rightarrow> None | Some vs \<Rightarrow> Some (v # vs)))"

definition crlf :: "char \<Rightarrow> bool" where
  "crlf c \<longleftrightarrow> c = CHR 0x0A \<or> c = CHR 0x0D"

definition EncodeToString :: "bytes \<Rightarrow> string" where
  "EncodeToString bs = map b64_char (sextets bs)"

definition DecodeString :: "string \<Rightarrow> bytes option" where
  "DecodeString s =
     (case all_vals (filter (\<lambda>c. \<not> crlf c) s) of None \<Rightarrow> None | Some vs \<Rightarrow> unsextets vs)"

section \<open>Round trip\<close>

lemma of_char_eq_crlf: "crlf c \<longleftrightarrow> (of_char c :: nat) = 10 \<or> (of_char c :: nat) = 13"
proof -
  have "c = CHR 0x0A \<longleftrightarrow> (of_char c :: nat) = of_char (CHR 0x0A)"
    and "c = CHR 0x0D \<longleftrightarrow> (of_char c :: nat) = of_char (CHR 0x0D)"
    by (simp_all only: of_char_eq_iff)
  then show ?thesis by (simp add: crlf_def)
qed

lemma of_char_b64_char:
  "i < 64 \<Longrightarrow> (of_char (b64_char i) :: nat) =
     (if i < 26 then 65 + i else if i < 52 then 97 + (i - 26) else if i < 62 then 48 + (i - 52)
      else if i = 62 then 45 else 95)"
  by (auto simp: b64_char_def)

lemma b64_val_char:
  assumes "i < 64"
  shows "b64_val (b64_char i) = Some i \<and> \<not> crlf (b64_char i)"
  using assms by (auto simp: b64_val_def of_char_eq_crlf of_char_b64_char Let_def)

lemma sextets_small: "\<forall>i \<in> set (sextets bs). i < 64"
proof (induction bs rule: sextets.induct)
  case (2 a)
  then show ?case using unat_byte_lt [of a] by (auto simp del: unat_byte_lt)
next
  case (3 a b)
  have "unat a div 4 < 64" "unat b div 16 < 16"
    using unat_byte_lt [of a] unat_byte_lt [of b] by (auto simp del: unat_byte_lt)
  then show ?case by auto
next
  case (4 a b c bs)
  have "unat a div 4 < 64" "unat b div 16 < 16" "unat c div 64 < 4"
    using unat_byte_lt [of a] unat_byte_lt [of b] unat_byte_lt [of c]
    by (auto simp del: unat_byte_lt)
  with 4 show ?case by auto
qed simp

lemma of_nat_byte_eqI: "n mod 256 = unat b \<Longrightarrow> (of_nat n :: byte) = b"
  by (rule word_unat_eq_iff [THEN iffD2]) (simp add: unat_of_nat)

lemma join_hi: "b < 256 \<Longrightarrow> a div 4 * 4 + (a mod 4 * 16 + b div 16) div 16 = (a :: nat)"
proof -
  assume "b < 256"
  then have "b div 16 < 16" by (simp add: div_less_iff_less_mult)
  then have "(a mod 4 * 16 + b div 16) div 16 = a mod 4" by simp
  then show ?thesis by simp
qed

lemma join_mid: "b < 256 \<Longrightarrow> c < 256 \<Longrightarrow>
    ((a mod 4 * 16 + b div 16) * 16 + (b mod 16 * 4 + c div 64) div 4) mod 256 = (b :: nat)"
proof -
  assume b: "b < 256" and "c < 256"
  then have "c div 64 < 4" by (simp add: div_less_iff_less_mult)
  then have "(b mod 16 * 4 + c div 64) div 4 = b mod 16" by simp
  then have "(a mod 4 * 16 + b div 16) * 16 + (b mod 16 * 4 + c div 64) div 4 = b + a mod 4 * 256"
    by (simp add: algebra_simps)
  then show ?thesis using b by simp
qed

lemma join_lo: "c < 256 \<Longrightarrow> ((b mod 16 * 4 + c div 64) * 64 + c mod 64) mod 256 = (c :: nat)"
proof -
  assume c: "c < 256"
  have "(b mod 16 * 4 + c div 64) * 64 + c mod 64 = c + b mod 16 * 256"
    by (simp add: algebra_simps)
  then show ?thesis using c by simp
qed

lemma unsextets_sextets: "unsextets (sextets bs) = Some bs"
proof (induction bs rule: sextets.induct)
  case (2 a)
  have "unat a div 4 * 4 + unat a mod 4 * 16 div 16 = unat a" by simp
  then show ?case by (simp del: of_nat_add of_nat_mult)
next
  case (3 a b)
  have "unat a div 4 * 4 + (unat a mod 4 * 16 + unat b div 16) div 16 = unat a"
    by (rule join_hi) simp_all
  moreover have "(of_nat ((unat a mod 4 * 16 + unat b div 16) * 16 + unat b mod 16 * 4 div 4) :: byte) = b"
    by (rule of_nat_byte_eqI) (use join_mid [of "unat a" "unat b" 0] in simp)
  ultimately show ?case by (simp del: of_nat_add of_nat_mult)
next
  case (4 a b c bs)
  have 1: "unat a div 4 * 4 + (unat a mod 4 * 16 + unat b div 16) div 16 = unat a"
    by (rule join_hi) simp_all
  have 2: "(of_nat ((unat a mod 4 * 16 + unat b div 16) * 16
      + (unat b mod 16 * 4 + unat c div 64) div 4) :: byte) = b"
    by (rule of_nat_byte_eqI, rule join_mid) simp_all
  have 3: "(of_nat ((unat b mod 16 * 4 + unat c div 64) * 64 + unat c mod 64) :: byte) = c"
    by (rule of_nat_byte_eqI, rule join_lo) simp_all
  from 4 show ?case
    by (simp only: sextets.simps unsextets.simps option.case 1 2 3) simp
qed simp

lemma all_vals_chars: "\<forall>i \<in> set is. i < 64 \<Longrightarrow> all_vals (map b64_char is) = Some is"
  by (induction "is") (auto simp: b64_val_char)

lemma filter_chars: "\<forall>i \<in> set is. i < 64 \<Longrightarrow> filter (\<lambda>c. \<not> crlf c) (map b64_char is) = map b64_char is"
  by (induction "is") (auto simp: b64_val_char)

lemma DecodeString_EncodeToString [simp, codec_simps]: "DecodeString (EncodeToString bs) = Some bs"
  by (simp add: DecodeString_def EncodeToString_def filter_chars sextets_small all_vals_chars
      unsextets_sextets)

lemma EncodeToString_inject [simp]: "EncodeToString a = EncodeToString b \<longleftrightarrow> a = b"
  by (metis DecodeString_EncodeToString option.inject)

lemma all_vals_None: "c \<in> set s \<Longrightarrow> b64_val c = None \<Longrightarrow> all_vals s = None"
  by (induction s) (auto split: option.splits)

lemma DecodeString_refuses:
  "c \<in> set s \<Longrightarrow> b64_val c = None \<Longrightarrow> \<not> crlf c \<Longrightarrow> DecodeString s = None"
  by (simp add: DecodeString_def all_vals_None [of c])

lemma length_sextets: "length (sextets bs) = (length bs * 4 + 2) div 3"
  by (induction bs rule: sextets.induct) auto

end
