(* ===== verification/Handler.thy ===== *)
theory Handler
  imports MemoryBackend Storage UserPresence Attestation
begin

text \<open>
  The \<open>Handler\<close> of \<^verbatim>\<open>ctap2/ctap2.go\<close> and the code its methods share: the state, the probing of
  credential IDs with a dummy signature, the saving of resident credentials and the construction
  of authenticator data. \<open>Env\<close> collects what the handler calls but does not own: the signer backend,
  the CBOR and JSON codecs and the elliptic-curve functions.
\<close>

section \<open>State\<close>

record EcdhKey =
  ek_D :: nat
  ek_X :: nat
  ek_Y :: nat

record assertionState =
  as_credentials :: "CredentialMetadata list"
  as_currentIndex :: nat
  as_rpIDHash :: bytes
  as_clientDataHash :: bytes
  as_extensionsInput :: "(string \<times> goval) list option"

text \<open>
  The last three fields are the file system, \<^verbatim>\<open>crypto/rand\<close> and the clock the methods read.
\<close>

record 's Handler =
  h_signer :: 's
  h_presence :: Presence
  h_storage :: "CredentialStorage option"
  h_aaguid :: bytes
  h_ecdhKey :: "EcdhKey option"
  h_assertionState :: "assertionState option"
  h_fs :: FS
  h_rng :: Rng
  h_now :: int

record 's Env =
  e_signer :: "'s Signer"
  e_cbor :: Cbor
  e_json :: JsonCodec
  e_crypto :: Crypto

definition NewHandler ::
  "'s \<Rightarrow> Presence \<Rightarrow> CredentialStorage option \<Rightarrow> FS \<Rightarrow> Rng \<Rightarrow> int \<Rightarrow> 's Handler" where
  "NewHandler signer presence storage fs rng now =
     \<lparr>h_signer = signer, h_presence = presence, h_storage = storage,
      h_aaguid = take 16 (sha256 (str_bytes ''tpm-fido-prf'')), h_ecdhKey = None,
      h_assertionState = None, h_fs = fs, h_rng = rng, h_now = now\<rparr>"

definition AAGUID :: "'s Handler \<Rightarrow> bytes" where
  "AAGUID h = h_aaguid h"

section \<open>Calls of the signer\<close>

definition sign ::
  "'s Env \<Rightarrow> bytes \<Rightarrow> bytes \<Rightarrow> bytes \<Rightarrow> 's Handler \<Rightarrow> bytes res \<times> 's Handler" where
  "sign E keyHandle appParam digest h =
     (case SignASN1 (e_signer E) keyHandle appParam digest (h_signer h) of
        (r, s) \<Rightarrow> (r, h\<lparr>h_signer := s\<rparr>))"

definition register_key :: "'s Env \<Rightarrow> bytes \<Rightarrow> 's Handler \<Rightarrow> (bytes \<times> nat \<times> nat) res \<times> 's Handler" where
  "register_key E appParam h =
     (case RegisterKey (e_signer E) appParam (h_signer h) of (r, s) \<Rightarrow> (r, h\<lparr>h_signer := s\<rparr>))"

definition next_counter :: "'s Env \<Rightarrow> 's Handler \<Rightarrow> 32 word \<times> 's Handler" where
  "next_counter E h =
     (case Counter (e_signer E) (h_signer h) of (n, s) \<Rightarrow> (n, h\<lparr>h_signer := s\<rparr>))"

definition cred_random :: "'s Env \<Rightarrow> bytes \<Rightarrow> 's Handler \<Rightarrow> bytes res \<times> 's Handler" where
  "cred_random E credentialID h =
     (case DeriveCredRandom (e_signer E) credentialID (h_signer h) of
        (r, s) \<Rightarrow> (r, h\<lparr>h_signer := s\<rparr>))"

text \<open>
  The probing loops sign \<^verbatim>\<open>sha256(msg)\<close> with each candidate; \<open>ident\<close> selects the credential ID.
  \<open>first_valid\<close> breaks at the first candidate that signs, \<open>all_valid\<close> keeps all that do.
\<close>

fun first_valid ::
  "'s Env \<Rightarrow> string \<Rightarrow> bytes \<Rightarrow> ('c \<Rightarrow> bytes) \<Rightarrow> 'c list \<Rightarrow> 's Handler \<Rightarrow> 'c option res \<times> 's Handler" where
  "first_valid E msg rpIDHash ident [] h = (Ok None, h)"
| "first_valid E msg rpIDHash ident (c # cs) h =
     (case sign E (ident c) rpIDHash (sha256 (str_bytes msg)) h of
        (Ok _, h1) \<Rightarrow> (Ok (Some c), h1)
      | (Err _, h1) \<Rightarrow> first_valid E msg rpIDHash ident cs h1
      | (Panic m, h1) \<Rightarrow> (Panic m, h1))"

fun all_valid ::
  "'s Env \<Rightarrow> string \<Rightarrow> bytes \<Rightarrow> ('c \<Rightarrow> bytes) \<Rightarrow> 'c list \<Rightarrow> 's Handler \<Rightarrow> 'c list res \<times> 's Handler" where
  "all_valid E msg rpIDHash ident [] h = (Ok [], h)"
| "all_valid E msg rpIDHash ident (c # cs) h =
     (case sign E (ident c) rpIDHash (sha256 (str_bytes msg)) h of
        (Ok _, h1) \<Rightarrow> and_then (all_valid E msg rpIDHash ident cs h1) (\<lambda>l h2. (Ok (c # l), h2))
      | (Err _, h1) \<Rightarrow> all_valid E msg rpIDHash ident cs h1
      | (Panic m, h1) \<Rightarrow> (Panic m, h1))"

section \<open>Shared steps\<close>

text \<open>Saving a resident credential: a failing \<^verbatim>\<open>Save\<close> is logged and ignored.\<close>

definition save_resident :: "'s Env \<Rightarrow> bool \<Rightarrow> CredentialMetadata \<Rightarrow> 's Handler \<Rightarrow> 's Handler" where
  "save_resident E residentKey cred h =
     (case h_storage h of
        Some cs \<Rightarrow>
          if residentKey
          then (case Save (e_json E) cred cs (h_fs h) of
                  (_, cs1, fs1) \<Rightarrow> h\<lparr>h_storage := Some cs1, h_fs := fs1\<rparr>)
          else h
      | None \<Rightarrow> h)"

text \<open>
  The authenticator data of a new credential: flags UP, UV and AT, ED when \<^verbatim>\<open>hmac-secret\<close> was
  requested; an error only when the COSE key does not encode.
\<close>

definition registration_auth_data ::
  "'s Env \<Rightarrow> bytes \<Rightarrow> bytes \<Rightarrow> nat \<Rightarrow> nat \<Rightarrow> bool \<Rightarrow> 's Handler \<Rightarrow> bytes res \<times> 's Handler" where
  "registration_auth_data E rpIDHash credentialID x y hmacSecret h =
     (case BuildCOSEPublicKeyES256 (e_cbor E) x y of
        Inl e \<Rightarrow> (Err e, h)
      | Inr coseKey \<Rightarrow>
          let extensionsOutput =
                (if hmacSecret
                 then marshal_ignoring_err (e_cbor E) (GMapStr [(''hmac-secret'', GBool True)]) else []);
              flags0 = FlagUserPresent OR FlagUserVerified OR FlagAttestedCredData;
              flags = (if hmacSecret then flags0 OR FlagExtensionData else flags0)
          in (case next_counter E h of
                (n, h1) \<Rightarrow>
                  (Ok (MarshalAuthData
                         \<lparr>ad_RPIDHash = rpIDHash, ad_Flags = flags, ad_SignCount = n,
                          ad_Attested = Some \<lparr>acd_AAGUID = h_aaguid h, acd_CredentialID = credentialID,
                                              acd_CredentialPublicKey = coseKey\<rparr>,
                          ad_Extensions = extensionsOutput\<rparr>), h1)))"

text \<open>The attestation signature over \<^verbatim>\<open>authData || clientDataHash\<close> with the embedded key.\<close>

definition attest :: "'s Env \<Rightarrow> bytes \<Rightarrow> bytes \<Rightarrow> 's Handler \<Rightarrow> bytes res \<times> 's Handler" where
  "attest E authDataBytes clientDataHash h =
     (case ecdsaSignASN1 (e_crypto E) attestation_key (sha256 (authDataBytes @ clientDataHash)) (h_rng h) of
        (Inl e, r) \<Rightarrow> (Err e, h\<lparr>h_rng := r\<rparr>)
      | (Inr sig, r) \<Rightarrow> (Ok sig, h\<lparr>h_rng := r\<rparr>))"

definition attestation_statement :: "bytes \<Rightarrow> (string \<times> goval) list" where
  "attestation_statement sig =
     [(''alg'', GInt COSEAlgES256), (''sig'', GBytes sig), (''x5c'', GList [GBytes CertDer])]"

text \<open>
  The authenticator data of an assertion and its signature; the extension output is present when
  it is not empty.
\<close>

definition assertion_auth_data ::
  "'s Env \<Rightarrow> bytes \<Rightarrow> bool \<Rightarrow> bytes \<Rightarrow> 's Handler \<Rightarrow> bytes \<times> 's Handler" where
  "assertion_auth_data E rpIDHash extFlag extensionsOutput h =
     (let flags0 = FlagUserPresent OR FlagUserVerified;
          flags = (if extFlag then flags0 OR FlagExtensionData else flags0)
      in case next_counter E h of
           (n, h1) \<Rightarrow>
             (MarshalAuthData
                \<lparr>ad_RPIDHash = rpIDHash, ad_Flags = flags, ad_SignCount = n, ad_Attested = None,
                 ad_Extensions = extensionsOutput\<rparr>, h1))"

lemma attestation_key_range: "0 < attestation_key \<and> attestation_key < p256_order"
  by (simp add: attestation_key_def init_PrivateKey_value p256_order_def)

lemmas signer_calls = sign_def register_key_def next_counter_def cred_random_def

text \<open>What the shared steps leave alone.\<close>

definition same_but_signer :: "'s Handler \<Rightarrow> 's Handler \<Rightarrow> bool" where
  "same_but_signer h h' \<longleftrightarrow> (\<exists>s. h' = h\<lparr>h_signer := s\<rparr>)"

lemma sign_same: "sign E k a d h = (r, h') \<Longrightarrow> same_but_signer h h'"
  by (auto simp: sign_def same_but_signer_def split: prod.splits)

lemma same_but_signer_refl [simp]: "same_but_signer h h"
  unfolding same_but_signer_def by (rule exI [of _ "h_signer h"]) simp

lemma same_but_signer_trans: "same_but_signer h h1 \<Longrightarrow> same_but_signer h1 h2 \<Longrightarrow> same_but_signer h h2"
  by (auto simp: same_but_signer_def)

lemma same_but_signer_fields:
  "same_but_signer h h' \<Longrightarrow> h_storage h' = h_storage h \<and> h_aaguid h' = h_aaguid h \<and> h_fs h' = h_fs h \<and>
     h_presence h' = h_presence h \<and> h_rng h' = h_rng h \<and> h_ecdhKey h' = h_ecdhKey h \<and>
     h_assertionState h' = h_assertionState h \<and> h_now h' = h_now h"
  by (auto simp: same_but_signer_def)

lemma first_valid_same: "first_valid E msg a f cs h = (r, h') \<Longrightarrow> same_but_signer h h'"
proof (induction cs arbitrary: h)
  case (Cons c cs)
  obtain q h1 where s: "sign E (f c) a (sha256 (str_bytes msg)) h = (q, h1)" by fastforce
  with Cons show ?case
    by (cases q) (auto dest: sign_same intro: same_but_signer_trans)
qed simp

lemma all_valid_same: "all_valid E msg a f cs h = (r, h') \<Longrightarrow> same_but_signer h h'"
proof (induction cs arbitrary: h r h')
  case (Cons c cs)
  obtain q h1 where s: "sign E (f c) a (sha256 (str_bytes msg)) h = (q, h1)" by fastforce
  obtain p h2 where a: "all_valid E msg a f cs h1 = (p, h2)" by fastforce
  from Cons.IH [OF a] sign_same [OF s] have "same_but_signer h h2" by (rule same_but_signer_trans [rotated])
  with s a Cons.prems sign_same [OF s] show ?case
    by (cases q; cases p) auto
qed simp

section \<open>Handlers over a backend that keeps the contract\<close>

lemma save_resident_fields [simp]:
  "h_signer (save_resident E rk c h) = h_signer h" "h_aaguid (save_resident E rk c h) = h_aaguid h"
  "h_rng (save_resident E rk c h) = h_rng h" "h_presence (save_resident E rk c h) = h_presence h"
  "h_ecdhKey (save_resident E rk c h) = h_ecdhKey h" "h_now (save_resident E rk c h) = h_now h"
  "h_assertionState (save_resident E rk c h) = h_assertionState h"
  by (simp_all add: save_resident_def split: option.split prod.split)

lemma save_resident_storage:
  "h_storage (save_resident E rk c h) =
     (case h_storage h of None \<Rightarrow> None
      | Some cs \<Rightarrow> Some (if rk then fst (snd (Save (e_json E) c cs (h_fs h))) else cs))"
  by (auto simp: save_resident_def split: option.split prod.split)

context signer_contract
begin

lemma sign_grows:
  assumes "e_signer E = S" "inv (h_signer h)" "sign E k a d h = (r, h')"
  shows "grows inv knows (h_signer h) (h_signer h') \<and> \<not> is_panic r"
  using assms sign_keeps [of "h_signer h" k a d] by (auto simp: sign_def grows_def split: prod.splits)

lemma sign_known_verifies:
  assumes "e_signer E = S" "inv (h_signer h)" "knows (h_signer h) k a x y" "sign E k a d h = (r, h')" "length d = 32"
  shows "\<exists>sig. r = Ok sig \<and> verify x y d sig"
  using assms sign_known_ok [of "h_signer h" k a x y d] by (auto simp: sign_def split: prod.splits)

lemma counter_grows:
  assumes "e_signer E = S" "inv (h_signer h)" "next_counter E h = (n, h')"
  shows "grows inv knows (h_signer h) (h_signer h')"
  using assms counter_keeps [of "h_signer h"] by (auto simp: next_counter_def grows_def split: prod.splits)

lemma cred_random_grows:
  assumes "e_signer E = S" "inv (h_signer h)" "cred_random E c h = (r, h')"
  shows "grows inv knows (h_signer h) (h_signer h') \<and> \<not> is_panic r"
  using assms derive_keeps [of "h_signer h" c] by (auto simp: cred_random_def grows_def split: prod.splits)

lemma register_grows:
  assumes "e_signer E = S" "inv (h_signer h)" "register_key E a h = (r, h')"
  shows "grows inv knows (h_signer h) (h_signer h') \<and> \<not> is_panic r \<and>
    (\<forall>k x y. r = Ok (k, x, y) \<longrightarrow> knows (h_signer h') k a x y)"
  using assms register_keeps [of "h_signer h" a] register_knows [of "h_signer h" a]
  by (auto simp: register_key_def grows_def split: prod.splits)

text \<open>The probing loop never misses a credential the backend knows.\<close>

lemma first_valid_contract:
  assumes "e_signer E = S" "inv (h_signer h)" "first_valid E msg a f cs h = (r, h')"
  shows "grows inv knows (h_signer h) (h_signer h') \<and>
    (\<exists>found. r = Ok found \<and>
      (case found of None \<Rightarrow> (\<forall>c \<in> set cs. \<forall>x y. \<not> knows (h_signer h) (f c) a x y)
       | Some c \<Rightarrow> c \<in> set cs))"
  using assms(2,3)
proof (induction cs arbitrary: h)
  case Nil
  then show ?case by (auto simp: grows_def)
next
  case (Cons c cs)
  obtain q h1 where s: "sign E (f c) a (sha256 (str_bytes msg)) h = (q, h1)" by fastforce
  note g = sign_grows [OF assms(1) Cons.prems(1) s]
  show ?case
  proof (cases q)
    case (Ok sig)
    with s g Cons.prems(2) show ?thesis by auto
  next
    case (Err e)
    with s Cons.prems(2) have f: "first_valid E msg a f cs h1 = (r, h')" by simp
    from g have "inv (h_signer h1)" by (simp add: grows_def)
    note ih = Cons.IH [OF this f]
    have n: "\<not> knows (h_signer h) (f c) a x y" for x y
      using sign_known_verifies [OF assms(1) Cons.prems(1) _ s] Err by fastforce
    have k: "knows (h_signer h1) c' a' x y" if "knows (h_signer h) c' a' x y" for c' a' x y
      using g that by (simp add: grows_def)
    show ?thesis using ih g n k by (fastforce intro: grows_trans split: option.splits)
  qed (use g in simp)
qed

end

section \<open>A concrete handler\<close>

text \<open>The memory backend with the concrete cryptography and codecs of the witnesses.\<close>

definition env0 :: "Mem Env" where
  "env0 = \<lparr>e_signer = mem_signer crypto0, e_cbor = cbor0, e_json = codec0, e_crypto = crypto0\<rparr>"

definition presence0 :: "(wait_outcome \<times> bool) list \<Rightarrow> Presence" where
  "presence0 evs = \<lparr>pr_up = \<lparr>activeRequest = None, confirmMethod = 0, up_fresh = 0\<rparr>, pr_script = evs, pr_cleared = []\<rparr>"

definition fs0 :: FS where
  "fs0 = \<lparr>files = Map.empty, faults = []\<rparr>"

definition handler0 :: "Mem Handler" where
  "handler0 = NewHandler mem0 (presence0 []) (Some (empty_storage ''p'')) fs0 rng0 0"

end
