(* ===== verification/Aes.thy ===== *)
theory Aes
  imports Prelude
begin

text \<open>
  The part of \<^verbatim>\<open>crypto/aes\<close> and \<^verbatim>\<open>crypto/cipher\<close> the program uses: AES-256 (FIPS 197) on blocks of
  16 bytes in column order, and CBC mode. CBC is proved invertible for any block cipher
  (locale \<open>block_cipher\<close>), and AES is shown to be one.
\<close>

unbundle bit_operations_syntax

section \<open>The S-box and its inverse\<close>

definition sbox_rows :: "nat list list" where
  "sbox_rows =
     [[99, 124, 119, 123, 242, 107, 111, 197, 48, 1, 103, 43, 254, 215, 171, 118],
      [202, 130, 201, 125, 250, 89, 71, 240, 173, 212, 162, 175, 156, 164, 114, 192],
      [183, 253, 147, 38, 54, 63, 247, 204, 52, 165, 229, 241, 113, 216, 49, 21],
      [4, 199, 35, 195, 24, 150, 5, 154, 7, 18, 128, 226, 235, 39, 178, 117],
      [9, 131, 44, 26, 27, 110, 90, 160, 82, 59, 214, 179, 41, 227, 47, 132],
      [83, 209, 0, 237, 32, 252, 177, 91, 106, 203, 190, 57, 74, 76, 88, 207],
      [208, 239, 170, 251, 67, 77, 51, 133, 69, 249, 2, 127, 80, 60, 159, 168],
      [81, 163, 64, 143, 146, 157, 56, 245, 188, 182, 218, 33, 16, 255, 243, 210],
      [205, 12, 19, 236, 95, 151, 68, 23, 196, 167, 126, 61, 100, 93, 25, 115],
      [96, 129, 79, 220, 34, 42, 144, 136, 70, 238, 184, 20, 222, 94, 11, 219],
      [224, 50, 58, 10, 73, 6, 36, 92, 194, 211, 172, 98, 145, 149, 228, 121],
      [231, 200, 55, 109, 141, 213, 78, 169, 108, 86, 244, 234, 101, 122, 174, 8],
      [186, 120, 37, 46, 28, 166, 180, 198, 232, 221, 116, 31, 75, 189, 139, 138],
      [112, 62, 181, 102, 72, 3, 246, 14, 97, 53, 87, 185, 134, 193, 29, 158],
      [225, 248, 152, 17, 105, 217, 142, 148, 155, 30, 135, 233, 206, 85, 40, 223],
      [140, 161, 137, 13, 191, 230, 66, 104, 65, 153, 45, 15, 176, 84, 187, 22]]"

definition inv_sbox_rows :: "nat list list" where
  "inv_sbox_rows =
     [[82, 9, 106, 213, 48, 54, 165, 56, 191, 64, 163, 158, 129, 243, 215, 251],
      [124, 227, 57, 130, 155, 47, 255, 135, 52, 142, 67, 68, 196, 222, 233, 203],
      [84, 123, 148, 50, 166, 194, 35, 61, 238, 76, 149, 11, 66, 250, 195, 78],
      [8, 46, 161, 102, 40, 217, 36, 178, 118, 91, 162, 73, 109, 139, 209, 37],
      [114, 248, 246, 100, 134, 104, 152, 22, 212, 164, 92, 204, 93, 101, 182, 146],
      [108, 112, 72, 80, 253, 237, 185, 218, 94, 21, 70, 87, 167, 141, 157, 132],
      [144, 216, 171, 0, 140, 188, 211, 10, 247, 228, 88, 5, 184, 179, 69, 6],
      [208, 44, 30, 143, 202, 63, 15, 2, 193, 175, 189, 3, 1, 19, 138, 107],
      [58, 145, 17, 65, 79, 103, 220, 234, 151, 242, 207, 206, 240, 180, 230, 115],
      [150, 172, 116, 34, 231, 173, 53, 133, 226, 249, 55, 232, 28, 117, 223, 110],
      [71, 241, 26, 113, 29, 41, 197, 137, 111, 183, 98, 14, 170, 24, 190, 27],
      [252, 86, 62, 75, 198, 210, 121, 32, 154, 219, 192, 254, 120, 205, 90, 244],
      [31, 221, 168, 51, 136, 7, 199, 49, 177, 18, 16, 89, 39, 128, 236, 95],
      [96, 81, 127, 169, 25, 181, 74, 13, 45, 229, 122, 159, 147, 201, 156, 239],
      [160, 224, 59, 77, 174, 42, 245, 176, 200, 235, 187, 60, 131, 83, 153, 97],
      [23, 43, 4, 126, 186, 119, 214, 38, 225, 105, 20, 99, 85, 33, 12, 125]]"

definition look :: "nat list list \<Rightarrow> nat \<Rightarrow> nat" where
  "look t i = t ! (i div 16) ! (i mod 16)"


definition sbox :: "byte \<Rightarrow> byte" where
  "sbox a = of_nat (look sbox_rows (unat a))"

definition inv_sbox :: "byte \<Rightarrow> byte" where
  "inv_sbox a = of_nat (look inv_sbox_rows (unat a))"

lemma nat_below_16:
  "(r :: nat) < 16 \<Longrightarrow> r = 0 \<or> r = 1 \<or> r = 2 \<or> r = 3 \<or> r = 4 \<or> r = 5 \<or> r = 6 \<or> r = 7 \<or> r = 8 \<or>
     r = 9 \<or> r = 10 \<or> r = 11 \<or> r = 12 \<or> r = 13 \<or> r = 14 \<or> r = 15"
  by arith

lemma inv_rows:
  assumes "r < 16"
  shows "map (look inv_sbox_rows) (sbox_rows ! r) = map (\<lambda>c. 16 * r + c) [0, 1, 2, 3, 4, 5, 6, 7, 8, 9, 10, 11, 12, 13, 14, 15]"
    "list_all (\<lambda>v. v < 256) (sbox_rows ! r)" "length (sbox_rows ! r) = 16"
proof -
  from nat_below_16 [OF assms]
  show "map (look inv_sbox_rows) (sbox_rows ! r) =
      map (\<lambda>c. 16 * r + c) [0, 1, 2, 3, 4, 5, 6, 7, 8, 9, 10, 11, 12, 13, 14, 15]"
    by (elim disjE; simp add: look_def inv_sbox_rows_def sbox_rows_def)
  from nat_below_16 [OF assms]
  show "list_all (\<lambda>v. v < 256) (sbox_rows ! r)" by (elim disjE; simp add: sbox_rows_def)
  from nat_below_16 [OF assms]
  show "length (sbox_rows ! r) = 16" by (elim disjE; simp add: sbox_rows_def)
qed

lemma upt_16: "[0..<16] = [0, 1, 2, 3, 4, 5, 6, 7, 8, 9, 10, 11, 12, 13, 14, 15 :: nat]"
  by (simp add: upt_rec)

lemma look_inverse:
  assumes "i < 256"
  shows "look inv_sbox_rows (look sbox_rows i) = i" "look sbox_rows i < 256"
proof -
  let ?r = "i div 16" and ?c = "i mod 16"
  have r: "?r < 16" and c: "?c < 16" using assms by (simp_all add: div_less_iff_less_mult)
  from inv_rows(1) [OF r] have "map (look inv_sbox_rows) (sbox_rows ! ?r) ! ?c = map (\<lambda>c. 16 * ?r + c) [0..<16] ! ?c"
    by (simp only: upt_16)
  with c inv_rows(3) [OF r] show "look inv_sbox_rows (look sbox_rows i) = i"
    by (simp add: look_def [of sbox_rows])
  from inv_rows(2,3) [OF r] c show "look sbox_rows i < 256"
    by (simp add: look_def list_all_length)
qed

lemma inv_sbox_sbox [simp]: "inv_sbox (sbox a) = a"
  using look_inverse [of "unat a"] unat_byte_lt [of a]
  by (simp add: inv_sbox_def sbox_def unat_of_nat_byte)

section \<open>The round functions\<close>

definition xtime :: "byte \<Rightarrow> byte" where
  "xtime a = push_bit 1 a XOR (if bit a 7 then 0x1B else 0)"

definition xor_bytes :: "bytes \<Rightarrow> bytes \<Rightarrow> bytes" where
  "xor_bytes a b = map2 (XOR) a b"

definition ShiftRows :: "bytes \<Rightarrow> bytes" where
  "ShiftRows s = map (\<lambda>i. s ! (5 * i mod 16)) [0..<16]"

definition InvShiftRows :: "bytes \<Rightarrow> bytes" where
  "InvShiftRows s = map (\<lambda>i. s ! (13 * i mod 16)) [0..<16]"

fun MixColumns :: "bytes \<Rightarrow> bytes" where
  "MixColumns (a # b # c # d # s) =
     (xtime a XOR (xtime b XOR b) XOR c XOR d) #
     (a XOR xtime b XOR (xtime c XOR c) XOR d) #
     (a XOR b XOR xtime c XOR (xtime d XOR d)) #
     ((xtime a XOR a) XOR b XOR c XOR xtime d) # MixColumns s"
| "MixColumns s = s"

definition mul9 :: "byte \<Rightarrow> byte" where "mul9 a = xtime (xtime (xtime a)) XOR a"
definition mul11 :: "byte \<Rightarrow> byte" where "mul11 a = xtime (xtime (xtime a)) XOR xtime a XOR a"
definition mul13 :: "byte \<Rightarrow> byte" where "mul13 a = xtime (xtime (xtime a)) XOR xtime (xtime a) XOR a"
definition mul14 :: "byte \<Rightarrow> byte" where
  "mul14 a = xtime (xtime (xtime a)) XOR xtime (xtime a) XOR xtime a"

fun InvMixColumns :: "bytes \<Rightarrow> bytes" where
  "InvMixColumns (a # b # c # d # s) =
     (mul14 a XOR mul11 b XOR mul13 c XOR mul9 d) #
     (mul9 a XOR mul14 b XOR mul11 c XOR mul13 d) #
     (mul13 a XOR mul9 b XOR mul14 c XOR mul11 d) #
     (mul11 a XOR mul13 b XOR mul9 c XOR mul14 d) # InvMixColumns s"
| "InvMixColumns s = s"

lemma bit_xtime_7: "bit (a XOR b) 7 \<longleftrightarrow> bit a 7 \<noteq> bit (b :: byte) 7"
  by (simp add: bit_xor_iff)

lemma xtime_xor: "xtime (a XOR b) = xtime a XOR xtime b"
  by (simp add: xtime_def bit_xtime_7 push_bit_xor ac_simps)

lemma xor_cancel: "(a :: byte) XOR (a XOR b) = b"
  by (simp add: xor.assoc [symmetric])

lemmas xor_ac = xor.assoc xor.commute xor.left_commute xor_cancel xor_self_eq xor.left_neutral xor.right_neutral

lemma mul_xor:
  "mul9 (a XOR b) = mul9 a XOR mul9 b" "mul11 (a XOR b) = mul11 a XOR mul11 b"
  "mul13 (a XOR b) = mul13 a XOR mul13 b" "mul14 (a XOR b) = mul14 a XOR mul14 b"
  by (simp_all only: mul9_def mul11_def mul13_def mul14_def xtime_xor xor_ac)

text \<open>The product of the two circulant matrices, one coefficient at a time.\<close>

lemma mix_coeffs:
  "mul14 (xtime a) XOR mul11 a XOR mul13 a XOR mul9 (xtime a) XOR mul9 a = a"
  "mul14 (xtime b) XOR mul14 b XOR mul11 (xtime b) XOR mul13 b XOR mul9 b = 0"
  "mul14 c XOR mul11 (xtime c) XOR mul11 c XOR mul13 (xtime c) XOR mul9 c = 0"
  "mul14 d XOR mul11 d XOR mul13 (xtime d) XOR mul13 d XOR mul9 (xtime d) = 0"
  by (simp_all only: mul9_def mul11_def mul13_def mul14_def xtime_xor xor_ac)

lemma regroup:
  fixes a1 :: byte
  shows "(a1 XOR (b1 XOR b2) XOR c1 XOR d1) XOR (a2 XOR b3 XOR (c2 XOR c3) XOR d2) XOR
     (a3 XOR b4 XOR c4 XOR (d3 XOR d4)) XOR ((a4 XOR a5) XOR b5 XOR c5 XOR d5) =
     (a1 XOR a2 XOR a3 XOR a4 XOR a5) XOR (b1 XOR b2 XOR b3 XOR b4 XOR b5) XOR
     (c1 XOR c2 XOR c3 XOR c4 XOR c5) XOR (d1 XOR d2 XOR d3 XOR d4 XOR d5)"
  by (simp only: xor.assoc xor.commute xor.left_commute)

lemma mix_row:
  "mul14 (xtime a XOR (xtime b XOR b) XOR c XOR d) XOR
   mul11 (a XOR xtime b XOR (xtime c XOR c) XOR d) XOR
   mul13 (a XOR b XOR xtime c XOR (xtime d XOR d)) XOR
   mul9 ((xtime a XOR a) XOR b XOR c XOR xtime d) = a"
  by (simp only: mul_xor regroup mix_coeffs xor.right_neutral)

lemma mix_rows:
  fixes a b c d :: byte
  defines "r0 \<equiv> xtime a XOR (xtime b XOR b) XOR c XOR d"
    and "r1 \<equiv> a XOR xtime b XOR (xtime c XOR c) XOR d"
    and "r2 \<equiv> a XOR b XOR xtime c XOR (xtime d XOR d)"
    and "r3 \<equiv> (xtime a XOR a) XOR b XOR c XOR xtime d"
  shows "mul14 r0 XOR mul11 r1 XOR mul13 r2 XOR mul9 r3 = a"
    "mul9 r0 XOR mul14 r1 XOR mul11 r2 XOR mul13 r3 = b"
    "mul13 r0 XOR mul9 r1 XOR mul14 r2 XOR mul11 r3 = c"
    "mul11 r0 XOR mul13 r1 XOR mul9 r2 XOR mul14 r3 = d"
  using mix_row [of a b c d] mix_row [of b c d a] mix_row [of c d a b] mix_row [of d a b c]
  unfolding r0_def r1_def r2_def r3_def
  by (simp_all only: xor.assoc xor.commute xor.left_commute)

lemma InvMixColumns_MixColumns: "InvMixColumns (MixColumns s) = s"
proof (induction s rule: MixColumns.induct)
  case (1 a b c d s)
  then show ?case by (simp only: MixColumns.simps InvMixColumns.simps mix_rows)
qed simp_all

lemma length_MixColumns [simp]: "length (MixColumns s) = length s"
  by (induction s rule: MixColumns.induct) simp_all

lemma length_ShiftRows [simp]: "length (ShiftRows s) = 16"
  by (simp add: ShiftRows_def)

lemma InvShiftRows_ShiftRows: "length s = 16 \<Longrightarrow> InvShiftRows (ShiftRows s) = s"
proof (rule nth_equalityI)
  fix i assume "length s = 16" "i < length (InvShiftRows (ShiftRows s))"
  then have "i < 16" by (simp add: InvShiftRows_def)
  moreover have "5 * (13 * i mod 16) mod 16 = i mod 16"
  proof -
    have "5 * (13 * i mod 16) mod 16 = (i + 16 * (4 * i)) mod 16"
      by (simp add: mod_mult_right_eq)
    then show ?thesis by (simp only: mod_mult_self2)
  qed
  ultimately show "InvShiftRows (ShiftRows s) ! i = s ! i"
    by (simp add: InvShiftRows_def ShiftRows_def)
qed (simp add: InvShiftRows_def)

lemma length_xor_bytes [simp]: "length (xor_bytes a b) = min (length a) (length b)"
  by (simp add: xor_bytes_def)

lemma xor_bytes_twice: "length a = length k \<Longrightarrow> xor_bytes (xor_bytes a k) k = a"
  by (rule nth_equalityI) (simp_all add: xor_bytes_def xor.assoc)

section \<open>Key expansion and the cipher\<close>

definition Rcon :: "nat \<Rightarrow> byte" where
  "Rcon i = (xtime ^^ (i - 1)) 1"

definition next_word :: "bytes list \<Rightarrow> bytes" where
  "next_word w =
     (let i = length w;
          temp = w ! (i - 1);
          temp' = (if i mod 8 = 0
                   then xor_bytes (map sbox (rotate1 temp)) [Rcon (i div 8), 0, 0, 0]
                   else if i mod 8 = 4 then map sbox temp else temp)
      in xor_bytes (w ! (i - 8)) temp')"

fun expand :: "nat \<Rightarrow> bytes list \<Rightarrow> bytes list" where
  "expand 0 w = w"
| "expand (Suc n) w = expand n (w @ [next_word w])"

definition key_words :: "bytes \<Rightarrow> bytes list" where
  "key_words key = map (\<lambda>i. take 4 (drop (4 * i) key)) [0..<8]"

text \<open>Fifteen round keys of sixteen bytes (\<open>Nr = 14\<close>).\<close>

definition round_key :: "bytes list \<Rightarrow> nat \<Rightarrow> bytes" where
  "round_key w r = w ! (4 * r) @ w ! (4 * r + 1) @ w ! (4 * r + 2) @ w ! (4 * r + 3)"

definition enc_round :: "bytes \<Rightarrow> bytes \<Rightarrow> bytes" where
  "enc_round k s = xor_bytes (MixColumns (ShiftRows (map sbox s))) k"

definition dec_round :: "bytes \<Rightarrow> bytes \<Rightarrow> bytes" where
  "dec_round k s = map inv_sbox (InvShiftRows (InvMixColumns (xor_bytes s k)))"

definition aes_encrypt :: "bytes \<Rightarrow> bytes \<Rightarrow> bytes" where
  "aes_encrypt key s =
     (let w = expand 52 (key_words key);
          s1 = fold enc_round (map (round_key w) [1..<14]) (xor_bytes s (round_key w 0))
      in xor_bytes (ShiftRows (map sbox s1)) (round_key w 14))"

definition aes_decrypt :: "bytes \<Rightarrow> bytes \<Rightarrow> bytes" where
  "aes_decrypt key s =
     (let w = expand 52 (key_words key);
          s1 = map inv_sbox (InvShiftRows (xor_bytes s (round_key w 14)))
      in xor_bytes (foldr dec_round (map (round_key w) [1..<14]) s1) (round_key w 0))"

lemma next_word_length:
  assumes "8 \<le> length w" "\<forall>x \<in> set w. length x = 4"
  shows "length (next_word w) = 4"
proof -
  have "w ! (length w - 1) \<in> set w" "w ! (length w - 8) \<in> set w" using assms(1) by (auto intro!: nth_mem)
  with assms(2) have "length (w ! (length w - 1)) = 4" "length (w ! (length w - 8)) = 4" by auto
  then show ?thesis by (simp add: next_word_def Let_def)
qed

lemma expand_shape:
  "8 \<le> length w \<Longrightarrow> \<forall>x \<in> set w. length x = 4 \<Longrightarrow>
   length (expand n w) = n + length w \<and> (\<forall>x \<in> set (expand n w). length x = 4)"
proof (induction n arbitrary: w)
  case (Suc n)
  have 1: "8 \<le> length (w @ [next_word w])" using Suc.prems(1) by simp
  have 2: "\<forall>x \<in> set (w @ [next_word w]). length x = 4"
    using next_word_length [OF Suc.prems] Suc.prems(2) by auto
  from Suc.IH [OF 1 2] show ?case by auto
qed simp

lemma round_key_length:
  assumes "length key = 32" "r < 15"
  shows "length (round_key (expand 52 (key_words key)) r) = 16"
proof -
  let ?w = "expand 52 (key_words key)"
  have "\<forall>x \<in> set (key_words key). length x = 4" "length (key_words key) = 8"
    using assms(1) by (auto simp: key_words_def)
  then have "length ?w = 60" "\<And>i. i < 60 \<Longrightarrow> length (?w ! i) = 4"
    using expand_shape [of "key_words key" 52] by auto
  then show ?thesis using assms(2) by (simp add: round_key_def)
qed

lemma dec_enc_round:
  "length s = 16 \<Longrightarrow> length k = 16 \<Longrightarrow> dec_round k (enc_round k s) = s \<and> length (enc_round k s) = 16"
  by (simp add: dec_round_def enc_round_def xor_bytes_twice InvMixColumns_MixColumns
      InvShiftRows_ShiftRows comp_def)

lemma rounds_inverse:
  "\<forall>k \<in> set ks. length k = 16 \<Longrightarrow> length s = 16 \<Longrightarrow>
   foldr dec_round ks (fold enc_round ks s) = s \<and> length (fold enc_round ks s) = 16"
  by (induction ks arbitrary: s) (simp_all add: dec_enc_round)

section \<open>CBC\<close>

text \<open>
  \<^verbatim>\<open>cipher.NewCBCEncrypter\<close> and \<^verbatim>\<open>NewCBCDecrypter\<close> with \<^verbatim>\<open>CryptBlocks\<close>, which panics when the input
  is not a whole number of blocks.
\<close>

function blocks :: "bytes \<Rightarrow> bytes list" where
  "blocks bs = (if bs = [] then [] else take 16 bs # blocks (drop 16 bs))"
  by pat_completeness auto
termination by (relation "measure length") auto

declare blocks.simps [simp del]

lemma blocks_Nil [simp]: "blocks [] = []"
  by (simp add: blocks.simps [of "[]"])

lemma blocks_Cons: "bs \<noteq> [] \<Longrightarrow> blocks bs = take 16 bs # blocks (drop 16 bs)"
  by (simp add: blocks.simps [of bs])

fun cbc_enc :: "(bytes \<Rightarrow> bytes) \<Rightarrow> bytes \<Rightarrow> bytes list \<Rightarrow> bytes list" where
  "cbc_enc E iv [] = []"
| "cbc_enc E iv (p # ps) = (let c = E (xor_bytes p iv) in c # cbc_enc E c ps)"

fun cbc_dec :: "(bytes \<Rightarrow> bytes) \<Rightarrow> bytes \<Rightarrow> bytes list \<Rightarrow> bytes list" where
  "cbc_dec D iv [] = []"
| "cbc_dec D iv (c # cs) = xor_bytes (D c) iv # cbc_dec D c cs"

definition CryptBlocks :: "(bytes list \<Rightarrow> bytes list) \<Rightarrow> bytes \<Rightarrow> bytes res" where
  "CryptBlocks f src =
     (if length src mod 16 = 0 then Ok (concat (f (blocks src)))
      else Panic ''crypto/cipher: input not full blocks'')"

text \<open>\<^verbatim>\<open>aes.NewCipher\<close> accepts keys of 16, 24 and 32 bytes; the program's are all 32 bytes.\<close>

definition NewCipher :: "bytes \<Rightarrow> gerr option" where
  "NewCipher key =
     (if length key = 16 \<or> length key = 24 \<or> length key = 32 then None
      else Some (ErrMsg (''crypto/aes: invalid key size '' @ show_nat (length key))))"

text \<open>The program's initialisation vector is sixteen zero bytes.\<close>

definition zero_iv :: bytes where
  "zero_iv = replicate 16 0"

definition aes_cbc_encrypt :: "bytes \<Rightarrow> bytes \<Rightarrow> bytes res" where
  "aes_cbc_encrypt key = CryptBlocks (cbc_enc (aes_encrypt key) zero_iv)"

definition aes_cbc_decrypt :: "bytes \<Rightarrow> bytes \<Rightarrow> bytes res" where
  "aes_cbc_decrypt key = CryptBlocks (cbc_dec (aes_decrypt key) zero_iv)"

locale block_cipher =
  fixes valid :: "bytes \<Rightarrow> bool"
    and E :: "bytes \<Rightarrow> bytes \<Rightarrow> bytes"
    and D :: "bytes \<Rightarrow> bytes \<Rightarrow> bytes"
  assumes E_length: "valid k \<Longrightarrow> length b = 16 \<Longrightarrow> length (E k b) = 16"
    and D_E: "valid k \<Longrightarrow> length b = 16 \<Longrightarrow> D k (E k b) = b"
begin

lemma cbc_enc_blocks:
  "valid k \<Longrightarrow> length iv = 16 \<Longrightarrow> \<forall>p \<in> set ps. length p = 16 \<Longrightarrow>
   \<forall>c \<in> set (cbc_enc (E k) iv ps). length c = 16"
proof (induction ps arbitrary: iv)
  case (Cons p ps)
  then have "length (E k (xor_bytes p iv)) = 16" by (simp add: E_length)
  with Cons.IH [OF Cons.prems(1) this] Cons.prems(3) show ?case by (simp add: Let_def)
qed simp

lemma cbc_inverse:
  "valid k \<Longrightarrow> length iv = 16 \<Longrightarrow> \<forall>p \<in> set ps. length p = 16 \<Longrightarrow>
   cbc_dec (D k) iv (cbc_enc (E k) iv ps) = ps"
  by (induction ps arbitrary: iv) (simp_all add: Let_def E_length D_E xor_bytes_twice)

end

lemma blocks_16: "length bs mod 16 = 0 \<Longrightarrow> \<forall>b \<in> set (blocks bs). length b = 16"
proof (induction bs rule: blocks.induct)
  case (1 bs)
  show ?case
  proof (cases "bs = []")
    case False
    with 1(2) have "16 \<le> length bs" by (cases "length bs < 16") auto
    then have "length (drop 16 bs) mod 16 = 0" and t: "length (take 16 bs) = 16"
      using 1(2) le_mod_geq [of 16 "length bs"] by simp_all
    from 1(1) [OF False this(1)] t show ?thesis
      unfolding blocks_Cons [OF False] by (metis set_ConsD)
  qed simp
qed

lemma concat_blocks [simp]: "concat (blocks bs) = bs"
proof (induction bs rule: blocks.induct)
  case (1 bs)
  then show ?case by (cases "bs = []") (simp_all add: blocks_Cons)
qed

lemma blocks_concat: "\<forall>b \<in> set ls. length b = 16 \<Longrightarrow> blocks (concat ls) = ls"
proof (induction ls)
  case (Cons b ls)
  then have "b @ concat ls \<noteq> []" by auto
  with Cons show ?case by (simp add: blocks_Cons)
qed simp

lemma length_cbc_enc [simp]: "length (cbc_enc E iv ps) = length ps"
  by (induction ps arbitrary: iv) (simp_all add: Let_def)

lemma length_concat_16: "\<forall>b \<in> set ls. length b = 16 \<Longrightarrow> length (concat ls) = 16 * length ls"
  by (induction ls) simp_all

interpretation aes: block_cipher "\<lambda>k. length k = 32" aes_encrypt aes_decrypt
proof
  fix k b :: bytes
  assume k: "length k = 32" and b: "length b = 16"
  let ?w = "expand 52 (key_words k)"
  let ?ks = "map (round_key ?w) [1..<14]"
  have ks: "\<forall>r \<in> set ?ks. length r = 16" using round_key_length [OF k] by auto
  have 0: "length (round_key ?w 0) = 16" and l: "length (round_key ?w 14) = 16"
    using round_key_length [OF k] by simp_all
  show "length (aes_encrypt k b) = 16"
    using l by (simp add: aes_encrypt_def Let_def)
  have "length (xor_bytes b (round_key ?w 0)) = 16" using b 0 by simp
  from rounds_inverse [OF ks this] b 0 l show "aes_decrypt k (aes_encrypt k b) = b"
    by (simp add: aes_encrypt_def aes_decrypt_def Let_def xor_bytes_twice InvShiftRows_ShiftRows comp_def)
qed

lemma aes_cbc_roundtrip:
  assumes "length k = 32" "length pt mod 16 = 0"
  shows "\<exists>ct. aes_cbc_encrypt k pt = Ok ct \<and> aes_cbc_decrypt k ct = Ok pt \<and> length ct = length pt"
proof -
  let ?c = "cbc_enc (aes_encrypt k) zero_iv (blocks pt)"
  have iv: "length zero_iv = 16" by (simp add: zero_iv_def)
  from aes.cbc_enc_blocks [OF assms(1) iv blocks_16 [OF assms(2)]]
  have c: "\<forall>b \<in> set ?c. length b = 16" .
  have len: "length (concat ?c) = length pt"
    using length_concat_16 [OF c] length_concat_16 [OF blocks_16 [OF assms(2)]] by simp
  show ?thesis
    using assms aes.cbc_inverse [OF assms(1) iv blocks_16 [OF assms(2)]] len blocks_concat [OF c]
    by (simp add: aes_cbc_encrypt_def aes_cbc_decrypt_def CryptBlocks_def)
qed

end
