(* ===== verification/HmacSecret.thy ===== *)
theory HmacSecret
  imports Handler Aes
begin

text \<open>
  \<^verbatim>\<open>ctap2/hmacsecret.go\<close>: the hmac-secret extension with its ECDH, AES-256-CBC and HMAC steps, the
  ephemeral key, and the direct computation \<open>ComputePRF\<close>. \<^verbatim>\<open>elliptic.ScalarMult\<close> panics on points
  that are not on the curve (Go 1.19 and later, the versions of the repository's CI) and accepts
  \<open>(0, 0)\<close> as the point at infinity.
\<close>

section \<open>P-256 points\<close>

definition p256_p :: nat where
  "p256_p = 2 ^ 256 - 2 ^ 224 + 2 ^ 192 + 2 ^ 96 - 1"

lemma p256_p_num:
  "p256_p = 115792089210356248762697446949407573530086143415290314195533631308867097853951"
  by (simp add: p256_p_def)

definition p256_b :: nat where
  "p256_b = 41058363725152142129326129780047268409114441015993725554835256314039467401291"

definition valid_point :: "nat \<Rightarrow> nat \<Rightarrow> bool" where
  "valid_point x y \<longleftrightarrow>
     x = 0 \<and> y = 0 \<or>
     x < p256_p \<and> y < p256_p \<and> y * y mod p256_p = (x * x * x + (p256_p - 3) * x + p256_b) mod p256_p"

definition ScalarMult :: "Crypto \<Rightarrow> nat \<Rightarrow> nat \<Rightarrow> nat \<Rightarrow> (nat \<times> nat) res" where
  "ScalarMult K x y d =
     (if valid_point x y then Ok (ecScalarMult K d x y)
      else Panic ''crypto/elliptic: attempted operation on invalid point'')"

section \<open>The extension\<close>

text \<open>From the shared secret on: check the authentication tag, decrypt the salts, answer.\<close>

definition hmac_secret_outputs :: "bytes \<Rightarrow> bytes \<Rightarrow> bytes res" where
  "hmac_secret_outputs credRandom salts =
     (if length salts = 32 then Ok (hmac_sha256 credRandom salts)
      else if length salts = 64
      then Ok (hmac_sha256 credRandom (take 32 salts) @ hmac_sha256 credRandom (drop 32 salts))
      else Err (ErrMsg (''invalid salt length: '' @ show_nat (length salts) @ '' (expected 32 or 64)'')))"

definition hmac_secret_answer ::
  "'s Env \<Rightarrow> bytes \<Rightarrow> bytes \<Rightarrow> HmacSecretInput \<Rightarrow> 's Handler \<Rightarrow> bytes res \<times> 's Handler" where
  "hmac_secret_answer E credentialID sharedSecret input h =
     (let expectedSaltAuth = take 16 (hmac_sha256 sharedSecret (hs_SaltEnc input)) in
      if hs_SaltAuth input \<noteq> expectedSaltAuth
      then (Err (ErrMsg ''saltAuth verification failed''), h)
      else
        (case NewCipher sharedSecret of
           Some e \<Rightarrow> (Err (Wrapped ''failed to create AES cipher: '' e), h)
         | None \<Rightarrow>
             and_then (aes_cbc_decrypt sharedSecret (hs_SaltEnc input), h) (\<lambda>salts h0.
               (case cred_random E credentialID h0 of
                  (Err e, h1) \<Rightarrow> (Err (Wrapped ''failed to derive credential random: '' e), h1)
                | (Panic m, h1) \<Rightarrow> (Panic m, h1)
                | (Ok credRandom, h1) \<Rightarrow>
                    and_then (hmac_secret_outputs credRandom salts, h1) (\<lambda>output h2.
                      (aes_cbc_encrypt sharedSecret output, h2))))))"

definition processHmacSecret ::
  "'s Env \<Rightarrow> bytes \<Rightarrow> goval \<Rightarrow> 's Handler \<Rightarrow> bytes res \<times> 's Handler" where
  "processHmacSecret E credentialID hmacSecretRaw h =
     (case cborMarshal (e_cbor E) hmacSecretRaw of
        Inl e \<Rightarrow> (Err (Wrapped ''failed to re-marshal hmac-secret input: '' e), h)
      | Inr rawBytes \<Rightarrow>
          (case unmarshalHmacSecret (e_cbor E) rawBytes of
             Inl e \<Rightarrow> (Err (Wrapped ''failed to parse hmac-secret input: '' e), h)
           | Inr input \<Rightarrow>
               (let ka = hs_KeyAgreement input in
                if ck_Kty ka \<noteq> COSEKeyTypeEC2
                then (Err (ErrMsg ''invalid key type, expected EC2''), h)
                else if ck_Crv ka \<noteq> COSECurveP256
                then (Err (ErrMsg ''invalid curve, expected P-256''), h)
                else
                  (case h_ecdhKey h of
                     None \<Rightarrow> (Err (ErrMsg ''no ECDH key available''), h)
                   | Some ecdhKey \<Rightarrow>
                       and_then
                         (ScalarMult (e_crypto E) (be_nat (ck_X ka)) (be_nat (ck_Y ka)) (ek_D ecdhKey), h)
                         (\<lambda>shared h0.
                            hmac_secret_answer E credentialID (sha256 (padTo32 (nat_bytes (fst shared))))
                              input h0)))))"

definition GenerateECDHKey :: "'s Env \<Rightarrow> 's Handler \<Rightarrow> unit res \<times> 's Handler" where
  "GenerateECDHKey E h =
     (case ecGenerateKey (e_crypto E) (h_rng h) of
        (Inl e, r) \<Rightarrow> (Err (Wrapped ''failed to generate ECDH key: '' e), h\<lparr>h_rng := r\<rparr>)
      | (Inr (priv, x, y), r) \<Rightarrow>
          (Ok (), h\<lparr>h_ecdhKey := Some \<lparr>ek_D = be_nat priv, ek_X = x, ek_Y = y\<rparr>, h_rng := r\<rparr>))"

definition GetECDHPublicKey :: "'s Env \<Rightarrow> 's Handler \<Rightarrow> COSEKey res \<times> 's Handler" where
  "GetECDHPublicKey E h =
     and_then (case h_ecdhKey h of None \<Rightarrow> GenerateECDHKey E h | Some _ \<Rightarrow> (Ok (), h)) (\<lambda>_ h1.
       case h_ecdhKey h1 of
         None \<Rightarrow> (Panic ''nil pointer dereference'', h1)
       | Some k \<Rightarrow>
           (Ok \<lparr>ck_Kty = COSEKeyTypeEC2, ck_Alg = COSEAlgECDH, ck_Crv = COSECurveP256,
                ck_X = padTo32 (nat_bytes (ek_X k)), ck_Y = padTo32 (nat_bytes (ek_Y k))\<rparr>, h1))"

definition ComputePRF ::
  "'s Env \<Rightarrow> bytes \<Rightarrow> bytes \<Rightarrow> bytes \<Rightarrow> 's Handler \<Rightarrow> (bytes \<times> bytes) res \<times> 's Handler" where
  "ComputePRF E credentialID salt1 salt2 h =
     and_then (cred_random E credentialID h) (\<lambda>credRandom h1.
       (Ok (hmac_sha256 credRandom salt1,
            (if 0 < length salt2 then hmac_sha256 credRandom salt2 else [])), h1))"

section \<open>The platform's side\<close>

text \<open>
  What a platform that follows CTAP2 sends for private key \<open>d\<close> with public point \<open>(px, py)\<close> to an
  authenticator with key agreement point \<open>(ax, ay)\<close>, and how it reads the answer.
\<close>

definition platform_secret :: "Crypto \<Rightarrow> nat \<Rightarrow> nat \<Rightarrow> nat \<Rightarrow> bytes" where
  "platform_secret K d ax ay = sha256 (be_fixed 32 (fst (ecScalarMult K d ax ay)))"

definition platform_input :: "bytes \<Rightarrow> nat \<Rightarrow> nat \<Rightarrow> bytes \<Rightarrow> HmacSecretInput \<Rightarrow> bool" where
  "platform_input secret px py salts input \<longleftrightarrow>
     hs_KeyAgreement input = \<lparr>ck_Kty = 2, ck_Alg = -25, ck_Crv = 1, ck_X = be_fixed 32 px, ck_Y = be_fixed 32 py\<rparr> \<and>
     aes_cbc_encrypt secret salts = Ok (hs_SaltEnc input) \<and>
     hs_SaltAuth input = take 16 (hmac_sha256 secret (hs_SaltEnc input))"

lemma NewCipher_sha256 [simp]: "NewCipher (sha256 x) = None"
  by (simp add: NewCipher_def)

text \<open>
  After the checks the answer is the encryption of the PRF outputs.
\<close>

lemma hmac_secret_answer_accepts:
  assumes "hs_SaltAuth input = take 16 (hmac_sha256 (sha256 z) (hs_SaltEnc input))"
    and "aes_cbc_decrypt (sha256 z) (hs_SaltEnc input) = Ok salts"
    and "cred_random E credID h = (Ok cr, h')"
  shows "hmac_secret_answer E credID (sha256 z) input h =
    and_then (hmac_secret_outputs cr salts, h') (\<lambda>output h2. (aes_cbc_encrypt (sha256 z) output, h2))"
  using assms by (simp add: hmac_secret_answer_def)

lemma processHmacSecret_shared:
  assumes "cborMarshal (e_cbor E) raw = Inr rb" "unmarshalHmacSecret (e_cbor E) rb = Inr input"
    and "h_ecdhKey h = Some k"
    and "hs_KeyAgreement input = \<lparr>ck_Kty = 2, ck_Alg = a, ck_Crv = 1, ck_X = be_fixed 32 px, ck_Y = be_fixed 32 py\<rparr>"
    and "valid_point px py" "px < 2 ^ 256" "py < 2 ^ 256"
    and "fst (ecScalarMult (e_crypto E) (ek_D k) px py) = sx" "sx < 2 ^ 256"
  shows "processHmacSecret E credID raw h = hmac_secret_answer E credID (sha256 (be_fixed 32 sx)) input h"
proof -
  have px: "be_nat (be_fixed 32 px) = px" "be_nat (be_fixed 32 py) = py"
    using assms(6,7) by (simp_all add: be_nat_be_fixed)
  have s: "padTo32 (nat_bytes sx) = be_fixed 32 sx" using assms(9) by (rule padTo32_nat)
  show ?thesis
    unfolding processHmacSecret_def
    by (simp only: assms(1-4) sum.case option.case Let_def COSEKey.simps COSEKeyTypeEC2_def
        COSECurveP256_def px ScalarMult_def assms(5) and_then_simps assms(8) s simp_thms if_True if_False)
qed

text \<open>
  The two outcomes of a request that has the form of one: \<open>shared_input\<close> is the parsed input with the
  shared secret the handler computes for it.
\<close>

definition shared_input :: "'s Env \<Rightarrow> goval \<Rightarrow> 's Handler \<Rightarrow> HmacSecretInput \<Rightarrow> bytes \<Rightarrow> bool" where
  "shared_input E raw h input secret \<longleftrightarrow>
     (\<exists>rb k x y. cborMarshal (e_cbor E) raw = Inr rb \<and> unmarshalHmacSecret (e_cbor E) rb = Inr input \<and>
        h_ecdhKey h = Some k \<and> ck_Kty (hs_KeyAgreement input) = COSEKeyTypeEC2 \<and>
        ck_Crv (hs_KeyAgreement input) = COSECurveP256 \<and>
        x = be_nat (ck_X (hs_KeyAgreement input)) \<and> y = be_nat (ck_Y (hs_KeyAgreement input)) \<and> valid_point x y \<and>
        secret = sha256 (padTo32 (nat_bytes (fst (ecScalarMult (e_crypto E) (ek_D k) x y)))))"

definition authenticated_salts :: "'s Env \<Rightarrow> goval \<Rightarrow> 's Handler \<Rightarrow> bytes \<Rightarrow> bytes \<Rightarrow> bool" where
  "authenticated_salts E raw h secret salts \<longleftrightarrow>
     (\<exists>input. shared_input E raw h input secret \<and>
        hs_SaltAuth input = take 16 (hmac_sha256 secret (hs_SaltEnc input)) \<and>
        aes_cbc_decrypt secret (hs_SaltEnc input) = Ok salts)"

definition salts_answered :: "'s Env \<Rightarrow> bytes \<Rightarrow> bytes \<Rightarrow> HmacSecretInput \<Rightarrow> 's Handler \<Rightarrow> bytes res \<Rightarrow> 's Handler \<Rightarrow> bool" where
  "salts_answered E credID secret input h r h' \<longleftrightarrow> same_but_signer h h' \<and>
     hs_SaltAuth input = take 16 (hmac_sha256 secret (hs_SaltEnc input)) \<and>
     (\<exists>salts q. aes_cbc_decrypt secret (hs_SaltEnc input) = Ok salts \<and> cred_random E credID h = (q, h') \<and>
        (\<forall>ct. r = Ok ct \<longrightarrow> length salts \<in> {32, 64} \<and>
           (\<exists>cr. q = Ok cr \<and> aes_cbc_encrypt secret (hmac_sha256 cr (take 32 salts) @
              (if length salts = 64 then hmac_sha256 cr (drop 32 salts) else [])) = Ok ct)))"

definition refused_unseen :: "'a res \<Rightarrow> 's Handler \<Rightarrow> 's Handler \<Rightarrow> ('s Signer \<Rightarrow> 'a res \<times> 's Handler) \<Rightarrow> bool" where
  "refused_unseen r h h' run \<longleftrightarrow> h' = h \<and> (\<forall>a. r \<noteq> Ok a) \<and> (\<forall>S. run S = (r, h))"

lemma hmac_secret_answer_outcome:
  assumes "hmac_secret_answer E credID (sha256 z) input h = (r, h')"
  shows "salts_answered E credID (sha256 z) input h r h' \<or>
    refused_unseen r h h' (\<lambda>S. hmac_secret_answer (E\<lparr>e_signer := S\<rparr>) credID (sha256 z) input h)"
proof (cases "hs_SaltAuth input = take 16 (hmac_sha256 (sha256 z) (hs_SaltEnc input))")
  case t: True
  show ?thesis
  proof (cases "aes_cbc_decrypt (sha256 z) (hs_SaltEnc input)")
    case d: (Ok salts)
    obtain q h1 where c: "cred_random E credID h = (q, h1)" by fastforce
    then have "same_but_signer h h1" by (auto simp: cred_random_def same_but_signer_def split: prod.splits)
    with assms t d c have "salts_answered E credID (sha256 z) input h r h'"
      by (cases q) (auto simp: salts_answered_def hmac_secret_answer_def hmac_secret_outputs_def split: if_splits)
    then show ?thesis ..
  next
    case d: (Err e)
    with assms t have "r = Err e" "h' = h" by (auto simp: hmac_secret_answer_def)
    then show ?thesis by (simp add: refused_unseen_def hmac_secret_answer_def t d)
  next
    case d: (Panic m)
    with assms t have "r = Panic m" "h' = h" by (auto simp: hmac_secret_answer_def)
    then show ?thesis by (simp add: refused_unseen_def hmac_secret_answer_def t d)
  qed
qed (use assms in \<open>auto simp: hmac_secret_answer_def refused_unseen_def\<close>)

lemma processHmacSecret_stages:
  assumes "processHmacSecret E credID raw h = (r, h')"
  obtains (shared) input secret z where "shared_input E raw h input secret" "secret = sha256 z"
      "hmac_secret_answer E credID secret input h = (r, h')"
      "\<And>S. processHmacSecret (E\<lparr>e_signer := S\<rparr>) credID raw h = hmac_secret_answer (E\<lparr>e_signer := S\<rparr>) credID secret input h"
  | (unshared) "h' = h" "\<And>ct. r \<noteq> Ok ct" "\<And>S. processHmacSecret (E\<lparr>e_signer := S\<rparr>) credID raw h = (r, h)"
proof (cases "cborMarshal (e_cbor E) raw")
  case (Inl e)
  with assms show thesis by (intro unshared) (auto simp: processHmacSecret_def)
next
  case m: (Inr rb)
  show thesis
  proof (cases "unmarshalHmacSecret (e_cbor E) rb")
    case (Inl e)
    with assms m show thesis by (intro unshared) (auto simp: processHmacSecret_def)
  next
    case u: (Inr input)
    let ?ka = "hs_KeyAgreement input"
    let ?x = "be_nat (ck_X ?ka)" and ?y = "be_nat (ck_Y ?ka)"
    show thesis
    proof (cases "\<exists>k. h_ecdhKey h = Some k \<and> ck_Kty ?ka = COSEKeyTypeEC2 \<and> ck_Crv ?ka = COSECurveP256 \<and> valid_point ?x ?y")
      case True
      then obtain k where k: "h_ecdhKey h = Some k" "ck_Kty ?ka = COSEKeyTypeEC2" "ck_Crv ?ka = COSECurveP256" "valid_point ?x ?y"
        by blast
      let ?z = "padTo32 (nat_bytes (fst (ecScalarMult (e_crypto E) (ek_D k) ?x ?y)))"
      have "shared_input E raw h input (sha256 ?z)" using m u k unfolding shared_input_def by blast
      moreover have "processHmacSecret F credID raw h = hmac_secret_answer F credID (sha256 ?z) input h"
        if "e_cbor F = e_cbor E" "e_crypto F = e_crypto E" for F
        using that m u k by (simp add: processHmacSecret_def Let_def ScalarMult_def)
      ultimately show thesis using shared [of input "sha256 ?z" ?z] assms by simp
    next
      case False
      with assms m u show thesis
        by (intro unshared) (auto simp: processHmacSecret_def Let_def ScalarMult_def split: option.splits if_splits)
    qed
  qed
qed

lemma valid_point_bound: "valid_point x y \<Longrightarrow> x < 2 ^ 256 \<and> y < 2 ^ 256"
  by (auto simp: valid_point_def p256_p_def)

lemma outputs_encrypt:
  assumes "hmac_secret_outputs cr salts = Ok outp"
  shows "\<exists>ct. aes_cbc_encrypt (sha256 z) outp = Ok ct \<and> aes_cbc_decrypt (sha256 z) ct = Ok outp"
proof -
  have "length outp mod 16 = 0" using assms by (auto simp: hmac_secret_outputs_def split: if_splits)
  with aes_cbc_roundtrip [of "sha256 z" outp] show ?thesis by auto
qed

section \<open>A concrete exchange\<close>

text \<open>A point of the curve with a small abscissa.\<close>

definition point_x :: nat where
  "point_x = 5"

definition point_y :: nat where
  "point_y = 31468013646237722594854082025316614106172411895747863909393730389177298123724"

lemma valid_xy: "valid_point point_x point_y"
proof -
  have "point_y * point_y = point_x * point_x * point_x + (p256_p - 3) * point_x + p256_b +
      8551843995498429138253737279425323387534507233058307853289950121593724778020 * p256_p"
    by (simp add: point_x_def point_y_def p256_p_num p256_b_def)
  then have "point_y * point_y mod p256_p =
      (point_x * point_x * point_x + (p256_p - 3) * point_x + p256_b) mod p256_p"
    by (simp only: mod_mult_self1)
  moreover have "point_x < p256_p" "point_y < p256_p"
    by (simp_all add: point_x_def point_y_def p256_p_num)
  ultimately show ?thesis by (simp only: valid_point_def simp_thms)
qed

definition key1 :: EcdhKey where
  "key1 = \<lparr>ek_D = 1, ek_X = point_x, ek_Y = point_y\<rparr>"

definition secret1 :: bytes where
  "secret1 = platform_secret crypto0 1 point_x point_y"

definition input1 :: "bytes \<Rightarrow> HmacSecretInput" where
  "input1 salts =
     (let enc = (case aes_cbc_encrypt secret1 salts of Ok c \<Rightarrow> c | _ \<Rightarrow> []) in
      \<lparr>hs_KeyAgreement = \<lparr>ck_Kty = 2, ck_Alg = -25, ck_Crv = 1, ck_X = be_fixed 32 point_x, ck_Y = be_fixed 32 point_y\<rparr>,
       hs_SaltEnc = enc, hs_SaltAuth = take 16 (hmac_sha256 secret1 enc), hs_PinUvAuthProtocol = 1\<rparr>)"

definition env1 :: "HmacSecretInput \<Rightarrow> Mem Env" where
  "env1 input = env0\<lparr>e_cbor := cbor0\<lparr>cborMarshal := (\<lambda>_. Inr []), unmarshalHmacSecret := (\<lambda>_. Inr input)\<rparr>\<rparr>"

lemma input1_ok:
  "length salts mod 16 = 0 \<Longrightarrow> platform_input secret1 point_x point_y salts (input1 salts)"
  using aes_cbc_roundtrip [of secret1 salts]
  by (auto simp: platform_input_def input1_def Let_def secret1_def platform_secret_def)

lemma env1_simps:
  "cborMarshal (e_cbor (env1 i)) v = Inr []" "unmarshalHmacSecret (e_cbor (env1 i)) b = Inr i"
  "ecScalarMult (e_crypto (env1 i)) d x y = (d * x, d * y)" "e_crypto (env1 i) = crypto0"
  by (simp_all add: env1_def env0_def crypto0_def)

lemma crypto0_mult: "ecScalarMult crypto0 d x y = (d * x, d * y)"
  by (simp add: crypto0_def)

lemma mem_cred_random:
  "cred_random (env1 i) c h = (Ok (hmac_sha256 (masterPrivateKey (h_signer h)) c), h)"
  by (simp add: cred_random_def env1_def env0_def mem_signer_def mem_DeriveCredRandom_def)

text \<open>A request with one salt, as the platform makes it.\<close>

lemma process1:
  "\<exists>ct. processHmacSecret (env1 (input1 (replicate 32 5))) [7] (GBytes []) (handler0\<lparr>h_ecdhKey := Some key1\<rparr>) =
     (Ok ct, handler0\<lparr>h_ecdhKey := Some key1\<rparr>)"
proof -
  let ?i = "input1 (replicate 32 5)" and ?z = "be_fixed 32 point_x" and ?h = "handler0\<lparr>h_ecdhKey := Some key1\<rparr>"
  have b: "point_x < 2 ^ 256" "point_y < 2 ^ 256" using valid_point_bound [OF valid_xy] by auto
  have s: "secret1 = sha256 ?z" by (simp add: secret1_def platform_secret_def crypto0_mult)
  have i: "platform_input (sha256 ?z) point_x point_y (replicate 32 5) ?i"
    using input1_ok [of "replicate 32 5"] by (simp add: s)
  then have ka: "hs_KeyAgreement ?i = \<lparr>ck_Kty = 2, ck_Alg = -25, ck_Crv = 1, ck_X = be_fixed 32 point_x, ck_Y = be_fixed 32 point_y\<rparr>"
    and enc: "aes_cbc_encrypt (sha256 ?z) (replicate 32 5) = Ok (hs_SaltEnc ?i)"
    and mac: "hs_SaltAuth ?i = take 16 (hmac_sha256 (sha256 ?z) (hs_SaltEnc ?i))"
    by (simp_all add: platform_input_def)
  from aes_cbc_roundtrip [of "sha256 ?z" "replicate 32 5"] enc
  have dec: "aes_cbc_decrypt (sha256 ?z) (hs_SaltEnc ?i) = Ok (replicate 32 5)" by auto
  have "processHmacSecret (env1 ?i) [7] (GBytes []) ?h = hmac_secret_answer (env1 ?i) [7] (sha256 ?z) ?i ?h"
    by (rule processHmacSecret_shared [OF env1_simps(1,2) _ ka valid_xy b _ b(1), of _ key1])
       (simp_all add: key1_def env1_simps(3))
  with hmac_secret_answer_accepts [OF mac dec mem_cred_random] show ?thesis
    using outputs_encrypt [of _ "replicate 32 5" _ ?z] by (fastforce simp: hmac_secret_outputs_def)
qed

section \<open>Properties\<close>

text \<open>
  C14. The hmac-secret extension delivers the PRF outputs: for a platform that knows the shared point,
  encrypts one or two 32-byte salts and authenticates them, \<^verbatim>\<open>processHmacSecret\<close> succeeds, and its answer
  decrypts under the shared secret to exactly what \<^verbatim>\<open>ComputePRF\<close> returns for the same
  credential and salts, so the CTAP2 path and the direct path agree.
\<close>

theorem hmac_secret_matches_prf:
  assumes "cborMarshal (e_cbor E) raw = Inr rb" "unmarshalHmacSecret (e_cbor E) rb = Inr input"
    and "h_ecdhKey h = Some k" "valid_point px py"
    and "ecScalarMult (e_crypto E) (ek_D k) px py = ecScalarMult (e_crypto E) d (ek_X k) (ek_Y k)"
    and "fst (ecScalarMult (e_crypto E) d (ek_X k) (ek_Y k)) < 2 ^ 256"
    and "platform_input (platform_secret (e_crypto E) d (ek_X k) (ek_Y k)) px py (salt1 @ salt2) input"
    and "length salt1 = 32" "length salt2 = 0 \<or> length salt2 = 32"
    and "ComputePRF E credID salt1 salt2 h = (Ok (out1, out2), h')"
  shows "\<exists>ct. processHmacSecret E credID raw h = (Ok ct, h') \<and>
    aes_cbc_decrypt (platform_secret (e_crypto E) d (ek_X k) (ek_Y k)) ct = Ok (out1 @ out2)"
proof -
  let ?sx = "fst (ecScalarMult (e_crypto E) d (ek_X k) (ek_Y k))"
  let ?z = "be_fixed 32 ?sx" let ?salts = "salt1 @ salt2"
  from assms(10) obtain cr where cr: "cred_random E credID h = (Ok cr, h')"
    and o: "out1 = hmac_sha256 cr salt1" "out2 = (if 0 < length salt2 then hmac_sha256 cr salt2 else [])"
    by (auto simp: ComputePRF_def and_then_eq_Ok)
  have b: "px < 2 ^ 256" "py < 2 ^ 256" using valid_point_bound [OF assms(4)] by auto
  from assms(7) have ka: "hs_KeyAgreement input = \<lparr>ck_Kty = 2, ck_Alg = -25, ck_Crv = 1, ck_X = be_fixed 32 px, ck_Y = be_fixed 32 py\<rparr>"
    and enc: "aes_cbc_encrypt (sha256 ?z) ?salts = Ok (hs_SaltEnc input)"
    and mac: "hs_SaltAuth input = take 16 (hmac_sha256 (sha256 ?z) (hs_SaltEnc input))"
    by (simp_all add: platform_input_def platform_secret_def)
  have "length ?salts mod 16 = 0" using assms(8,9) by auto
  with aes_cbc_roundtrip [of "sha256 ?z" ?salts] enc
  have dec: "aes_cbc_decrypt (sha256 ?z) (hs_SaltEnc input) = Ok ?salts" by auto
  have out: "hmac_secret_outputs cr ?salts = Ok (out1 @ out2)"
    using assms(8,9) o by (auto simp: hmac_secret_outputs_def)
  have "processHmacSecret E credID raw h = hmac_secret_answer E credID (sha256 ?z) input h"
    by (rule processHmacSecret_shared [OF assms(1-3) ka assms(4) b _ assms(6)]) (simp add: assms(5))
  with hmac_secret_answer_accepts [OF mac dec cr] out outputs_encrypt [OF out, of ?z]
  show ?thesis by (auto simp: platform_secret_def)
qed

lemma hmac_secret_matches_prf_witness:
  "\<exists>ct. processHmacSecret (env1 (input1 (replicate 32 5))) [7] (GBytes []) (handler0\<lparr>h_ecdhKey := Some key1\<rparr>) =
      (Ok ct, handler0\<lparr>h_ecdhKey := Some key1\<rparr>) \<and>
    aes_cbc_decrypt secret1 ct = Ok (hmac_sha256 (hmac_sha256 (replicate 32 1) [7]) (replicate 32 5) @ [])"
proof -
  let ?h = "handler0\<lparr>h_ecdhKey := Some key1\<rparr>" and ?E = "env1 (input1 (replicate 32 5))"
  have b: "point_x < 2 ^ 256" using valid_point_bound [OF valid_xy] by simp
  have i: "platform_input secret1 point_x point_y (replicate 32 5 @ []) (input1 (replicate 32 5))"
    using input1_ok [of "replicate 32 5"] by simp
  have "ComputePRF ?E [7] (replicate 32 5) [] ?h =
      (Ok (hmac_sha256 (hmac_sha256 (replicate 32 1) [7]) (replicate 32 5), []), ?h)"
    by (simp add: ComputePRF_def mem_cred_random handler0_def NewHandler_def mem0_def)
  from hmac_secret_matches_prf [OF env1_simps(1,2) _ valid_xy _ _ _ _ _ this, of key1 1] i b
  show ?thesis
    by (simp add: env1_simps(3,4) crypto0_mult key1_def secret1_def)
qed

text \<open>
  C15. The signer is consulted only for authenticated salts, and only salts of the right length are
  answered. Either the request carries encrypted salts with the right tag under the shared secret; then
  \<^verbatim>\<open>DeriveCredRandom\<close> is called once, and a value is returned only for salts of 32 or 64 bytes, namely the
  encryption of one HMAC per salt under the credential's secret. Or nothing is returned, the handler is
  as before, and the outcome does not depend on the signer at all: whatever signer is put in its
  place, the same error or panic results. (For authenticated salts of another length the secret is
  derived before the length is looked at, but nothing is returned.)
\<close>

theorem hmac_secret_authenticated:
  assumes "processHmacSecret E credID raw h = (r, h')"
  shows "same_but_signer h h' \<and>
    ((\<exists>secret salts q. authenticated_salts E raw h secret salts \<and> cred_random E credID h = (q, h') \<and>
        (\<forall>ct. r = Ok ct \<longrightarrow> length salts \<in> {32, 64} \<and>
           (\<exists>cr. q = Ok cr \<and> aes_cbc_encrypt secret (hmac_sha256 cr (take 32 salts) @
              (if length salts = 64 then hmac_sha256 cr (drop 32 salts) else [])) = Ok ct))) \<or>
     h' = h \<and> (\<forall>ct. r \<noteq> Ok ct) \<and> (\<forall>S. processHmacSecret (E\<lparr>e_signer := S\<rparr>) credID raw h = (r, h)))"
proof (cases rule: processHmacSecret_stages [OF assms])
  case (1 input secret z)
  from hmac_secret_answer_outcome [OF 1(3) [unfolded 1(2)]] show ?thesis
  proof (elim disjE)
    assume "salts_answered E credID (sha256 z) input h r h'"
    with 1(2) obtain salts q where a: "same_but_signer h h'" "cred_random E credID h = (q, h')"
      and d: "hs_SaltAuth input = take 16 (hmac_sha256 secret (hs_SaltEnc input))" "aes_cbc_decrypt secret (hs_SaltEnc input) = Ok salts"
      and o: "\<forall>ct. r = Ok ct \<longrightarrow> length salts \<in> {32, 64} \<and>
           (\<exists>cr. q = Ok cr \<and> aes_cbc_encrypt secret (hmac_sha256 cr (take 32 salts) @
              (if length salts = 64 then hmac_sha256 cr (drop 32 salts) else [])) = Ok ct)"
      unfolding salts_answered_def by (elim conjE exE) simp
    from 1(1) d have "authenticated_salts E raw h secret salts" unfolding authenticated_salts_def by blast
    with a o show ?thesis by blast
  next
    assume "refused_unseen r h h' (\<lambda>S. hmac_secret_answer (E\<lparr>e_signer := S\<rparr>) credID (sha256 z) input h)"
    with 1(2,4) show ?thesis by (simp add: refused_unseen_def)
  qed
qed simp

definition hmac1_handler :: "Mem Handler" where
  "hmac1_handler = handler0\<lparr>h_ecdhKey := Some key1\<rparr>"

lemma hmac_secret_authenticated_witness:
  "(\<exists>ct secret salts cr. processHmacSecret (env1 (input1 (replicate 32 5))) [7] (GBytes []) hmac1_handler = (Ok ct, hmac1_handler) \<and>
      authenticated_salts (env1 (input1 (replicate 32 5))) (GBytes []) hmac1_handler secret salts \<and>
      length salts \<in> {32, 64} \<and>
      aes_cbc_encrypt secret (hmac_sha256 cr (take 32 salts) @
        (if length salts = 64 then hmac_sha256 cr (drop 32 salts) else [])) = Ok ct) \<and>
   (\<exists>r. processHmacSecret (env1 (input1 (replicate 32 5)\<lparr>hs_SaltAuth := []\<rparr>)) [7] (GBytes []) hmac1_handler = (r, hmac1_handler) \<and>
      r \<noteq> Ok [])"
proof
  let ?i = "input1 (replicate 32 5)" let ?E = "env1 ?i" and ?F = "env1 (?i\<lparr>hs_SaltAuth := []\<rparr>)"
  from process1 obtain ct where p: "processHmacSecret ?E [7] (GBytes []) hmac1_handler = (Ok ct, hmac1_handler)"
    unfolding hmac1_handler_def by blast
  from hmac_secret_authenticated [OF p] obtain secret salts cr where "authenticated_salts ?E (GBytes []) hmac1_handler secret salts"
    "length salts \<in> {32, 64}" "aes_cbc_encrypt secret (hmac_sha256 cr (take 32 salts) @
        (if length salts = 64 then hmac_sha256 cr (drop 32 salts) else [])) = Ok ct" by metis
  with p show "\<exists>ct secret salts cr. processHmacSecret ?E [7] (GBytes []) hmac1_handler = (Ok ct, hmac1_handler) \<and>
      authenticated_salts ?E (GBytes []) hmac1_handler secret salts \<and> length salts \<in> {32, 64} \<and>
      aes_cbc_encrypt secret (hmac_sha256 cr (take 32 salts) @
        (if length salts = 64 then hmac_sha256 cr (drop 32 salts) else [])) = Ok ct" by blast
  obtain r h' where q: "processHmacSecret ?F [7] (GBytes []) hmac1_handler = (r, h')" by fastforce
  have "\<not> authenticated_salts ?F (GBytes []) hmac1_handler secret salts" for secret salts
    by (auto simp: authenticated_salts_def shared_input_def env1_simps dest: arg_cong [of _ _ length])
  with hmac_secret_authenticated [OF q] have "h' = hmac1_handler" "r \<noteq> Ok []" by metis+
  with q
  show "\<exists>r. processHmacSecret ?F [7] (GBytes []) hmac1_handler = (r, hmac1_handler) \<and> r \<noteq> Ok []" by blast
qed

text \<open>
  C16. A request can crash the host: once the request parses and an ephemeral key exists,
  \<^verbatim>\<open>processHmacSecret\<close> panics exactly when the platform's point is not on the curve, or its tag is right
  and the encrypted salts are not a whole number of AES blocks (the length is checked only after
  decryption). A signer that does not panic is assumed.
\<close>

theorem hmac_secret_panics:
  assumes "cborMarshal (e_cbor E) raw = Inr rb" "unmarshalHmacSecret (e_cbor E) rb = Inr input"
    and "ck_Kty (hs_KeyAgreement input) = COSEKeyTypeEC2" "ck_Crv (hs_KeyAgreement input) = COSECurveP256"
    and "h_ecdhKey h = Some k" "\<not> is_panic (fst (cred_random E credID h))"
    and "x = be_nat (ck_X (hs_KeyAgreement input))" "y = be_nat (ck_Y (hs_KeyAgreement input))"
    and "secret = sha256 (padTo32 (nat_bytes (fst (ecScalarMult (e_crypto E) (ek_D k) x y))))"
  shows "is_panic (fst (processHmacSecret E credID raw h)) \<longleftrightarrow>
    \<not> valid_point x y \<or>
    hs_SaltAuth input = take 16 (hmac_sha256 secret (hs_SaltEnc input)) \<and> length (hs_SaltEnc input) mod 16 \<noteq> 0"
proof -
  have p: "processHmacSecret E credID raw h =
      (if valid_point x y then hmac_secret_answer E credID secret input h
       else (Panic ''crypto/elliptic: attempted operation on invalid point'', h))"
    by (simp add: processHmacSecret_def assms(1-5) Let_def ScalarMult_def assms(7-9))
  obtain z where z: "secret = sha256 z" using assms(9) by blast
  have o: "\<not> is_panic (hmac_secret_outputs cr salts)" for cr salts
    by (simp add: hmac_secret_outputs_def)
  have e: "\<not> is_panic (fst (and_then (hmac_secret_outputs cr salts, g)
      (\<lambda>output h2. (aes_cbc_encrypt (sha256 z) output, h2))))" for cr salts and g :: "'a Handler"
  proof (cases "hmac_secret_outputs cr salts")
    case (Ok out)
    with outputs_encrypt [OF Ok, of z] show ?thesis by auto
  qed (use o [of cr salts] in auto)
  have a: "is_panic (fst (hmac_secret_answer E credID secret input h)) \<longleftrightarrow>
      hs_SaltAuth input = take 16 (hmac_sha256 secret (hs_SaltEnc input)) \<and> length (hs_SaltEnc input) mod 16 \<noteq> 0"
  proof (cases "cred_random E credID h")
    case (Pair q g)
    with assms(6) e show ?thesis
      by (cases q) (auto simp: hmac_secret_answer_def Let_def aes_cbc_decrypt_def CryptBlocks_def z)
  qed
  from p a show ?thesis by simp
qed

lemma hmac_secret_panics_witness:
  "is_panic (fst (processHmacSecret
     (env1 (input1 []\<lparr>hs_SaltEnc := [1, 2, 3], hs_SaltAuth := take 16 (hmac_sha256 secret1 [1, 2, 3])\<rparr>))
     [7] (GBytes []) (handler0\<lparr>h_ecdhKey := Some key1\<rparr>)))"
proof -
  let ?i = "input1 []\<lparr>hs_SaltEnc := [1, 2, 3], hs_SaltAuth := take 16 (hmac_sha256 secret1 [1, 2, 3])\<rparr>"
  have b: "point_x < 2 ^ 256" "point_y < 2 ^ 256" using valid_point_bound [OF valid_xy] by auto
  have ka: "hs_KeyAgreement ?i = \<lparr>ck_Kty = 2, ck_Alg = -25, ck_Crv = 1, ck_X = be_fixed 32 point_x, ck_Y = be_fixed 32 point_y\<rparr>"
    by (simp add: input1_def Let_def)
  have x: "be_nat (ck_X (hs_KeyAgreement ?i)) = point_x" "be_nat (ck_Y (hs_KeyAgreement ?i)) = point_y"
    using b by (simp_all add: ka be_nat_be_fixed)
  have s: "secret1 = sha256 (padTo32 (nat_bytes (fst (ecScalarMult (e_crypto (env1 ?i)) (ek_D key1) point_x point_y))))"
    using b by (simp add: env1_simps key1_def padTo32_nat secret1_def platform_secret_def crypto0_def)
  have cr: "\<not> is_panic (fst (cred_random (env1 ?i) [7] (handler0\<lparr>h_ecdhKey := Some key1\<rparr>)))"
    by (simp add: mem_cred_random)
  have k: "h_ecdhKey (handler0\<lparr>h_ecdhKey := Some key1\<rparr>) = Some key1" by simp
  have t: "ck_Kty (hs_KeyAgreement ?i) = COSEKeyTypeEC2" "ck_Crv (hs_KeyAgreement ?i) = COSECurveP256"
    by (simp_all add: ka COSEKeyTypeEC2_def COSECurveP256_def)
  from hmac_secret_panics [OF env1_simps(1,2) t k cr x [symmetric] s] show ?thesis by simp
qed

text \<open>
  The key agreement key is created once and then kept: \<^verbatim>\<open>GetECDHPublicKey\<close> succeeds and returns a
  P-256 key with 32-byte coordinates that read back as the ephemeral public key, and every later call
  returns the same key and changes nothing.
\<close>

lemma key_agreement_stable:
  assumes "ec_ok (e_crypto E)" "rng_good (h_rng h)"
    and "\<forall>d x y. ecScalarBaseMult (e_crypto E) d = (x, y) \<longrightarrow> x < 2 ^ 256 \<and> y < 2 ^ 256" "h_ecdhKey h = None"
  shows "\<exists>key h' k. GetECDHPublicKey E h = (Ok key, h') \<and> GetECDHPublicKey E h' = (Ok key, h') \<and>
    h_ecdhKey h' = Some k \<and> ck_Kty key = 2 \<and> ck_Crv key = 1 \<and>
    length (ck_X key) = 32 \<and> length (ck_Y key) = 32 \<and>
    (be_nat (ck_X key), be_nat (ck_Y key)) = ecScalarBaseMult (e_crypto E) (ek_D k) \<and>
    0 < ek_D k \<and> ek_D k < p256_order"
proof -
  from ec_ok_generate [OF assms(1,2)] obtain priv x y r where
    g: "ecGenerateKey (e_crypto E) (h_rng h) = (Inr (priv, x, y), r)" "0 < be_nat priv" "be_nat priv < p256_order"
      "ecScalarBaseMult (e_crypto E) (be_nat priv) = (x, y)" by blast
  from assms(3) g(4) have "padTo32 (nat_bytes x) = be_fixed 32 x" "padTo32 (nat_bytes y) = be_fixed 32 y"
    "x < 2 ^ 256" "y < 2 ^ 256"
    using padTo32_nat by blast+
  with g assms(4) show ?thesis
    by (simp add: GetECDHPublicKey_def GenerateECDHKey_def be_nat_be_fixed COSEKeyTypeEC2_def COSECurveP256_def)
qed

end
