(* ===== verification/MakeCredential.thy ===== *)
theory MakeCredential
  imports HmacSecret
begin

text \<open>
  \<^verbatim>\<open>ctap2/makecredential.go\<close>: the CTAP2 command with user presence, and \<open>MakeCredentialDirect\<close>, which
  the WebAuthn layer calls after it has asked the user itself.
\<close>

section \<open>Structures\<close>

record MakeCredentialParams =
  mp_ClientDataHash :: bytes
  mp_RPID :: string
  mp_RPName :: string
  mp_UserID :: bytes
  mp_UserName :: string
  mp_UserDisplayName :: string
  mp_ResidentKey :: bool
  mp_HmacSecret :: bool
  mp_ExcludeList :: "bytes list"

record MakeCredentialResult =
  mk_CredentialID :: bytes
  mk_AttestationObject :: bytes
  mk_AuthData :: bytes
  mk_PublicKeyX :: nat
  mk_PublicKeyY :: nat
  mk_HmacSecretEnabled :: bool

text \<open>
  A CTAP2 handler returns a status byte and the response; \<open>or_status\<close> is the pattern
  \<^verbatim>\<open>if err != nil { return Status..., nil }\<close>.
\<close>

type_synonym ctap_reply = "(byte \<times> bytes) res"

definition or_status ::
  "byte \<Rightarrow> 'a res \<times> 'h \<Rightarrow> ('a \<Rightarrow> 'h \<Rightarrow> ctap_reply \<times> 'h) \<Rightarrow> ctap_reply \<times> 'h" where
  "or_status st p k =
     (case p of
        (Ok a, h) \<Rightarrow> k a h
      | (Err e, h) \<Rightarrow> (Ok (st, []), h)
      | (Panic m, h) \<Rightarrow> (Panic m, h))"

lemma or_status_simps [simp, outcome_simps]:
  "or_status st (Ok a, h) k = k a h"
  "or_status st (Err e, h) k = (Ok (st, []), h)"
  "or_status st (Panic m, h) k = (Panic m, h)"
  by (simp_all add: or_status_def)

section \<open>The CTAP2 command\<close>

definition es256_requested :: "PublicKeyCredentialParameters list \<Rightarrow> bool" where
  "es256_requested params =
     list_ex (\<lambda>p. kp_Type p = CredentialTypePublicKey \<and> kp_Alg p = COSEAlgES256) params"

definition option_set :: "(string \<times> bool) list option \<Rightarrow> string \<Rightarrow> bool" where
  "option_set opts key =
     (case opts of None \<Rightarrow> False | Some m \<Rightarrow> map_of m key = Some True)"

definition extension_of :: "(string \<times> goval) list option \<Rightarrow> string \<Rightarrow> goval option" where
  "extension_of exts key = (case exts of None \<Rightarrow> None | Some m \<Rightarrow> map_of m key)"

text \<open>After the user confirmed: register, save, build and sign the authenticator data, respond.\<close>

definition make_credential_confirmed ::
  "'s Env \<Rightarrow> MakeCredentialRequest \<Rightarrow> bytes \<Rightarrow> 's Handler \<Rightarrow> ctap_reply \<times> 's Handler" where
  "make_credential_confirmed E req rpIDHash h =
     (let residentKeyRequested = option_set (mc_Options req) ''rk'' in
      or_status StatusOther (register_key E rpIDHash h) (\<lambda>(credentialID, x, y) h1.
        let cred = \<lparr>cm_RPID = rp_ID (mc_RP req), cm_RPName = rp_Name (mc_RP req),
                    cm_UserID = ue_ID (mc_User req), cm_UserName = ue_Name (mc_User req),
                    cm_UserDisplayName = ue_DisplayName (mc_User req), cm_CredentialID = credentialID,
                    cm_PublicKeyX = bigIntToBytes x, cm_PublicKeyY = bigIntToBytes y,
                    cm_CreatedAt = h_now h1\<rparr>;
            h2 = save_resident E residentKeyRequested cred h1;
            hmacSecretRequested = (extension_of (mc_Extensions req) ''hmac-secret'' \<noteq> None)
        in or_status StatusOther (registration_auth_data E rpIDHash credentialID x y hmacSecretRequested h2)
          (\<lambda>authDataBytes h3.
             or_status StatusOther (attest E authDataBytes (mc_ClientDataHash req) h3) (\<lambda>sig h4.
               (case ctapMarshal (e_cbor E)
                       (InMakeCredential \<lparr>mr_Fmt = ''packed'', mr_AuthData = authDataBytes,
                                          mr_AttStmt = attestation_statement sig\<rparr>) of
                  Inl e \<Rightarrow> (Ok (StatusOther, []), h4)
                | Inr encoded \<Rightarrow> (Ok (StatusSuccess, encoded), h4))))))"

definition MakeCredential ::
  "'s Env \<Rightarrow> MakeCredentialRequest \<Rightarrow> 's Handler \<Rightarrow> ctap_reply \<times> 's Handler" where
  "MakeCredential E req h =
     (if length (mc_ClientDataHash req) \<noteq> 32 then (Ok (StatusInvalidParameter, []), h)
      else if \<not> es256_requested (mc_PubKeyCredParams req) then (Ok (StatusUnsupportedExtension, []), h)
      else
        let rpIDHash = HashRPID (rp_ID (mc_RP req)) in
        and_then (first_valid E ''exclude-check'' rpIDHash pd_ID (mc_ExcludeList req) h) (\<lambda>excluded h1.
          if excluded \<noteq> None then (Ok (StatusCredentialExcluded, []), h1)
          else
            (case ask_presence ''FIDO2 Confirm Register'' (mc_ClientDataHash req) rpIDHash (h_presence h1) of
               (answer, P) \<Rightarrow>
                 let h2 = h1\<lparr>h_presence := P\<rparr> in
                 (case answer of
                    AskError e \<Rightarrow> (Ok (StatusOperationDenied, []), h2)
                  | NoAnswer \<Rightarrow> (Ok (StatusUserActionTimeout, []), h2)
                  | Answer result \<Rightarrow>
                      if \<not> res_OK result then (Ok (StatusOperationDenied, []), h2)
                      else make_credential_confirmed E req rpIDHash h2))))"

definition parseMakeCredentialRequest :: "Cbor \<Rightarrow> bytes \<Rightarrow> gerr + MakeCredentialRequest" where
  "parseMakeCredentialRequest C data = unmarshalMakeCredential C data"

section \<open>The direct call\<close>

definition attestation_object :: "bytes \<Rightarrow> bytes \<Rightarrow> goval" where
  "attestation_object authDataBytes sig =
     GMapStr [(''fmt'', GStr ''packed''), (''authData'', GBytes authDataBytes),
              (''attStmt'', GMapStr (attestation_statement sig))]"

text \<open>From the registration on.\<close>

definition make_credential_register ::
  "'s Env \<Rightarrow> MakeCredentialParams \<Rightarrow> bytes \<Rightarrow> 's Handler \<Rightarrow> MakeCredentialResult res \<times> 's Handler" where
  "make_credential_register E params rpIDHash h =
     and_then (register_key E rpIDHash h) (\<lambda>(credentialID, x, y) h1.
       let cred = \<lparr>cm_RPID = mp_RPID params, cm_RPName = mp_RPName params,
                   cm_UserID = mp_UserID params, cm_UserName = mp_UserName params,
                   cm_UserDisplayName = mp_UserDisplayName params, cm_CredentialID = credentialID,
                   cm_PublicKeyX = bigIntToBytes x, cm_PublicKeyY = bigIntToBytes y,
                   cm_CreatedAt = h_now h1\<rparr>;
           h2 = save_resident E (mp_ResidentKey params) cred h1
       in and_then (registration_auth_data E rpIDHash credentialID x y (mp_HmacSecret params) h2)
         (\<lambda>authDataBytes h3.
            and_then (attest E authDataBytes (mp_ClientDataHash params) h3) (\<lambda>sig h4.
              (case ctapMarshal (e_cbor E) (InVal (attestation_object authDataBytes sig)) of
                 Inl e \<Rightarrow> (Err e, h4)
               | Inr attestationObject \<Rightarrow>
                   (Ok \<lparr>mk_CredentialID = credentialID, mk_AttestationObject = attestationObject,
                        mk_AuthData = authDataBytes, mk_PublicKeyX = x, mk_PublicKeyY = y,
                        mk_HmacSecretEnabled = mp_HmacSecret params\<rparr>, h4)))))"

definition MakeCredentialDirect ::
  "'s Env \<Rightarrow> MakeCredentialParams \<Rightarrow> 's Handler \<Rightarrow> MakeCredentialResult res \<times> 's Handler" where
  "MakeCredentialDirect E params h =
     (if length (mp_ClientDataHash params) \<noteq> 32 then (Err (Ctap2Err C_ErrInvalidParameter), h)
      else
        let rpIDHash = HashRPID (mp_RPID params) in
        and_then (first_valid E ''exclude-check'' rpIDHash id (mp_ExcludeList params) h) (\<lambda>excluded h1.
          if excluded \<noteq> None then (Err (Ctap2Err C_ErrCredentialExcluded), h1)
          else make_credential_register E params rpIDHash h1))"

section \<open>What the steps produce\<close>

lemma attest_ok:
  assumes "ec_ok (e_crypto E)" "rng_good (h_rng h)"
  shows "\<exists>sig r. attest E ad cdh h = (Ok sig, h\<lparr>h_rng := r\<rparr>) \<and> rng_good r \<and>
    (case ecScalarBaseMult (e_crypto E) attestation_key of
       (ax, ay) \<Rightarrow> ecdsaVerify (e_crypto E) ax ay (sha256 (ad @ cdh)) sig)"
  using ec_ok_sign [OF assms conjunct1 [OF attestation_key_range] conjunct2 [OF attestation_key_range],
      of "sha256 (ad @ cdh)"]
  by (auto simp: attest_def)

lemma registration_flags:
  "FlagUserPresent OR FlagUserVerified OR FlagAttestedCredData = 0x45"
  "0x45 OR FlagExtensionData = 0xC5"
  by (simp_all add: FlagUserPresent_def FlagUserVerified_def FlagAttestedCredData_def FlagExtensionData_def)

definition hmac_secret_ext :: "Cbor \<Rightarrow> bool \<Rightarrow> bytes" where
  "hmac_secret_ext C b = (if b then marshal_ignoring_err C (GMapStr [(''hmac-secret'', GBool True)]) else [])"

lemma registration_auth_data_parses:
  assumes "registration_auth_data E rph cid x y hs h = (Ok ad, h')"
    and "length rph = 32" "length (h_aaguid h) = 16" "length cid < 65536"
  shows "\<exists>cose n. BuildCOSEPublicKeyES256 (e_cbor E) x y = Inr cose \<and> next_counter E h = (n, h') \<and>
    parse_auth ad = Some \<lparr>pa_rpIdHash = rph, pa_flags = (if hs then 0xC5 else 0x45), pa_signCount = unat n,
      pa_credential = Some (h_aaguid h, cid), pa_rest = cose @ hmac_secret_ext (e_cbor E) hs\<rparr>"
proof -
  from assms(1) obtain cose n where c: "BuildCOSEPublicKeyES256 (e_cbor E) x y = Inr cose"
    and n: "next_counter E h = (n, h')"
    and ad: "ad = MarshalAuthData \<lparr>ad_RPIDHash = rph, ad_Flags = (if hs then 0xC5 else 0x45), ad_SignCount = n,
        ad_Attested = Some \<lparr>acd_AAGUID = h_aaguid h, acd_CredentialID = cid, acd_CredentialPublicKey = cose\<rparr>,
        ad_Extensions = hmac_secret_ext (e_cbor E) hs\<rparr>"
    by (auto simp: registration_auth_data_def Let_def registration_flags hmac_secret_ext_def
        split: sum.splits prod.splits)
  have "parse_auth ad = Some \<lparr>pa_rpIdHash = rph, pa_flags = (if hs then 0xC5 else 0x45), pa_signCount = unat n,
      pa_credential = Some (h_aaguid h, cid), pa_rest = cose @ hmac_secret_ext (e_cbor E) hs\<rparr>"
    unfolding ad using assms(2-4)
    by (subst parse_MarshalAuthData)
       (auto simp: FlagAttestedCredData_def ext_part_def FlagExtensionData_def hmac_secret_ext_def)
  with c n show ?thesis by blast
qed

lemma next_counter_same: "next_counter E h = (n, h') \<Longrightarrow> same_but_signer h h'"
  by (auto simp: next_counter_def same_but_signer_def split: prod.splits)

lemma register_key_same: "register_key E a h = (r, h') \<Longrightarrow> same_but_signer h h'"
  by (auto simp: register_key_def same_but_signer_def split: prod.splits)

lemma registration_same: "registration_auth_data E rph cid x y hs h = (r, h') \<Longrightarrow> same_but_signer h h'"
  by (auto simp: registration_auth_data_def Let_def dest: next_counter_same split: sum.splits prod.splits)

text \<open>The stages of a successful direct registration.\<close>

lemma make_credential_register_stages:
  assumes "make_credential_register E p rph h = (Ok res, h')"
  obtains x y h1 h2 h3 sig where
    "register_key E rph h = (Ok (mk_CredentialID res, x, y), h1)"
    "h2 = save_resident E (mp_ResidentKey p)
       \<lparr>cm_RPID = mp_RPID p, cm_RPName = mp_RPName p, cm_UserID = mp_UserID p, cm_UserName = mp_UserName p,
        cm_UserDisplayName = mp_UserDisplayName p, cm_CredentialID = mk_CredentialID res,
        cm_PublicKeyX = bigIntToBytes x, cm_PublicKeyY = bigIntToBytes y, cm_CreatedAt = h_now h1\<rparr> h1"
    "registration_auth_data E rph (mk_CredentialID res) x y (mp_HmacSecret p) h2 = (Ok (mk_AuthData res), h3)"
    "attest E (mk_AuthData res) (mp_ClientDataHash p) h3 = (Ok sig, h')"
    "ctapMarshal (e_cbor E) (InVal (attestation_object (mk_AuthData res) sig)) = Inr (mk_AttestationObject res)"
    "mk_PublicKeyX res = x" "mk_PublicKeyY res = y" "mk_HmacSecretEnabled res = mp_HmacSecret p"
proof -
  let ?cred = "\<lambda>cid x y h1. \<lparr>cm_RPID = mp_RPID p, cm_RPName = mp_RPName p, cm_UserID = mp_UserID p,
        cm_UserName = mp_UserName p, cm_UserDisplayName = mp_UserDisplayName p, cm_CredentialID = cid,
        cm_PublicKeyX = bigIntToBytes x, cm_PublicKeyY = bigIntToBytes y, cm_CreatedAt = h_now h1\<rparr>"
  from assms obtain cid x y h1 ad h3 sig h4 where
    r: "register_key E rph h = (Ok (cid, x, y), h1)"
    and a: "registration_auth_data E rph cid x y (mp_HmacSecret p)
         (save_resident E (mp_ResidentKey p) (?cred cid x y h1) h1) = (Ok ad, h3)"
    and s: "attest E ad (mp_ClientDataHash p) h3 = (Ok sig, h4)"
    and m: "(case ctapMarshal (e_cbor E) (InVal (attestation_object ad sig)) of
         Inl e \<Rightarrow> (Err e, h4)
       | Inr obj \<Rightarrow> (Ok \<lparr>mk_CredentialID = cid, mk_AttestationObject = obj, mk_AuthData = ad, mk_PublicKeyX = x,
            mk_PublicKeyY = y, mk_HmacSecretEnabled = mp_HmacSecret p\<rparr>, h4)) = (Ok res, h')"
    by (auto simp: make_credential_register_def and_then_eq_Ok Let_def)
  from m obtain obj where o: "ctapMarshal (e_cbor E) (InVal (attestation_object ad sig)) = Inr obj"
    and res: "res = \<lparr>mk_CredentialID = cid, mk_AttestationObject = obj, mk_AuthData = ad, mk_PublicKeyX = x,
            mk_PublicKeyY = y, mk_HmacSecretEnabled = mp_HmacSecret p\<rparr>" and h4: "h4 = h'"
    by (auto split: sum.splits)
  show thesis
    by (rule that [of x y h1 _ h3 sig]) (use r a s o in \<open>simp_all add: res h4\<close>)
qed

context signer_contract
begin

lemma direct_excludes:
  assumes "e_signer E = S" "inv (h_signer h)" "length (mp_ClientDataHash p) = 32"
    and "i \<in> set (mp_ExcludeList p)" "knows (h_signer h) i (HashRPID (mp_RPID p)) x y"
  shows "\<exists>h'. MakeCredentialDirect E p h = (Err (Ctap2Err C_ErrCredentialExcluded), h') \<and> same_but_signer h h' \<and>
    grows inv knows (h_signer h) (h_signer h')"
proof -
  obtain r h1 where f: "first_valid E ''exclude-check'' (HashRPID (mp_RPID p)) id (mp_ExcludeList p) h = (r, h1)"
    by fastforce
  from first_valid_contract [OF assms(1,2) f] assms(4,5) obtain c where "r = Ok (Some c)"
    "grows inv knows (h_signer h) (h_signer h1)" by (auto split: option.splits)
  with f first_valid_same [OF f] assms(3) show ?thesis
    by (simp add: MakeCredentialDirect_def Let_def)
qed

lemma direct_registers:
  assumes "e_signer E = S" "inv (h_signer h)" "MakeCredentialDirect E p h = (Ok res, h')"
  shows "grows inv knows (h_signer h) (h_signer h') \<and>
    knows (h_signer h') (mk_CredentialID res) (HashRPID (mp_RPID p)) (mk_PublicKeyX res) (mk_PublicKeyY res) \<and>
    length (mk_CredentialID res) < 65536"
proof -
  let ?rph = "HashRPID (mp_RPID p)"
  from assms(3) obtain h1 where f: "first_valid E ''exclude-check'' ?rph id (mp_ExcludeList p) h = (Ok None, h1)"
    and r: "make_credential_register E p ?rph h1 = (Ok res, h')"
    by (auto simp: MakeCredentialDirect_def Let_def and_then_eq_Ok split: if_splits)
  from first_valid_contract [OF assms(1,2) f] have g1: "grows inv knows (h_signer h) (h_signer h1)" by simp
  then have i1: "inv (h_signer h1)" by (simp add: grows_def)
  from r show ?thesis
  proof (cases rule: make_credential_register_stages)
    case (1 x y h2 h3 h4 sig)
    from register_grows [OF assms(1) i1 1(1)] have g2: "grows inv knows (h_signer h1) (h_signer h2)"
      and k: "knows (h_signer h2) (mk_CredentialID res) ?rph x y" by auto
    have s: "h_signer h3 = h_signer h2" by (simp add: 1(2))
    then have i3: "inv (h_signer h3)" using g2 by (simp add: grows_def)
    from 1(3) obtain n where "next_counter E h3 = (n, h4)"
      by (auto simp: registration_auth_data_def Let_def split: sum.splits prod.splits)
    from counter_grows [OF assms(1) i3 this] have g4: "grows inv knows (h_signer h2) (h_signer h4)" by (simp add: s)
    from 1(4) have "h_signer h' = h_signer h4" by (auto simp: attest_def split: sum.splits prod.splits)
    moreover have "length (mk_CredentialID res) < 65536"
      using 1(1) i1 register_length [of "h_signer h1"] assms(1) by (auto simp: register_key_def split: prod.splits)
    ultimately show ?thesis using g1 g2 g4 k 1(6,7) by (auto simp: grows_def)
  qed
qed

end

lemma direct_auth_data:
  assumes "MakeCredentialDirect E p h = (Ok res, h')" "ec_ok (e_crypto E)" "rng_good (h_rng h)"
    and "length (h_aaguid h) = 16" "length (mk_CredentialID res) < 65536"
  shows "(\<exists>cose n. BuildCOSEPublicKeyES256 (e_cbor E) (mk_PublicKeyX res) (mk_PublicKeyY res) = Inr cose \<and>
      parse_auth (mk_AuthData res) =
        Some \<lparr>pa_rpIdHash = HashRPID (mp_RPID p), pa_flags = (if mp_HmacSecret p then 0xC5 else 0x45),
          pa_signCount = n, pa_credential = Some (h_aaguid h, mk_CredentialID res),
          pa_rest = cose @ hmac_secret_ext (e_cbor E) (mp_HmacSecret p)\<rparr>) \<and>
    (\<exists>sig. ctapMarshal (e_cbor E) (InVal (attestation_object (mk_AuthData res) sig)) = Inr (mk_AttestationObject res) \<and>
      (case ecScalarBaseMult (e_crypto E) attestation_key of
         (ax, ay) \<Rightarrow> ecdsaVerify (e_crypto E) ax ay (sha256 (mk_AuthData res @ mp_ClientDataHash p)) sig))"
proof -
  let ?rph = "HashRPID (mp_RPID p)"
  from assms(1) obtain h1 where f: "first_valid E ''exclude-check'' ?rph id (mp_ExcludeList p) h = (Ok None, h1)"
    and r: "make_credential_register E p ?rph h1 = (Ok res, h')"
    by (auto simp: MakeCredentialDirect_def Let_def and_then_eq_Ok split: if_splits)
  from first_valid_same [OF f] have s1: "h_aaguid h1 = h_aaguid h" "h_rng h1 = h_rng h"
    using same_but_signer_fields by blast+
  from r show ?thesis
  proof (cases rule: make_credential_register_stages)
    case (1 x y h2 h3 h4 sig)
    from same_but_signer_fields [OF register_key_same [OF 1(1)]] s1
    have s3: "h_aaguid h3 = h_aaguid h" "h_rng h3 = h_rng h" by (simp_all add: 1(2))
    from same_but_signer_fields [OF registration_same [OF 1(3)]] s3 have "h_rng h4 = h_rng h" by simp
    with assms(3) have "rng_good (h_rng h4)" by simp
    from attest_ok [OF assms(2) this, of "mk_AuthData res" "mp_ClientDataHash p"] 1(4,5)
    have att: "\<exists>sig. ctapMarshal (e_cbor E) (InVal (attestation_object (mk_AuthData res) sig)) = Inr (mk_AttestationObject res) \<and>
      (case ecScalarBaseMult (e_crypto E) attestation_key of
         (ax, ay) \<Rightarrow> ecdsaVerify (e_crypto E) ax ay (sha256 (mk_AuthData res @ mp_ClientDataHash p)) sig)"
      by auto
    from registration_auth_data_parses [OF 1(3)] assms(4,5) s3 1(6,7) att show ?thesis by auto
  qed
qed

text \<open>Over the memory backend, with encoders that do not fail, the registration goes through.\<close>

definition encodes_all :: "Cbor \<Rightarrow> bool" where
  "encodes_all C \<longleftrightarrow> (\<forall>v. \<exists>b. ctapMarshal C v = Inr b)"

text \<open>Once the backend has registered a key, only encoding and the attestation signature could fail.\<close>

lemma register_succeeds:
  assumes r: "register_key E rph h = (Ok (k, x, y), h1)" and "ec_ok (e_crypto E)" "rng_good (h_rng h)"
    and "encodes_all (e_cbor E)"
  shows "\<exists>res h'. make_credential_register E p rph h = (Ok res, h') \<and> mk_CredentialID res = k"
proof -
  define cred where "cred = \<lparr>cm_RPID = mp_RPID p, cm_RPName = mp_RPName p, cm_UserID = mp_UserID p,
    cm_UserName = mp_UserName p, cm_UserDisplayName = mp_UserDisplayName p, cm_CredentialID = k,
    cm_PublicKeyX = bigIntToBytes x, cm_PublicKeyY = bigIntToBytes y, cm_CreatedAt = h_now h1\<rparr>"
  let ?h2 = "save_resident E (mp_ResidentKey p) cred h1"
  from assms(4) obtain cose where "BuildCOSEPublicKeyES256 (e_cbor E) x y = Inr cose"
    by (fastforce simp: encodes_all_def BuildCOSEPublicKeyES256_def Let_def)
  then obtain ad h3 where a: "registration_auth_data E rph k x y (mp_HmacSecret p) ?h2 = (Ok ad, h3)"
    by (cases "next_counter E ?h2") (auto simp: registration_auth_data_def Let_def)
  from same_but_signer_fields [OF registration_same [OF a]] same_but_signer_fields [OF register_key_same [OF r]]
  have "h_rng h3 = h_rng h" by simp
  with assms(3) have "rng_good (h_rng h3)" by simp
  with assms(2) obtain sig r3 where s: "attest E ad (mp_ClientDataHash p) h3 = (Ok sig, h3\<lparr>h_rng := r3\<rparr>)"
    using attest_ok by blast
  from assms(4) obtain obj where o: "ctapMarshal (e_cbor E) (InVal (attestation_object ad sig)) = Inr obj"
    unfolding encodes_all_def by blast
  show ?thesis
    unfolding make_credential_register_def r and_then_simps Let_def case_prod_conv cred_def [symmetric] a s o
    by simp
qed

lemma mem_registers:
  assumes "e_signer E = mem_signer (e_crypto E)" "mem_inv (e_crypto E) (h_signer h)" "rng_good (h_rng h)"
    and "encodes_all (e_cbor E)"
  shows "\<exists>res h'. make_credential_register E p rph h = (Ok res, h') \<and> length (mk_CredentialID res) = 72"
proof -
  from mem_RegisterKey_ok [OF assms(2), of rph] obtain k x y m where
    m: "mem_RegisterKey (e_crypto E) rph (h_signer h) = (Ok (k, x, y), m)" and k: "length k = 72" by blast
  have r: "register_key E rph h = (Ok (k, x, y), h\<lparr>h_signer := m\<rparr>)"
    by (simp add: register_key_def assms(1) m mem_signer_def [of "e_crypto E"])
  have "ec_ok (e_crypto E)" using assms(2) by (simp add: mem_inv_def crypto_ok_def)
  from register_succeeds [OF r this assms(3,4), of p] k show ?thesis by auto
qed

text \<open>A handle of \<open>mem0\<close> for every relying party.\<close>

definition handle0 :: bytes where
  "handle0 = replicate 24 0 @ be_fixed 32 7 @ replicate 16 0"

lemma handle0_known: "mem_knows crypto0 mem0 handle0 a 7 7"
  unfolding mem_knows_def
  by (rule exI [of _ "be_fixed 32 7"])
     (simp add: handle0_def NonceSizeX_def crypto0_def be_nat_be_fixed p256_order_def)

definition params1 :: "bytes list \<Rightarrow> MakeCredentialParams" where
  "params1 excl = \<lparr>mp_ClientDataHash = replicate 32 4, mp_RPID = ''a.org'', mp_RPName = ''A'', mp_UserID = [1],
     mp_UserName = ''u'', mp_UserDisplayName = ''U'', mp_ResidentKey = True, mp_HmacSecret = True,
     mp_ExcludeList = excl\<rparr>"

lemma env0_contract: "signer_contract (e_signer env0) (mem_inv crypto0) (mem_knows crypto0) (ecdsaVerify crypto0)"
  unfolding env0_def Env.simps by (rule mem.signer_contract_axioms)

lemma handler0_fields:
  "h_signer handler0 = mem0" "h_rng handler0 = rng0" "length (h_aaguid handler0) = 16"
  "h_storage handler0 = Some (empty_storage ''p'')"
  by (simp_all add: handler0_def NewHandler_def)

lemma env0_encodes: "encodes_all (e_cbor env0)"
  by (simp add: encodes_all_def env0_def cbor0_def)

lemma direct_registers0:
  "\<exists>res h'. MakeCredentialDirect env0 (params1 []) handler0 = (Ok res, h') \<and> length (mk_CredentialID res) = 72"
  using mem_registers [of env0 handler0 "params1 []" "HashRPID ''a.org''"]
  by (simp add: env0_encodes handler0_fields mem0_inv rng0_good MakeCredentialDirect_def params1_def)
     (simp add: env0_def mem0_inv)

section \<open>The two entry points compared\<close>

definition params_of :: "MakeCredentialRequest \<Rightarrow> MakeCredentialParams" where
  "params_of req =
     \<lparr>mp_ClientDataHash = mc_ClientDataHash req, mp_RPID = rp_ID (mc_RP req), mp_RPName = rp_Name (mc_RP req),
      mp_UserID = ue_ID (mc_User req), mp_UserName = ue_Name (mc_User req),
      mp_UserDisplayName = ue_DisplayName (mc_User req), mp_ResidentKey = option_set (mc_Options req) ''rk'',
      mp_HmacSecret = (extension_of (mc_Extensions req) ''hmac-secret'' \<noteq> None),
      mp_ExcludeList = map pd_ID (mc_ExcludeList req)\<rparr>"

lemma params_of_sel:
  "mp_ClientDataHash (params_of req) = mc_ClientDataHash req" "mp_RPID (params_of req) = rp_ID (mc_RP req)"
  "mp_RPName (params_of req) = rp_Name (mc_RP req)" "mp_UserID (params_of req) = ue_ID (mc_User req)"
  "mp_UserName (params_of req) = ue_Name (mc_User req)"
  "mp_UserDisplayName (params_of req) = ue_DisplayName (mc_User req)"
  "mp_ResidentKey (params_of req) = option_set (mc_Options req) ''rk''"
  "mp_HmacSecret (params_of req) = (extension_of (mc_Extensions req) ''hmac-secret'' \<noteq> None)"
  "mp_ExcludeList (params_of req) = map pd_ID (mc_ExcludeList req)"
  by (simp_all add: params_of_def)

definition same_registration :: "'s Env \<Rightarrow> MakeCredentialResult res \<Rightarrow> ctap_reply \<Rightarrow> bool" where
  "same_registration E direct reply =
     (case direct of
        Ok res \<Rightarrow>
          (\<exists>sig enc. reply = Ok (StatusSuccess, enc) \<and>
             ctapMarshal (e_cbor E) (InMakeCredential \<lparr>mr_Fmt = ''packed'', mr_AuthData = mk_AuthData res,
               mr_AttStmt = attestation_statement sig\<rparr>) = Inr enc \<and>
             ctapMarshal (e_cbor E) (InVal (attestation_object (mk_AuthData res) sig)) = Inr (mk_AttestationObject res))
      | Err e \<Rightarrow> reply = Ok (StatusOther, [])
      | Panic m \<Rightarrow> reply = Panic m)"

lemma attested_agree:
  assumes "encodes_all (e_cbor E)"
  shows "\<exists>d r h'. and_then ah (\<lambda>ad h3. and_then (attest E ad hash h3) (\<lambda>sig h4.
      (case ctapMarshal (e_cbor E) (InVal (attestation_object ad sig)) of
         Inl e \<Rightarrow> (Err e, h4)
       | Inr obj \<Rightarrow> (Ok \<lparr>mk_CredentialID = k, mk_AttestationObject = obj, mk_AuthData = ad, mk_PublicKeyX = x,
            mk_PublicKeyY = y, mk_HmacSecretEnabled = hs\<rparr>, h4)))) = (d, h') \<and>
    or_status StatusOther ah (\<lambda>ad h3. or_status StatusOther (attest E ad hash h3) (\<lambda>sig h4.
      (case ctapMarshal (e_cbor E) (InMakeCredential \<lparr>mr_Fmt = ''packed'', mr_AuthData = ad,
              mr_AttStmt = attestation_statement sig\<rparr>) of
         Inl e \<Rightarrow> (Ok (StatusOther, []), h4)
       | Inr encoded \<Rightarrow> (Ok (StatusSuccess, encoded), h4)))) = (r, h') \<and> same_registration E d r"
proof -
  obtain a h3 where ah: "ah = (a, h3)" by fastforce
  show ?thesis
  proof (cases a)
    case ad: (Ok ad)
    obtain b h4 where b: "attest E ad hash h3 = (b, h4)" by fastforce
    show ?thesis
    proof (cases b)
      case sig: (Ok sig)
      obtain obj enc where "ctapMarshal (e_cbor E) (InVal (attestation_object ad sig)) = Inr obj"
        "ctapMarshal (e_cbor E) (InMakeCredential \<lparr>mr_Fmt = ''packed'', mr_AuthData = ad,
           mr_AttStmt = attestation_statement sig\<rparr>) = Inr enc"
        using assms unfolding encodes_all_def by blast
      with ah ad b sig show ?thesis by (auto simp: same_registration_def)
    qed (use ah ad b in \<open>auto simp: same_registration_def\<close>)
  qed (use ah in \<open>auto simp: same_registration_def\<close>)
qed

lemma confirmed_as_register:
  assumes "encodes_all (e_cbor E)"
  shows "\<exists>d r h'. make_credential_register E (params_of req) rph h = (d, h') \<and>
    make_credential_confirmed E req rph h = (r, h') \<and> same_registration E d r"
proof (cases "register_key E rph h")
  case (Pair q h1)
  show ?thesis
  proof (cases q)
    case (Ok kxy)
    obtain k x y where kxy: "kxy = (k, x, y)" by (cases kxy)
    show ?thesis
      unfolding make_credential_register_def make_credential_confirmed_def Pair Ok kxy and_then_simps
        or_status_simps case_prod_conv Let_def params_of_sel
      by (rule attested_agree [OF assms])
  qed (use Pair in \<open>auto simp: make_credential_register_def make_credential_confirmed_def same_registration_def\<close>)
qed

text \<open>Probing neither reads nor writes the presence state.\<close>

lemma first_valid_presence:
  "first_valid E msg a f cs (h\<lparr>h_presence := P\<rparr>) =
     (case first_valid E msg a f cs h of (r, h') \<Rightarrow> (r, h'\<lparr>h_presence := P\<rparr>))"
proof (induction cs arbitrary: h)
  case (Cons c cs)
  obtain q s where q: "SignASN1 (e_signer E) (f c) a (sha256 (str_bytes msg)) (h_signer h) = (q, s)" by fastforce
  have u: "h\<lparr>h_signer := s, h_presence := P\<rparr> = h\<lparr>h_presence := P, h_signer := s\<rparr>" by simp
  show ?case
    using Cons.IH [of "h\<lparr>h_signer := s\<rparr>"] by (cases q) (simp_all add: sign_def q u [symmetric])
qed simp

lemma first_valid_no_err: "fst (first_valid E msg a f cs h) \<noteq> Err e"
proof (induction cs arbitrary: h)
  case (Cons c cs)
  obtain q h1 where "sign E (f c) a (sha256 (str_bytes msg)) h = (q, h1)" by fastforce
  with Cons.IH [of h1] show ?case by (cases q) auto
qed simp

lemma first_valid_map:
  "first_valid E msg a id (map f cs) h =
     (case first_valid E msg a f cs h of (r, h') \<Rightarrow>
        (case r of Ok found \<Rightarrow> Ok (map_option f found) | Err e \<Rightarrow> Err e | Panic m \<Rightarrow> Panic m, h'))"
proof (induction cs arbitrary: h)
  case (Cons c cs)
  obtain q h1 where "sign E (f c) a (sha256 (str_bytes msg)) h = (q, h1)" by fastforce
  with Cons.IH [of h1] show ?case by (cases q) (auto split: prod.splits res.splits)
qed simp

section \<open>Properties\<close>



text \<open>
  C19. A successful registration is complete: the new credential belongs to the relying party and the
  returned public key, every credential known before is still known, the authenticator data parses to
  the RP id hash, the flags UP, UV and AT (and ED with the extension), the AAGUID, the credential ID
  and the COSE key, and the attestation object carries a signature over it and the client data hash
  that verifies under the attestation key.
\<close>

theorem MakeCredentialDirect_registers:
  assumes "signer_contract (e_signer E) ok knows verify" "ok (h_signer h)" "ec_ok (e_crypto E)" "rng_good (h_rng h)"
    and "length (h_aaguid h) = 16" "MakeCredentialDirect E p h = (Ok res, h')" "length (mk_CredentialID res) < 65536"
  shows "grows ok knows (h_signer h) (h_signer h') \<and>
    knows (h_signer h') (mk_CredentialID res) (HashRPID (mp_RPID p)) (mk_PublicKeyX res) (mk_PublicKeyY res) \<and>
    (\<exists>cose n. BuildCOSEPublicKeyES256 (e_cbor E) (mk_PublicKeyX res) (mk_PublicKeyY res) = Inr cose \<and>
      parse_auth (mk_AuthData res) =
        Some \<lparr>pa_rpIdHash = HashRPID (mp_RPID p), pa_flags = (if mp_HmacSecret p then 0xC5 else 0x45),
          pa_signCount = n, pa_credential = Some (h_aaguid h, mk_CredentialID res),
          pa_rest = cose @ hmac_secret_ext (e_cbor E) (mp_HmacSecret p)\<rparr>) \<and>
    (\<exists>sig. ctapMarshal (e_cbor E) (InVal (attestation_object (mk_AuthData res) sig)) = Inr (mk_AttestationObject res) \<and>
      (case ecScalarBaseMult (e_crypto E) attestation_key of
         (ax, ay) \<Rightarrow> ecdsaVerify (e_crypto E) ax ay (sha256 (mk_AuthData res @ mp_ClientDataHash p)) sig))"
  using signer_contract.direct_registers [OF assms(1) refl assms(2,6)]
    direct_auth_data [OF assms(6,3,4,5,7)] by blast

lemma MakeCredentialDirect_registers_witness:
  "\<exists>res h'. MakeCredentialDirect env0 (params1 []) handler0 = (Ok res, h') \<and>
     mem_knows crypto0 (h_signer h') (mk_CredentialID res) (HashRPID ''a.org'') (mk_PublicKeyX res) (mk_PublicKeyY res)"
proof -
  from direct_registers0 obtain res h' where r: "MakeCredentialDirect env0 (params1 []) handler0 = (Ok res, h')"
    and l: "length (mk_CredentialID res) < 65536" by auto
  have "mem_inv crypto0 (h_signer handler0)" "ec_ok (e_crypto env0)" "rng_good (h_rng handler0)"
    using crypto0_ok by (simp_all add: handler0_fields mem0_inv rng0_good env0_def crypto_ok_def)
  from MakeCredentialDirect_registers [OF env0_contract this handler0_fields(3) r l] r show ?thesis
    by (simp add: params1_def)
qed

text \<open>
  C22. The CTAP2 command and the direct call agree. Once the user has confirmed,
  \<^verbatim>\<open>MakeCredential\<close> on a valid ES256 request does what \<^verbatim>\<open>MakeCredentialDirect\<close> does on the same parameters:
  it ends in the same handler state, answers with the same authenticator data and attestation
  signature, refuses an excluded credential (before asking the user), and reports the other
  errors as \<^verbatim>\<open>StatusOther\<close>.
\<close>

theorem MakeCredential_agrees_with_direct:
  assumes "encodes_all (e_cbor E)" "length (mc_ClientDataHash req) = 32" "es256_requested (mc_PubKeyCredParams req)"
    and "ask_presence ''FIDO2 Confirm Register'' (mc_ClientDataHash req) (HashRPID (rp_ID (mc_RP req))) (h_presence h) =
           (Answer answer, P)" "res_OK answer"
  shows "\<exists>d h'. MakeCredentialDirect E (params_of req) (h\<lparr>h_presence := P\<rparr>) = (d, h') \<and>
    (\<exists>h2. d = Err (Ctap2Err C_ErrCredentialExcluded) \<and> h' = h2\<lparr>h_presence := P\<rparr> \<and>
            MakeCredential E req h = (Ok (StatusCredentialExcluded, []), h2) \<or>
          same_registration E d (fst (MakeCredential E req h)) \<and>
            (\<not> is_panic d \<longrightarrow> h' = snd (MakeCredential E req h)))"
proof -
  let ?rph = "HashRPID (rp_ID (mc_RP req))"
  obtain r h1 where f: "first_valid E ''exclude-check'' ?rph pd_ID (mc_ExcludeList req) h = (r, h1)" by fastforce
  then have f2: "first_valid E ''exclude-check'' ?rph id (map pd_ID (mc_ExcludeList req)) (h\<lparr>h_presence := P\<rparr>) =
      (case r of Ok found \<Rightarrow> Ok (map_option pd_ID found) | Err e \<Rightarrow> Err e | Panic m \<Rightarrow> Panic m, h1\<lparr>h_presence := P\<rparr>)"
    by (simp add: first_valid_map first_valid_presence)
  have pres: "h_presence h1 = h_presence h" using same_but_signer_fields [OF first_valid_same [OF f]] by simp
  have D: "MakeCredentialDirect E (params_of req) (h\<lparr>h_presence := P\<rparr>) =
      and_then (case r of Ok found \<Rightarrow> Ok (map_option pd_ID found) | Err e \<Rightarrow> Err e | Panic m \<Rightarrow> Panic m, h1\<lparr>h_presence := P\<rparr>)
        (\<lambda>excluded h1. if excluded \<noteq> None then (Err (Ctap2Err C_ErrCredentialExcluded), h1)
           else make_credential_register E (params_of req) ?rph h1)"
    unfolding MakeCredentialDirect_def params_of_sel Let_def f2 using assms(2) by simp
  have M: "MakeCredential E req h = and_then (r, h1) (\<lambda>excluded h1.
      if excluded \<noteq> None then (Ok (StatusCredentialExcluded, []), h1)
      else make_credential_confirmed E req ?rph (h1\<lparr>h_presence := P\<rparr>))"
    if "\<And>e. r \<noteq> Err e"
    using assms(2-5) f pres that by (cases r) (auto simp: MakeCredential_def Let_def)
  have ne: "r \<noteq> Err e" for e using first_valid_no_err [of E _ _ _ _ h e] f by (metis fst_conv)
  show ?thesis
  proof (cases r)
    case (Ok found)
    show ?thesis
    proof (cases found)
      case None
      from confirmed_as_register [OF assms(1), of req ?rph "h1\<lparr>h_presence := P\<rparr>"] D M [OF ne] Ok None
      show ?thesis by auto
    qed (use D M [OF ne] Ok in auto)
  qed (use D M [OF ne] ne in \<open>auto simp: same_registration_def\<close>)
qed

definition req1 :: MakeCredentialRequest where
  "req1 = \<lparr>mc_ClientDataHash = replicate 32 4, mc_RP = \<lparr>rp_ID = ''a.org'', rp_Name = ''A''\<rparr>,
     mc_User = \<lparr>ue_ID = [1], ue_Name = ''u'', ue_DisplayName = ''U''\<rparr>,
     mc_PubKeyCredParams = [\<lparr>kp_Type = ''public-key'', kp_Alg = -257\<rparr>, \<lparr>kp_Type = ''public-key'', kp_Alg = -7\<rparr>],
     mc_ExcludeList = [\<lparr>pd_Type = ''public-key'', pd_ID = [1, 2], pd_Transports = []\<rparr>],
     mc_Extensions = None, mc_Options = Some [(''rk'', True)], mc_PinUvAuthParam = [], mc_PinUvAuthProtocol = 0,
     mc_EnterpriseAttestation = 0\<rparr>"

lemma MakeCredential_agrees_with_direct_witness:
  "\<exists>d h' P. MakeCredentialDirect env0 (params_of req1) (handler0\<lparr>h_presence := P\<rparr>) = (d, h') \<and>
    (\<exists>h2. d = Err (Ctap2Err C_ErrCredentialExcluded) \<and> h' = h2\<lparr>h_presence := P\<rparr> \<or>
       same_registration env0 d (fst (MakeCredential env0 req1 (handler0\<lparr>h_presence := presence0 [(Received yes, True)]\<rparr>))))"
proof -
  let ?h = "handler0\<lparr>h_presence := presence0 [(Received yes, True)]\<rparr>"
  obtain P where P: "ask_presence ''FIDO2 Confirm Register'' (mc_ClientDataHash req1)
      (HashRPID (rp_ID (mc_RP req1))) (h_presence ?h) = (Answer yes, P)"
    by (simp add: ask_presence_def ConfirmPresence_def Let_def presence0_def next_wait_def cleared_by_now_def)
  have "length (mc_ClientDataHash req1) = 32" "es256_requested (mc_PubKeyCredParams req1)" "res_OK yes"
    by (simp_all add: req1_def es256_requested_def CredentialTypePublicKey_def COSEAlgES256_def yes_def)
  from MakeCredential_agrees_with_direct [OF env0_encodes this(1,2) P this(3)] show ?thesis
    by auto
qed

text \<open>What a registration does to the store is the one \<^verbatim>\<open>Save\<close> of its credential.\<close>

lemma MakeCredentialDirect_saves:
  assumes "MakeCredentialDirect E p h = (Ok res, h')" "h_storage h = Some cs"
  obtains c e cs' fs' where
    "cm_RPID c = mp_RPID p" "cm_CredentialID c = mk_CredentialID res" "cm_UserID c = mp_UserID p"
    "cm_UserName c = mp_UserName p" "cm_UserDisplayName c = mp_UserDisplayName p"
    "Save (e_json E) c cs (h_fs h) = (e, cs', fs')"
    "h_storage h' = Some (if mp_ResidentKey p then cs' else cs)" "h_fs h' = (if mp_ResidentKey p then fs' else h_fs h)"
proof -
  let ?rph = "HashRPID (mp_RPID p)"
  from assms(1) obtain h1 where f: "first_valid E ''exclude-check'' ?rph id (mp_ExcludeList p) h = (Ok None, h1)"
    and r: "make_credential_register E p ?rph h1 = (Ok res, h')"
    by (auto simp: MakeCredentialDirect_def Let_def and_then_eq_Ok split: if_splits)
  from same_but_signer_fields [OF first_valid_same [OF f]] assms(2)
  have s1: "h_storage h1 = Some cs" "h_fs h1 = h_fs h" by auto
  from r show thesis
  proof (cases rule: make_credential_register_stages)
    case (1 x y h2 h3 h4 sig)
    define c where "c = \<lparr>cm_RPID = mp_RPID p, cm_RPName = mp_RPName p, cm_UserID = mp_UserID p,
      cm_UserName = mp_UserName p, cm_UserDisplayName = mp_UserDisplayName p,
      cm_CredentialID = mk_CredentialID res, cm_PublicKeyX = bigIntToBytes x, cm_PublicKeyY = bigIntToBytes y,
      cm_CreatedAt = h_now h2\<rparr>"
    have s2: "h_storage h2 = Some cs" "h_fs h2 = h_fs h"
      using same_but_signer_fields [OF register_key_same [OF 1(1)]] s1 by auto
    obtain e cs' fs' where sv: "Save (e_json E) c cs (h_fs h) = (e, cs', fs')" by (metis prod_cases3)
    have "h_storage h' = h_storage h3" "h_fs h' = h_fs h3"
      using same_but_signer_fields [OF registration_same [OF 1(3)]] 1(4)
      by (auto simp: attest_def split: sum.splits prod.splits)
    moreover have "h3 = (if mp_ResidentKey p then h2\<lparr>h_storage := Some cs', h_fs := fs'\<rparr> else h2)"
      unfolding 1(2) c_def [symmetric] by (simp add: save_resident_def s2 sv)
    ultimately show thesis using that [of c e cs' fs'] s2 sv by (simp add: c_def)
  qed
qed

text \<open>
  C21. A resident registration is discoverable at once: after a successful \<^verbatim>\<open>MakeCredentialDirect\<close> with
  \<^verbatim>\<open>ResidentKey\<close>, whatever the file system did, the store lists the new credential with the user's
  data under its relying party, as the only one of that user there, and every other relying party's
  list is as before. Without \<^verbatim>\<open>ResidentKey\<close> the store and the files are untouched.
\<close>

theorem MakeCredentialDirect_stores:
  assumes "MakeCredentialDirect E p h = (Ok res, h')" "h_storage h = Some cs" "store_ok cs"
  shows "if mp_ResidentKey p then
      (\<exists>cs'. h_storage h' = Some cs' \<and> store_ok cs' \<and>
        (\<exists>c \<in> set (GetByRPID cs' (mp_RPID p)).
           cm_CredentialID c = mk_CredentialID res \<and> cm_UserID c = mp_UserID p \<and> cm_UserName c = mp_UserName p \<and>
           cm_UserDisplayName c = mp_UserDisplayName p) \<and>
        (\<forall>c \<in> set (GetByRPID cs' (mp_RPID p)). cm_UserID c = mp_UserID p \<longrightarrow> cm_CredentialID c = mk_CredentialID res) \<and>
        (\<forall>rp. rp \<noteq> mp_RPID p \<longrightarrow> GetByRPID cs' rp = GetByRPID cs rp))
    else h_storage h' = Some cs \<and> h_fs h' = h_fs h"
proof -
  from MakeCredentialDirect_saves [OF assms(1,2)] obtain c e cs' fs' where
    c: "cm_RPID c = mp_RPID p" "cm_CredentialID c = mk_CredentialID res" "cm_UserID c = mp_UserID p"
      "cm_UserName c = mp_UserName p" "cm_UserDisplayName c = mp_UserDisplayName p"
    and sv: "Save (e_json E) c cs (h_fs h) = (e, cs', fs')"
    and st: "h_storage h' = Some (if mp_ResidentKey p then cs' else cs)" "h_fs h' = (if mp_ResidentKey p then fs' else h_fs h)"
    by blast
  note sk = cred_store.save_keeps [OF assms(3) sv]
  note sf = cred_store.save_found [OF assms(3) sv, unfolded c(1)]
  note so = cred_store.save_other_rp [OF assms(3) sv, unfolded c(1)]
  note sr = cred_store.save_replaces [OF assms(3) sv, unfolded c(1,3)]
  have "\<forall>d \<in> set (GetByRPID cs' (mp_RPID p)). cm_UserID d = mp_UserID p \<longrightarrow> cm_CredentialID d = mk_CredentialID res"
    using sr c(2) by blast
  with st sk sf so c(2-5) show ?thesis by auto
qed

lemma MakeCredentialDirect_stores_witness:
  "\<exists>res h' cs'. MakeCredentialDirect env0 (params1 []) handler0 = (Ok res, h') \<and> h_storage h' = Some cs' \<and>
    (\<exists>c \<in> set (GetByRPID cs' ''a.org''). cm_CredentialID c = mk_CredentialID res \<and> cm_UserName c = ''u'')"
proof -
  from direct_registers0 obtain res h' where r: "MakeCredentialDirect env0 (params1 []) handler0 = (Ok res, h')" by blast
  from MakeCredentialDirect_stores [OF r handler0_fields(4) empty_storage_ok] r show ?thesis
    by (auto simp: params1_def)
qed

end
