(* ===== verification/GetAssertion.thy ===== *)
theory GetAssertion
  imports MakeCredential "HOL-Library.Sublist"
begin

text \<open>
  \<^verbatim>\<open>ctap2/getassertion.go\<close>: the CTAP2 command with user presence, which leaves the state
  \<open>GetNextAssertion\<close> continues from, and \<open>GetAssertionDirect\<close> and \<open>FindCredentials\<close> of the WebAuthn layer.
\<close>

section \<open>Structures\<close>

record GetAssertionParams =
  gp_ClientDataHash :: bytes
  gp_RPID :: string
  gp_AllowCredentials :: "bytes list"
  gp_HmacSecretInput :: "goval option"

record GetAssertionResult =
  gs_CredentialID :: bytes
  gs_AuthenticatorData :: bytes
  gs_Signature :: bytes
  gs_UserHandle :: bytes
  gs_UserName :: string
  gs_UserDisplayName :: string
  gs_HmacSecretOutput :: bytes

section \<open>Building a response\<close>

text \<open>The \<^verbatim>\<open>hmac-secret\<close> output as an encoded extension map; empty when not requested.\<close>

definition hmac_extension ::
  "'s Env \<Rightarrow> bytes \<Rightarrow> (string \<times> goval) list option \<Rightarrow> 's Handler \<Rightarrow> bytes res \<times> 's Handler" where
  "hmac_extension E credentialID extensions h =
     (case extension_of extensions ''hmac-secret'' of
        None \<Rightarrow> (Ok [], h)
      | Some hmacSecretInput \<Rightarrow>
          and_then (processHmacSecret E credentialID hmacSecretInput h) (\<lambda>hmacOutput h1.
            (Ok (marshal_ignoring_err (e_cbor E) (GMapStr [(''hmac-secret'', GBytes hmacOutput)])), h1)))"

text \<open>Authenticator data, and the signature over it followed by the client data hash.\<close>

definition signed_auth_data ::
  "'s Env \<Rightarrow> bytes \<Rightarrow> bytes \<Rightarrow> bytes \<Rightarrow> bool \<Rightarrow> bytes \<Rightarrow> 's Handler \<Rightarrow> (bytes \<times> bytes) res \<times> 's Handler" where
  "signed_auth_data E credentialID rpIDHash clientDataHash extFlag extensionsOutput h =
     (case assertion_auth_data E rpIDHash extFlag extensionsOutput h of
        (authDataBytes, h1) \<Rightarrow>
          and_then (sign E credentialID rpIDHash (sha256 (authDataBytes @ clientDataHash)) h1)
            (\<lambda>sig h2. (Ok (authDataBytes, sig), h2)))"

definition buildNonResidentAssertionResponse ::
  "'s Env \<Rightarrow> PublicKeyCredentialDescriptor \<Rightarrow> bytes \<Rightarrow> bytes \<Rightarrow> (string \<times> goval) list option \<Rightarrow>
   's Handler \<Rightarrow> ctap_reply \<times> 's Handler" where
  "buildNonResidentAssertionResponse E cred rpIDHash clientDataHash extensions h =
     or_status StatusExtensionFirst (hmac_extension E (pd_ID cred) extensions h) (\<lambda>extensionsOutput h1.
       or_status StatusOther
         (signed_auth_data E (pd_ID cred) rpIDHash clientDataHash (0 < length extensionsOutput) extensionsOutput h1)
         (\<lambda>(authDataBytes, sig) h2.
            (case ctapMarshal (e_cbor E)
                    (InGetAssertion
                       \<lparr>gr_Credential = Some \<lparr>pd_Type = CredentialTypePublicKey, pd_ID = pd_ID cred, pd_Transports = []\<rparr>,
                        gr_AuthData = authDataBytes, gr_Signature = sig, gr_User = None,
                        gr_NumberOfCredentials = 0\<rparr>) of
               Inl e \<Rightarrow> (Ok (StatusOther, []), h2)
             | Inr encoded \<Rightarrow> (Ok (StatusSuccess, encoded), h2))))"

definition buildAssertionResponse ::
  "'s Env \<Rightarrow> CredentialMetadata \<Rightarrow> bytes \<Rightarrow> bytes \<Rightarrow> (string \<times> goval) list option \<Rightarrow> nat \<Rightarrow> bool \<Rightarrow>
   's Handler \<Rightarrow> ctap_reply \<times> 's Handler" where
  "buildAssertionResponse E cred rpIDHash clientDataHash extensions totalCredentials isFirstResponse h =
     or_status StatusExtensionFirst (hmac_extension E (cm_CredentialID cred) extensions h) (\<lambda>extensionsOutput h1.
       or_status StatusOther
         (signed_auth_data E (cm_CredentialID cred) rpIDHash clientDataHash (0 < length extensionsOutput)
            extensionsOutput h1)
         (\<lambda>(authDataBytes, sig) h2.
            (case ctapMarshal (e_cbor E)
                    (InGetAssertion
                       \<lparr>gr_Credential = Some \<lparr>pd_Type = CredentialTypePublicKey, pd_ID = cm_CredentialID cred,
                                             pd_Transports = []\<rparr>,
                        gr_AuthData = authDataBytes, gr_Signature = sig,
                        gr_User = Some \<lparr>ue_ID = cm_UserID cred, ue_Name = cm_UserName cred,
                                       ue_DisplayName = cm_UserDisplayName cred\<rparr>,
                        gr_NumberOfCredentials =
                          (if isFirstResponse \<and> 1 < totalCredentials then totalCredentials else 0)\<rparr>) of
               Inl e \<Rightarrow> (Ok (StatusOther, []), h2)
             | Inr encoded \<Rightarrow> (Ok (StatusSuccess, encoded), h2))))"

section \<open>The CTAP2 command\<close>

text \<open>Waiting for the user, then \<open>k\<close>.\<close>

definition with_presence ::
  "bytes \<Rightarrow> bytes \<Rightarrow> 's Handler \<Rightarrow> ('s Handler \<Rightarrow> ctap_reply \<times> 's Handler) \<Rightarrow> ctap_reply \<times> 's Handler" where
  "with_presence clientDataHash rpIDHash h k =
     (case ask_presence ''FIDO2 Confirm Auth'' clientDataHash rpIDHash (h_presence h) of
        (answer, P) \<Rightarrow>
          let h1 = h\<lparr>h_presence := P\<rparr> in
          (case answer of
             AskError e \<Rightarrow> (Ok (StatusOperationDenied, []), h1)
           | NoAnswer \<Rightarrow> (Ok (StatusUserActionTimeout, []), h1)
           | Answer result \<Rightarrow> if \<not> res_OK result then (Ok (StatusOperationDenied, []), h1) else k h1))"

text \<open>The resident path after the lookup: the first credential, the others kept for later.\<close>

definition respond_resident ::
  "'s Env \<Rightarrow> GetAssertionRequest \<Rightarrow> bytes \<Rightarrow> CredentialMetadata list \<Rightarrow> 's Handler \<Rightarrow> ctap_reply \<times> 's Handler" where
  "respond_resident E req rpIDHash matched h =
     (let h1 = (if 1 < length matched
                then h\<lparr>h_assertionState := Some
                         \<lparr>as_credentials = matched, as_currentIndex = 0, as_rpIDHash = rpIDHash,
                          as_clientDataHash = ga_ClientDataHash req, as_extensionsInput = ga_Extensions req\<rparr>\<rparr>
                else h)
      in buildAssertionResponse E (hd matched) rpIDHash (ga_ClientDataHash req) (ga_Extensions req)
           (length matched) True h1)"

definition GetAssertion :: "'s Env \<Rightarrow> GetAssertionRequest \<Rightarrow> 's Handler \<Rightarrow> ctap_reply \<times> 's Handler" where
  "GetAssertion E req h0 =
     (let h = h0\<lparr>h_assertionState := None\<rparr> in
      if length (ga_ClientDataHash req) \<noteq> 32 then (Ok (StatusInvalidParameter, []), h)
      else
        let rpIDHash = HashRPID (ga_RPID req) in
        if 0 < length (ga_AllowList req) then
          and_then (first_valid E ''credential-check'' rpIDHash pd_ID (ga_AllowList req) h) (\<lambda>matched h1.
            case matched of
              None \<Rightarrow> (Ok (StatusNoCredentials, []), h1)
            | Some cred \<Rightarrow>
                with_presence (ga_ClientDataHash req) rpIDHash h1 (\<lambda>h2.
                  buildNonResidentAssertionResponse E cred rpIDHash (ga_ClientDataHash req) (ga_Extensions req) h2))
        else
          (case h_storage h of
             None \<Rightarrow> (Ok (StatusNoCredentials, []), h)
           | Some cs \<Rightarrow>
               let found = GetByRPID cs (ga_RPID req) in
               if found = [] then (Ok (StatusNoCredentials, []), h)
               else
                 and_then (all_valid E ''credential-check'' rpIDHash cm_CredentialID found h) (\<lambda>matched h1.
                   if matched = [] then (Ok (StatusNoCredentials, []), h1)
                   else
                     with_presence (ga_ClientDataHash req) rpIDHash h1 (\<lambda>h2.
                       respond_resident E req rpIDHash matched h2))))"

definition parseGetAssertionRequest :: "Cbor \<Rightarrow> bytes \<Rightarrow> gerr + GetAssertionRequest" where
  "parseGetAssertionRequest C data = unmarshalGetAssertion C data"

section \<open>The direct call\<close>

text \<open>
  The credential to use: the first of the allow list that signs, or without a list the first stored
  one that does, with the user's handle and names.
\<close>

definition choose_credential ::
  "'s Env \<Rightarrow> GetAssertionParams \<Rightarrow> bytes \<Rightarrow> 's Handler \<Rightarrow>
   (bytes \<times> bytes \<times> string \<times> string) res \<times> 's Handler" where
  "choose_credential E params rpIDHash h =
     (if 0 < length (gp_AllowCredentials params) then
        and_then (first_valid E ''credential-check'' rpIDHash id (gp_AllowCredentials params) h) (\<lambda>matched h1.
          case matched of
            None \<Rightarrow> (Err (Ctap2Err C_ErrNoCredentials), h1)
          | Some cred \<Rightarrow> (Ok (cred, [], [], []), h1))
      else
        (case h_storage h of
           None \<Rightarrow> (Err (Ctap2Err C_ErrNoCredentials), h)
         | Some cs \<Rightarrow>
             let found = GetByRPID cs (gp_RPID params) in
             if found = [] then (Err (Ctap2Err C_ErrNoCredentials), h)
             else
               and_then (first_valid E ''credential-check'' rpIDHash cm_CredentialID found h) (\<lambda>matched h1.
                 case matched of
                   None \<Rightarrow> (Err (Ctap2Err C_ErrNoCredentials), h1)
                 | Some cred \<Rightarrow>
                     (Ok (cm_CredentialID cred, cm_UserID cred, cm_UserName cred, cm_UserDisplayName cred), h1))))"

definition GetAssertionDirect ::
  "'s Env \<Rightarrow> GetAssertionParams \<Rightarrow> 's Handler \<Rightarrow> GetAssertionResult res \<times> 's Handler" where
  "GetAssertionDirect E params h =
     (if length (gp_ClientDataHash params) \<noteq> 32 then (Err (Ctap2Err C_ErrInvalidParameter), h)
      else
        let rpIDHash = HashRPID (gp_RPID params) in
        and_then (choose_credential E params rpIDHash h) (\<lambda>(credentialID, userHandle, userName, userDisplayName) h1.
          and_then (case gp_HmacSecretInput params of
                      None \<Rightarrow> (Ok [], h1)
                    | Some input \<Rightarrow> processHmacSecret E credentialID input h1) (\<lambda>hmacSecretOutput h2.
            let extensionsOutput =
                  (if 0 < length hmacSecretOutput
                   then marshal_ignoring_err (e_cbor E) (GMapStr [(''hmac-secret'', GBytes hmacSecretOutput)])
                   else [])
            in and_then
                 (signed_auth_data E credentialID rpIDHash (gp_ClientDataHash params) (0 < length hmacSecretOutput)
                    extensionsOutput h2)
                 (\<lambda>(authDataBytes, sig) h3.
                    (Ok \<lparr>gs_CredentialID = credentialID, gs_AuthenticatorData = authDataBytes, gs_Signature = sig,
                         gs_UserHandle = userHandle, gs_UserName = userName,
                         gs_UserDisplayName = userDisplayName, gs_HmacSecretOutput = hmacSecretOutput\<rparr>, h3)))))"

definition FindCredentials :: "'s Env \<Rightarrow> string \<Rightarrow> 's Handler \<Rightarrow> CredentialMetadata list res \<times> 's Handler" where
  "FindCredentials E rpID h =
     (case h_storage h of
        None \<Rightarrow> (Ok [], h)
      | Some cs \<Rightarrow> all_valid E ''credential-check'' (HashRPID rpID) cm_CredentialID (GetByRPID cs rpID) h)"

section \<open>What the steps produce\<close>

lemma processHmacSecret_state:
  assumes "processHmacSecret E credID raw h = (r, h')"
  shows "h' = h \<or> (\<exists>q. cred_random E credID h = (q, h'))"
proof -
  have a: "hmac_secret_answer E credID (sha256 z) input h = (r, h') \<Longrightarrow>
      h' = h \<or> (\<exists>q. cred_random E credID h = (q, h'))" for z input
    by (cases "aes_cbc_decrypt (sha256 z) (hs_SaltEnc input)")
       (auto simp: hmac_secret_answer_def Let_def hmac_secret_outputs_def split: if_splits prod.splits res.splits)
  show ?thesis using assms a
    by (fastforce simp: processHmacSecret_def Let_def ScalarMult_def split: sum.splits if_splits option.splits)
qed

lemma assertion_flags:
  "FlagUserPresent OR FlagUserVerified = 0x05" "0x05 OR FlagExtensionData = 0x85"
  by (simp_all add: FlagUserPresent_def FlagUserVerified_def FlagExtensionData_def)

lemma assertion_auth_data_parses:
  assumes "assertion_auth_data E rph ext out h = (ad, h')" "length rph = 32" "\<not> ext \<Longrightarrow> out = []"
  shows "\<exists>n. next_counter E h = (n, h') \<and>
    parse_auth ad = Some \<lparr>pa_rpIdHash = rph, pa_flags = (if ext then 0x85 else 0x05), pa_signCount = unat n,
      pa_credential = None, pa_rest = out\<rparr>"
proof -
  obtain n h1 where n: "next_counter E h = (n, h1)" by fastforce
  with assms(1) have "h1 = h'" and ad: "ad = MarshalAuthData \<lparr>ad_RPIDHash = rph,
      ad_Flags = (if ext then 0x85 else 0x05), ad_SignCount = n, ad_Attested = None, ad_Extensions = out\<rparr>"
    by (auto simp: assertion_auth_data_def Let_def assertion_flags)
  moreover have "parse_auth ad = Some \<lparr>pa_rpIdHash = rph, pa_flags = (if ext then 0x85 else 0x05),
      pa_signCount = unat n, pa_credential = None, pa_rest = out\<rparr>"
    unfolding ad using assms(2,3)
    by (subst parse_MarshalAuthData) (auto simp: FlagAttestedCredData_def ext_part_def FlagExtensionData_def)
  ultimately show ?thesis using n by blast
qed

text \<open>The assertion a relying party can check: signature, RP id hash, flags UP and UV.\<close>

definition good_assertion ::
  "(nat \<Rightarrow> nat \<Rightarrow> bytes \<Rightarrow> bytes \<Rightarrow> bool) \<Rightarrow> nat \<Rightarrow> nat \<Rightarrow> bytes \<Rightarrow> bytes \<Rightarrow> bytes \<Rightarrow> bytes \<Rightarrow> bool" where
  "good_assertion verify x y rpIDHash clientDataHash authData sig \<longleftrightarrow>
     verify x y (sha256 (authData @ clientDataHash)) sig \<and>
     (\<exists>pa. parse_auth authData = Some pa \<and> pa_rpIdHash pa = rpIDHash \<and> pa_flags pa AND 0x05 = 0x05 \<and>
        pa_credential pa = None)"

lemma GetAssertionDirect_stages:
  assumes "GetAssertionDirect E p h = (Ok as, h')"
  obtains h1 h2 ext where
    "length (gp_ClientDataHash p) = 32"
    "choose_credential E p (HashRPID (gp_RPID p)) h =
      (Ok (gs_CredentialID as, gs_UserHandle as, gs_UserName as, gs_UserDisplayName as), h1)"
    "(case gp_HmacSecretInput p of None \<Rightarrow> (Ok [], h1)
      | Some input \<Rightarrow> processHmacSecret E (gs_CredentialID as) input h1) = (Ok (gs_HmacSecretOutput as), h2)"
    "signed_auth_data E (gs_CredentialID as) (HashRPID (gp_RPID p)) (gp_ClientDataHash p)
       (0 < length (gs_HmacSecretOutput as)) ext h2 = (Ok (gs_AuthenticatorData as, gs_Signature as), h')"
    "ext = (if 0 < length (gs_HmacSecretOutput as)
       then marshal_ignoring_err (e_cbor E) (GMapStr [(''hmac-secret'', GBytes (gs_HmacSecretOutput as))]) else [])"
proof -
  from assms obtain c u n d h1 out h2 ad sig where
    l: "length (gp_ClientDataHash p) = 32"
    and c: "choose_credential E p (HashRPID (gp_RPID p)) h = (Ok (c, u, n, d), h1)"
    and m: "(case gp_HmacSecretInput p of None \<Rightarrow> (Ok [], h1)
        | Some input \<Rightarrow> processHmacSecret E c input h1) = (Ok out, h2)"
    and s: "signed_auth_data E c (HashRPID (gp_RPID p)) (gp_ClientDataHash p) (0 < length out)
        (if 0 < length out then marshal_ignoring_err (e_cbor E) (GMapStr [(''hmac-secret'', GBytes out)]) else []) h2 =
        (Ok (ad, sig), h')"
    and as: "as = \<lparr>gs_CredentialID = c, gs_AuthenticatorData = ad, gs_Signature = sig, gs_UserHandle = u,
        gs_UserName = n, gs_UserDisplayName = d, gs_HmacSecretOutput = out\<rparr>"
    by (cases "length (gp_ClientDataHash p) = 32") (auto simp: GetAssertionDirect_def Let_def and_then_eq_Ok)
  show thesis
    by (rule that [OF l, unfolded as GetAssertionResult.simps, OF c m s refl])
qed

context signer_contract
begin

lemma hmac_grows:
  assumes "e_signer E = S" "inv (h_signer h)" "processHmacSecret E c raw h = (r, h')"
  shows "grows inv knows (h_signer h) (h_signer h')"
  using processHmacSecret_state [OF assms(3)] cred_random_grows [OF assms(1,2)] assms(2)
  by (auto simp: grows_def)

lemma signed_auth_data_grows:
  assumes "e_signer E = S" "inv (h_signer h)" "signed_auth_data E c rph cdh ext out h = (r, h')"
  shows "grows inv knows (h_signer h) (h_signer h') \<and> \<not> is_panic r"
proof -
  obtain ad h1 where a: "assertion_auth_data E rph ext out h = (ad, h1)" by fastforce
  then obtain n where "next_counter E h = (n, h1)"
    by (auto simp: assertion_auth_data_def Let_def split: prod.splits)
  from counter_grows [OF assms(1,2) this] have g: "grows inv knows (h_signer h) (h_signer h1)" .
  then have "inv (h_signer h1)" by (simp add: grows_def)
  obtain q h2 where s: "sign E c rph (sha256 (ad @ cdh)) h1 = (q, h2)" by fastforce
  from sign_grows [OF assms(1) \<open>inv (h_signer h1)\<close> s] g have "grows inv knows (h_signer h) (h_signer h2)" "\<not> is_panic q"
    by (auto intro: grows_trans)
  with a s assms(3) show ?thesis by (cases q) (auto simp: signed_auth_data_def)
qed

lemma signed_auth_data_ok:
  assumes "e_signer E = S" "inv (h_signer h)" "knows (h_signer h) c rph x y" "length rph = 32"
    and "\<not> ext \<Longrightarrow> out = []"
  shows "\<exists>ad sig h'. signed_auth_data E c rph cdh ext out h = (Ok (ad, sig), h') \<and>
    good_assertion verify x y rph cdh ad sig"
proof -
  obtain ad h1 where a: "assertion_auth_data E rph ext out h = (ad, h1)" by fastforce
  from assertion_auth_data_parses [OF a assms(4,5)] obtain n where n: "next_counter E h = (n, h1)"
    and p: "parse_auth ad = Some \<lparr>pa_rpIdHash = rph, pa_flags = (if ext then 0x85 else 0x05), pa_signCount = unat n,
      pa_credential = None, pa_rest = out\<rparr>" by auto
  from counter_grows [OF assms(1,2) n] assms(3) have i: "inv (h_signer h1)" "knows (h_signer h1) c rph x y"
    by (auto simp: grows_def)
  obtain q h2 where s: "sign E c rph (sha256 (ad @ cdh)) h1 = (q, h2)" by fastforce
  from sign_known_verifies [OF assms(1) i s] obtain sig where "q = Ok sig" "verify x y (sha256 (ad @ cdh)) sig" by auto
  with a s p show ?thesis by (auto simp: signed_auth_data_def good_assertion_def)
qed

text \<open>A known credential that is the only one allowed is the one used.\<close>

lemma choose_allowed:
  assumes "e_signer E = S" "inv (h_signer h)" "gp_AllowCredentials p = [c]" "knows (h_signer h) c rph x y"
  shows "\<exists>h'. choose_credential E p rph h = (Ok (c, [], [], []), h') \<and> grows inv knows (h_signer h) (h_signer h') \<and>
    same_but_signer h h'"
proof -
  obtain r h1 where f: "first_valid E ''credential-check'' rph id [c] h = (r, h1)" by fastforce
  from first_valid_contract [OF assms(1,2) f] assms(4)
  have "r = Ok (Some c)" "grows inv knows (h_signer h) (h_signer h1)" by (auto split: option.splits)
  with f first_valid_same [OF f] assms(3) show ?thesis by (simp add: choose_credential_def del: first_valid.simps)
qed

lemma direct_signs:
  assumes "e_signer E = S" "inv (h_signer h)" "length (gp_ClientDataHash p) = 32"
    and "gp_AllowCredentials p = [c]" "knows (h_signer h) c (HashRPID (gp_RPID p)) x y" "gp_HmacSecretInput p = None"
  shows "\<exists>as h'. GetAssertionDirect E p h = (Ok as, h') \<and> gs_CredentialID as = c \<and>
    good_assertion verify x y (HashRPID (gp_RPID p)) (gp_ClientDataHash p) (gs_AuthenticatorData as) (gs_Signature as)"
proof -
  let ?rph = "HashRPID (gp_RPID p)"
  from choose_allowed [OF assms(1,2,4,5)] obtain h1 where
    c: "choose_credential E p ?rph h = (Ok (c, [], [], []), h1)" and g: "grows inv knows (h_signer h) (h_signer h1)" by blast
  from g assms(5) have k: "inv (h_signer h1)" "knows (h_signer h1) c ?rph x y" by (simp_all add: grows_def)
  from signed_auth_data_ok [OF assms(1) k, of False "[]" "gp_ClientDataHash p"] obtain ad sig h2 where
    s: "signed_auth_data E c ?rph (gp_ClientDataHash p) False [] h1 = (Ok (ad, sig), h2)"
    "good_assertion verify x y ?rph (gp_ClientDataHash p) ad sig" by auto
  show ?thesis
    unfolding GetAssertionDirect_def Let_def c and_then_simps case_prod_conv
    using assms(3,6) s by simp
qed

lemma choose_grows:
  assumes "e_signer E = S" "inv (h_signer h)" "choose_credential E p rph h = (r, h')"
  shows "grows inv knows (h_signer h) (h_signer h') \<and> same_but_signer h h'"
proof -
  have f: "grows inv knows (h_signer h) (h_signer g) \<and> same_but_signer h g"
    if "first_valid E m rph i cs h = (q, g)" for m i q g and cs :: "'d list"
    using first_valid_contract [OF assms(1,2) that] first_valid_same [OF that] by blast
  from assms(2,3) show ?thesis
    by (cases "0 < length (gp_AllowCredentials p)")
       (auto simp: choose_credential_def Let_def and_then_def dest!: f
          split: option.splits if_splits prod.splits res.splits)
qed

lemma direct_sound:
  assumes "e_signer E = S" "inv (h_signer h)" "GetAssertionDirect E p h = (Ok as, h')"
    and "knows (h_signer h) (gs_CredentialID as) (HashRPID (gp_RPID p)) x y"
  shows "good_assertion verify x y (HashRPID (gp_RPID p)) (gp_ClientDataHash p) (gs_AuthenticatorData as) (gs_Signature as)"
proof -
  let ?rph = "HashRPID (gp_RPID p)" and ?c = "gs_CredentialID as"
  from assms(3) obtain u n d h1 h2 ext where
    c: "choose_credential E p ?rph h = (Ok (?c, u, n, d), h1)"
    and m: "(case gp_HmacSecretInput p of None \<Rightarrow> (Ok [], h1)
        | Some input \<Rightarrow> processHmacSecret E ?c input h1) = (Ok (gs_HmacSecretOutput as), h2)"
    and s: "signed_auth_data E ?c ?rph (gp_ClientDataHash p) (0 < length (gs_HmacSecretOutput as)) ext h2 =
        (Ok (gs_AuthenticatorData as, gs_Signature as), h')"
    and ext: "\<not> 0 < length (gs_HmacSecretOutput as) \<Longrightarrow> ext = []"
    by (rule GetAssertionDirect_stages) auto
  from choose_grows [OF assms(1,2) c] assms(4) have k1: "inv (h_signer h1)" "knows (h_signer h1) ?c ?rph x y"
    by (auto simp: grows_def)
  have "grows inv knows (h_signer h1) (h_signer h2)"
    using m hmac_grows [OF assms(1) k1(1)] k1(1) by (auto simp: grows_def split: option.splits)
  with k1 have k2: "inv (h_signer h2)" "knows (h_signer h2) ?c ?rph x y" by (auto simp: grows_def)
  have "length ?rph = 32" by simp
  from signed_auth_data_ok [OF assms(1) k2 this ext, where cdh = "gp_ClientDataHash p"] obtain ad sig g where
    "signed_auth_data E ?c ?rph (gp_ClientDataHash p) (0 < length (gs_HmacSecretOutput as)) ext h2 = (Ok (ad, sig), g)"
    "good_assertion verify x y ?rph (gp_ClientDataHash p) ad sig" by blast
  with s show ?thesis by simp
qed

text \<open>Filtering keeps the order and never loses a credential the backend knows.\<close>

lemma all_valid_contract:
  assumes "e_signer E = S" "inv (h_signer h)" "all_valid E msg a f cs h = (r, h')"
  shows "grows inv knows (h_signer h) (h_signer h') \<and>
    (\<exists>l. r = Ok l \<and> subseq l cs \<and> (\<forall>c \<in> set cs. (\<exists>x y. knows (h_signer h) (f c) a x y) \<longrightarrow> c \<in> set l))"
  using assms(2,3)
proof (induction cs arbitrary: h r h')
  case Nil
  then show ?case by (auto simp: grows_def)
next
  case (Cons c cs)
  obtain q h1 where s: "sign E (f c) a (sha256 (str_bytes msg)) h = (q, h1)" by fastforce
  note g = sign_grows [OF assms(1) Cons.prems(1) s]
  then have i: "inv (h_signer h1)" by (simp add: grows_def)
  obtain q2 h2 where a: "all_valid E msg a f cs h1 = (q2, h2)" by fastforce
  note ih = Cons.IH [OF i a]
  have k: "knows (h_signer h) d b x y \<Longrightarrow> knows (h_signer h1) d b x y" for d b x y using g by (simp add: grows_def)
  show ?case
  proof (cases q)
    case (Ok sig)
    with s a Cons.prems(2) ih g k show ?thesis by (fastforce intro: grows_trans)
  next
    case (Err e)
    then have n: "\<not> knows (h_signer h) (f c) a x y" for x y
      using sign_known_verifies [OF assms(1) Cons.prems(1) _ s] by fastforce
    from ih obtain l where l: "q2 = Ok l" "subseq l cs" "grows inv knows (h_signer h1) (h_signer h2)"
      "\<And>d x y. d \<in> set cs \<Longrightarrow> knows (h_signer h1) (f d) a x y \<Longrightarrow> d \<in> set l" by blast
    have "\<And>d x y. d \<in> set (c # cs) \<Longrightarrow> knows (h_signer h) (f d) a x y \<Longrightarrow> d \<in> set l"
      using l(4) k n by fastforce
    moreover have "subseq l (c # cs)" using l(2) by (rule list_emb_Cons)
    moreover have "grows inv knows (h_signer h) (h_signer h2)" using g l(3) by (blast intro: grows_trans)
    moreover have "r = Ok l" "h' = h2" using Err s a l(1) Cons.prems(2) by simp_all
    ultimately show ?thesis by blast
  qed (use g in simp)
qed

end

lemma first_valid_in: "first_valid E msg a i cs h = (Ok (Some m), h') \<Longrightarrow> m \<in> set cs"
proof (induction cs arbitrary: h)
  case (Cons c cs)
  obtain q h1 where "sign E (i c) a (sha256 (str_bytes msg)) h = (q, h1)" by fastforce
  with Cons show ?case by (cases q) auto
qed simp

lemma choose_source:
  assumes "choose_credential E p rph h = (Ok (c, u, n, d), h')"
  shows "if gp_AllowCredentials p \<noteq> [] then c \<in> set (gp_AllowCredentials p) \<and> u = [] \<and> n = [] \<and> d = []
    else (\<exists>cs m. h_storage h = Some cs \<and> m \<in> set (GetByRPID cs (gp_RPID p)) \<and>
           c = cm_CredentialID m \<and> u = cm_UserID m \<and> n = cm_UserName m \<and> d = cm_UserDisplayName m)"
proof (cases "gp_AllowCredentials p = []")
  case True
  with assms obtain cs m where "h_storage h = Some cs"
    "first_valid E ''credential-check'' rph cm_CredentialID (GetByRPID cs (gp_RPID p)) h = (Ok (Some m), h')"
    "c = cm_CredentialID m" "u = cm_UserID m" "n = cm_UserName m" "d = cm_UserDisplayName m"
    by (auto simp: choose_credential_def Let_def and_then_eq_Ok split: if_splits option.splits)
  with True first_valid_in show ?thesis by fastforce
next
  case False
  with assms obtain m where "first_valid E ''credential-check'' rph id (gp_AllowCredentials p) h = (Ok (Some m), h')"
    "c = m" "u = []" "n = []" "d = []"
    by (auto simp: choose_credential_def and_then_eq_Ok split: option.splits)
  with False first_valid_in show ?thesis by fastforce
qed

section \<open>Properties\<close>

text \<open>
  C6. What was registered can be used to log in. After a successful \<^verbatim>\<open>MakeCredentialDirect\<close> on any
  backend that keeps the contract, and after any further calls on that backend,
  \<^verbatim>\<open>GetAssertionDirect\<close> for the same relying party with that credential succeeds, uses that credential,
  and its signature over authenticator data and client data hash verifies under the public key that
  registration returned; the authenticator data carries the RP id hash and the UP and UV flags.
\<close>

theorem register_then_authenticate:
  assumes "signer_contract (e_signer E) ok knows verify" "ok (h_signer h)"
    and "MakeCredentialDirect E mp h = (Ok res, h1)"
    and "h_signer h2 = signer_after (e_signer E) calls (h_signer h1)"
    and "gp_RPID p = mp_RPID mp" "gp_AllowCredentials p = [mk_CredentialID res]" "length (gp_ClientDataHash p) = 32"
    and "gp_HmacSecretInput p = None"
  shows "\<exists>as h3. GetAssertionDirect E p h2 = (Ok as, h3) \<and> gs_CredentialID as = mk_CredentialID res \<and>
    good_assertion verify (mk_PublicKeyX res) (mk_PublicKeyY res) (HashRPID (mp_RPID mp)) (gp_ClientDataHash p)
      (gs_AuthenticatorData as) (gs_Signature as)"
proof -
  from signer_contract.direct_registers [OF assms(1) refl assms(2,3)]
  have r: "ok (h_signer h1)" "knows (h_signer h1) (mk_CredentialID res) (HashRPID (mp_RPID mp)) (mk_PublicKeyX res) (mk_PublicKeyY res)"
    by (auto simp: grows_def)
  with signer_contract.after_keeps [OF assms(1), of "h_signer h1" calls] assms(4)
  have k: "ok (h_signer h2)" "knows (h_signer h2) (mk_CredentialID res) (HashRPID (gp_RPID p)) (mk_PublicKeyX res) (mk_PublicKeyY res)"
    by (simp_all add: assms(5))
  from signer_contract.direct_signs [OF assms(1) refl k(1) assms(7,6) k(2) assms(8)] assms(5) show ?thesis by simp
qed

lemma register_then_authenticate_witness:
  "\<exists>res h1 as h3. MakeCredentialDirect env0 (params1 []) handler0 = (Ok res, h1) \<and>
    GetAssertionDirect env0 \<lparr>gp_ClientDataHash = replicate 32 6, gp_RPID = ''a.org'',
       gp_AllowCredentials = [mk_CredentialID res], gp_HmacSecretInput = None\<rparr>
      (h1\<lparr>h_signer := signer_after (e_signer env0) [CallCounter] (h_signer h1)\<rparr>) = (Ok as, h3) \<and>
    good_assertion (ecdsaVerify crypto0) (mk_PublicKeyX res) (mk_PublicKeyY res) (HashRPID ''a.org'') (replicate 32 6)
      (gs_AuthenticatorData as) (gs_Signature as)"
proof -
  from direct_registers0 obtain res h1 where r: "MakeCredentialDirect env0 (params1 []) handler0 = (Ok res, h1)" by blast
  let ?p = "\<lparr>gp_ClientDataHash = replicate 32 6, gp_RPID = ''a.org'',
       gp_AllowCredentials = [mk_CredentialID res], gp_HmacSecretInput = None\<rparr>"
  have "mem_inv crypto0 (h_signer handler0)" by (simp add: handler0_fields mem0_inv)
  from register_then_authenticate [OF env0_contract this r, of "h1\<lparr>h_signer := signer_after (e_signer env0) [CallCounter] (h_signer h1)\<rparr>" "[CallCounter]" ?p] r
  show ?thesis by (auto simp: params1_def)
qed

text \<open>
  C18. Whatever \<^verbatim>\<open>GetAssertionDirect\<close> returns is sound: the credential is one of the allowed ones, or
  without a list one stored for exactly this relying party, with that entry's user handle and names;
  and if it is a credential of this relying party with public key \<open>(x, y)\<close>, the signature over the
  returned authenticator data and the client data hash verifies under it.
\<close>

theorem GetAssertionDirect_sound:
  assumes "signer_contract (e_signer E) ok knows verify" "ok (h_signer h)" "GetAssertionDirect E p h = (Ok as, h')"
  shows "(if gp_AllowCredentials p \<noteq> [] then gs_CredentialID as \<in> set (gp_AllowCredentials p) \<and> gs_UserHandle as = []
     else (\<exists>cs m. h_storage h = Some cs \<and> m \<in> set (GetByRPID cs (gp_RPID p)) \<and> gs_CredentialID as = cm_CredentialID m \<and>
             gs_UserHandle as = cm_UserID m \<and> gs_UserName as = cm_UserName m \<and>
             gs_UserDisplayName as = cm_UserDisplayName m)) \<and>
    (\<forall>x y. knows (h_signer h) (gs_CredentialID as) (HashRPID (gp_RPID p)) x y \<longrightarrow>
       good_assertion verify x y (HashRPID (gp_RPID p)) (gp_ClientDataHash p) (gs_AuthenticatorData as) (gs_Signature as))"
proof -
  from assms(3) obtain h1 where
    c: "choose_credential E p (HashRPID (gp_RPID p)) h =
      (Ok (gs_CredentialID as, gs_UserHandle as, gs_UserName as, gs_UserDisplayName as), h1)"
    by (rule GetAssertionDirect_stages)
  from choose_source [OF c] signer_contract.direct_sound [OF assms(1) refl assms(2,3)] show ?thesis
    by (auto split: if_splits)
qed

lemma GetAssertionDirect_sound_witness:
  "\<exists>as h'. GetAssertionDirect env0 \<lparr>gp_ClientDataHash = replicate 32 6, gp_RPID = ''a.org'',
       gp_AllowCredentials = [[1], handle0], gp_HmacSecretInput = None\<rparr> handler0 = (Ok as, h') \<and>
    gs_CredentialID as \<in> {[1], handle0}"
proof -
  let ?p = "\<lparr>gp_ClientDataHash = replicate 32 6, gp_RPID = ''a.org'', gp_AllowCredentials = [handle0], gp_HmacSecretInput = None\<rparr>"
  let ?q = "?p\<lparr>gp_AllowCredentials := [[1], handle0]\<rparr>"
  have i: "mem_inv crypto0 (h_signer handler0)" by (simp add: handler0_fields mem0_inv)
  have k: "mem_knows crypto0 (h_signer handler0) handle0 (HashRPID (gp_RPID ?p)) 7 7"
    by (simp add: handler0_fields handle0_known)
  have e: "e_signer env0 = mem_signer crypto0" by (simp add: env0_def)
  from mem.direct_signs [OF e i _ _ k] obtain as h' where d: "GetAssertionDirect env0 ?p handler0 = (Ok as, h')" by auto
  have "first_valid env0 ''credential-check'' a id [[1], handle0] handler0 =
      first_valid env0 ''credential-check'' a id [handle0] handler0" for a
  proof -
    obtain e where "sign env0 [1] a (sha256 (str_bytes ''credential-check'')) handler0 = (Err e, handler0)"
      by (simp add: sign_def env0_def mem_signer_def mem_SignASN1_def NewX_def handler0_def NewHandler_def
          mem0_def KeySize_def NonceSizeX_def)
    then show ?thesis by (simp only: first_valid.simps(2) id_apply prod.case res.case)
  qed
  then have "choose_credential env0 ?q a handler0 = choose_credential env0 ?p a handler0" for a
    by (simp add: choose_credential_def del: first_valid.simps)
  with d have "GetAssertionDirect env0 ?q handler0 = (Ok as, h')" by (simp add: GetAssertionDirect_def)
  from GetAssertionDirect_sound [OF env0_contract i this] this show ?thesis by auto
qed

end
