(* ===== verification/Ctap2.thy ===== *)
theory Ctap2
  imports GetAssertion
begin

text \<open>
  \<^verbatim>\<open>ctap2/getinfo.go\<close> and the command dispatch of \<^verbatim>\<open>ctap2/ctap2.go\<close>: GetInfo, ClientPIN with the key
  agreement, GetNextAssertion and \<open>HandleCommand\<close>, and the invariant of the handler over any sequence
  of commands.
\<close>

section \<open>GetInfo\<close>

text \<open>The fields the source does not set are zero.\<close>

definition GetInfo :: "'s Handler \<Rightarrow> GetInfoResponse" where
  "GetInfo h =
     \<lparr>gi_Versions = [''FIDO_2_0'', ''FIDO_2_1''], gi_Extensions = [''hmac-secret''], gi_AAGUID = h_aaguid h,
      gi_Options = [(''rk'', True), (''up'', True), (''uv'', True), (''plat'', True)], gi_MaxMsgSize = 1200,
      gi_PinUvAuthProtocols = [1], gi_MaxCredentialCountInList = 8, gi_MaxCredentialIdLength = 256,
      gi_Transports = [''internal''],
      gi_Algorithms = [\<lparr>kp_Type = CredentialTypePublicKey, kp_Alg = COSEAlgES256\<rparr>],
      gi_MaxSerializedLargeBlobArray = 0, gi_ForcePINChange = False, gi_MinPINLength = 0,
      gi_FirmwareVersion = 0, gi_MaxCredBlobLength = 0, gi_MaxRPIDsForSetMinPINLength = 0,
      gi_PreferredPlatformUvAttempts = 0, gi_UvModality = 0, gi_Certifications = [],
      gi_RemainingDiscoverableCredentials = 0, gi_VendorPrototypeConfigCommands = []\<rparr>"

definition handleGetInfo :: "'s Env \<Rightarrow> 's Handler \<Rightarrow> ctap_reply \<times> 's Handler" where
  "handleGetInfo E h =
     (case ctapMarshal (e_cbor E) (InGetInfo (GetInfo h)) of
        Inl e \<Rightarrow> (Ok (StatusOther, []), h)
      | Inr encoded \<Rightarrow> (Ok (StatusSuccess, encoded), h))"

section \<open>Commands\<close>

definition handleMakeCredential :: "'s Env \<Rightarrow> bytes \<Rightarrow> 's Handler \<Rightarrow> ctap_reply \<times> 's Handler" where
  "handleMakeCredential E data h =
     (case parseMakeCredentialRequest (e_cbor E) data of
        Inl e \<Rightarrow> (Ok (StatusInvalidCBOR, []), h)
      | Inr req \<Rightarrow> MakeCredential E req h)"

definition handleGetAssertion :: "'s Env \<Rightarrow> bytes \<Rightarrow> 's Handler \<Rightarrow> ctap_reply \<times> 's Handler" where
  "handleGetAssertion E data h =
     (case parseGetAssertionRequest (e_cbor E) data of
        Inl e \<Rightarrow> (Ok (StatusInvalidCBOR, []), h)
      | Inr req \<Rightarrow> GetAssertion E req h)"

definition handleGetKeyAgreement :: "'s Env \<Rightarrow> 's Handler \<Rightarrow> ctap_reply \<times> 's Handler" where
  "handleGetKeyAgreement E h =
     or_status StatusOther (GetECDHPublicKey E h) (\<lambda>pubKey h1.
       (case ctapMarshal (e_cbor E)
               (InClientPIN \<lparr>cr_KeyAgreement = Some pubKey, cr_PinUvAuthToken = [], cr_PinRetries = 0,
                             cr_PowerCycleState = False, cr_UvRetries = 0\<rparr>) of
          Inl e \<Rightarrow> (Ok (StatusOther, []), h1)
        | Inr encoded \<Rightarrow> (Ok (StatusSuccess, encoded), h1)))"

definition handleClientPIN :: "'s Env \<Rightarrow> bytes \<Rightarrow> 's Handler \<Rightarrow> ctap_reply \<times> 's Handler" where
  "handleClientPIN E data h =
     (case unmarshalClientPIN (e_cbor E) data of
        Inl e \<Rightarrow> (Ok (StatusInvalidCBOR, []), h)
      | Inr req \<Rightarrow>
          if cp_SubCommand req = ClientPINSubCmdGetKeyAgreement then handleGetKeyAgreement E h
          else (Ok (StatusPINNotSet, []), h))"

definition handleGetNextAssertion :: "'s Env \<Rightarrow> 's Handler \<Rightarrow> ctap_reply \<times> 's Handler" where
  "handleGetNextAssertion E h =
     (case h_assertionState h of
        None \<Rightarrow> (Ok (StatusNotAllowed, []), h)
      | Some state \<Rightarrow>
          let state1 = state\<lparr>as_currentIndex := as_currentIndex state + 1\<rparr>;
              h1 = h\<lparr>h_assertionState := Some state1\<rparr> in
          if length (as_credentials state1) \<le> as_currentIndex state1
          then (Ok (StatusNotAllowed, []), h1\<lparr>h_assertionState := None\<rparr>)
          else buildAssertionResponse E (as_credentials state1 ! as_currentIndex state1) (as_rpIDHash state1)
                 (as_clientDataHash state1) (as_extensionsInput state1) (length (as_credentials state1)) False h1)"

definition HandleCommand :: "'s Env \<Rightarrow> byte \<Rightarrow> bytes \<Rightarrow> 's Handler \<Rightarrow> ctap_reply \<times> 's Handler" where
  "HandleCommand E cmd data h =
     (if cmd = CmdGetInfo then handleGetInfo E h
      else if cmd = CmdMakeCredential then handleMakeCredential E data h
      else if cmd = CmdGetAssertion then handleGetAssertion E data h
      else if cmd = CmdGetNextAssertion then handleGetNextAssertion E h
      else if cmd = CmdClientPIN then handleClientPIN E data h
      else (Ok (StatusInvalidCommand, []), h))"

section \<open>The invariant of the handler\<close>

text \<open>The pending assertion always has several credentials and an index among them.\<close>

definition assertion_ok :: "assertionState option \<Rightarrow> bool" where
  "assertion_ok st \<longleftrightarrow>
     (case st of
        None \<Rightarrow> True
      | Some s \<Rightarrow> 1 < length (as_credentials s) \<and> as_currentIndex s < length (as_credentials s) \<and>
          length (as_rpIDHash s) = 32 \<and> length (as_clientDataHash s) = 32)"

definition storage_ok :: "CredentialStorage option \<Rightarrow> bool" where
  "storage_ok st \<longleftrightarrow> (case st of None \<Rightarrow> True | Some cs \<Rightarrow> store_ok cs)"

definition handler_ok :: "('s \<Rightarrow> bool) \<Rightarrow> 's Handler \<Rightarrow> bool" where
  "handler_ok ok h \<longleftrightarrow>
     ok (h_signer h) \<and> storage_ok (h_storage h) \<and> assertion_ok (h_assertionState h) \<and> length (h_aaguid h) = 16"

text \<open>What one command may change.\<close>

definition keeps ::
  "('s \<Rightarrow> bool) \<Rightarrow> ('s \<Rightarrow> bytes \<Rightarrow> bytes \<Rightarrow> nat \<Rightarrow> nat \<Rightarrow> bool) \<Rightarrow> 's Handler \<Rightarrow> 's Handler \<Rightarrow> bool" where
  "keeps ok knows h h' \<longleftrightarrow>
     grows ok knows (h_signer h) (h_signer h') \<and> (storage_ok (h_storage h) \<longrightarrow> storage_ok (h_storage h')) \<and>
     (assertion_ok (h_assertionState h) \<longrightarrow> assertion_ok (h_assertionState h')) \<and> h_aaguid h' = h_aaguid h"

lemma keeps_refl: "ok (h_signer h) \<Longrightarrow> keeps ok knows h h"
  by (simp add: keeps_def)

lemma keeps_trans: "keeps ok knows h h1 \<Longrightarrow> keeps ok knows h1 h2 \<Longrightarrow> keeps ok knows h h2"
  by (auto simp: keeps_def intro: grows_trans)

lemma keeps_ok: "keeps ok knows h h' \<Longrightarrow> ok (h_signer h')"
  by (simp add: keeps_def grows_def)

lemma keeps_signer:
  "same_but_signer h h' \<Longrightarrow> grows ok knows (h_signer h) (h_signer h') \<Longrightarrow> keeps ok knows h h'"
  using same_but_signer_fields [of h h'] by (simp add: keeps_def)

lemma keeps_other:
  "ok (h_signer h) \<Longrightarrow> h_signer h' = h_signer h \<Longrightarrow> h_storage h' = h_storage h \<Longrightarrow> h_aaguid h' = h_aaguid h \<Longrightarrow>
   (assertion_ok (h_assertionState h) \<Longrightarrow> assertion_ok (h_assertionState h')) \<Longrightarrow> keeps ok knows h h'"
  by (auto simp: keeps_def)

lemma keeps_save: "ok (h_signer h) \<Longrightarrow> keeps ok knows h (save_resident E rk c h)"
  unfolding keeps_def save_resident_fields save_resident_storage storage_ok_def
  using cred_store.save_keeps
  by (auto simp: save_resident_storage split: option.splits) (metis prod.collapse)

text \<open>
  A call started in \<open>h\<close> ends in a state that keeps \<open>h\<close>'s invariant; both sequencing patterns compose.
\<close>

definition leads ::
  "('s \<Rightarrow> bool) \<Rightarrow> ('s \<Rightarrow> bytes \<Rightarrow> bytes \<Rightarrow> nat \<Rightarrow> nat \<Rightarrow> bool) \<Rightarrow> 's Handler \<Rightarrow> 'r \<times> 's Handler \<Rightarrow> bool" where
  "leads ok knows h p \<longleftrightarrow> keeps ok knows h (snd p)"

lemma leads_pair [simp]: "leads ok knows h (r, h1) \<longleftrightarrow> keeps ok knows h h1"
  by (simp add: leads_def)

lemma leads_from: "keeps ok knows h h1 \<Longrightarrow> leads ok knows h1 p \<Longrightarrow> leads ok knows h p"
  by (auto simp: leads_def intro: keeps_trans)

lemma leads_or_status:
  assumes "leads ok knows h p" "\<And>a h1. ok (h_signer h1) \<Longrightarrow> leads ok knows h1 (k a h1)"
  shows "leads ok knows h (or_status st p k)"
proof (cases p)
  case (Pair q h1)
  with assms(1) have k: "keeps ok knows h h1" by simp
  with Pair assms(2) [OF keeps_ok [OF k]] show ?thesis by (cases q) (auto intro: leads_from)
qed

lemma leads_and_then:
  assumes "leads ok knows h p" "\<And>a h1. ok (h_signer h1) \<Longrightarrow> leads ok knows h1 (k a h1)"
  shows "leads ok knows h (and_then p k)"
proof (cases p)
  case (Pair q h1)
  with assms(1) have k: "keeps ok knows h h1" by simp
  with Pair assms(2) [OF keeps_ok [OF k]] show ?thesis by (cases q) (auto intro: leads_from)
qed

lemma leads_case_sum:
  "(\<And>e. v = Inl e \<Longrightarrow> leads ok knows h (f e)) \<Longrightarrow> (\<And>b. v = Inr b \<Longrightarrow> leads ok knows h (g b)) \<Longrightarrow>
   leads ok knows h (case v of Inl e \<Rightarrow> f e | Inr b \<Rightarrow> g b)"
  by (cases v) auto

lemma leads_case_option:
  "(v = None \<Longrightarrow> leads ok knows h f) \<Longrightarrow> (\<And>b. v = Some b \<Longrightarrow> leads ok knows h (g b)) \<Longrightarrow>
   leads ok knows h (case v of None \<Rightarrow> f | Some b \<Rightarrow> g b)"
  by (cases v) auto

lemma leads_if:
  "(c \<Longrightarrow> leads ok knows h p) \<Longrightarrow> (\<not> c \<Longrightarrow> leads ok knows h q) \<Longrightarrow> leads ok knows h (if c then p else q)"
  by simp

lemma attest_leads: "ok (h_signer h) \<Longrightarrow> leads ok knows h (attest E ad cdh h)"
  by (auto simp: attest_def intro!: keeps_other split: sum.splits prod.splits)

lemma key_agreement_leads: "ok (h_signer h) \<Longrightarrow> leads ok knows h (GetECDHPublicKey E h)"
  by (auto simp: GetECDHPublicKey_def GenerateECDHKey_def and_then_def intro!: keeps_other
      split: option.splits sum.splits prod.splits)

lemma cred_random_same: "cred_random E c h = (r, h') \<Longrightarrow> same_but_signer h h'"
  by (auto simp: cred_random_def same_but_signer_def split: prod.splits)

lemma processHmacSecret_same: "processHmacSecret E c raw h = (r, h') \<Longrightarrow> same_but_signer h h'"
  using processHmacSecret_state [of E c raw h r h'] cred_random_same [of E c h] by auto

lemma assertion_same: "assertion_auth_data E rph ext out h = (ad, h') \<Longrightarrow> same_but_signer h h'"
  by (auto simp: assertion_auth_data_def Let_def dest: next_counter_same split: prod.splits)

lemma signed_auth_data_same: "signed_auth_data E c rph cdh ext out h = (r, h') \<Longrightarrow> same_but_signer h h'"
  by (auto simp: signed_auth_data_def and_then_def dest!: assertion_same sign_same
      intro: same_but_signer_trans split: prod.splits res.splits)

lemma presence_keeps: "ok (h_signer h) \<Longrightarrow> keeps ok knows h (h\<lparr>h_presence := P\<rparr>)"
  by (rule keeps_other) simp_all

section \<open>Sequences of calls\<close>

text \<open>Commands one after the other; a panic ends the process.\<close>

fun run_commands :: "'s Env \<Rightarrow> (byte \<times> bytes) list \<Rightarrow> 's Handler \<Rightarrow> ctap_reply list \<times> 's Handler" where
  "run_commands E [] h = ([], h)"
| "run_commands E ((cmd, data) # cs) h =
     (case HandleCommand E cmd data h of
        (Ok r, h1) \<Rightarrow> (case run_commands E cs h1 of (rs, h2) \<Rightarrow> (Ok r # rs, h2))
      | (p, h1) \<Rightarrow> ([p], h1))"

fun run_next :: "'s Env \<Rightarrow> nat \<Rightarrow> 's Handler \<Rightarrow> ctap_reply list \<times> 's Handler" where
  "run_next E 0 h = ([], h)"
| "run_next E (Suc n) h =
     (case handleGetNextAssertion E h of
        (r, h1) \<Rightarrow> (case run_next E n h1 of (rs, h2) \<Rightarrow> (r # rs, h2)))"

text \<open>
  A successful reply that asserts credential \<open>c\<close>: it names the credential and its user, and verifies
  for every public key the backend knows for it.
\<close>

definition answers_for ::
  "Cbor \<Rightarrow> (nat \<Rightarrow> nat \<Rightarrow> bytes \<Rightarrow> bytes \<Rightarrow> bool) \<Rightarrow> (bytes \<Rightarrow> bytes \<Rightarrow> nat \<Rightarrow> nat \<Rightarrow> bool) \<Rightarrow> bytes \<Rightarrow> bytes \<Rightarrow> nat \<Rightarrow>
   CredentialMetadata \<Rightarrow> ctap_reply \<Rightarrow> bool" where
  "answers_for C verify known rpIDHash clientDataHash number c reply \<longleftrightarrow>
     (\<exists>enc ad sig. reply = Ok (StatusSuccess, enc) \<and>
        ctapMarshal C (InGetAssertion
          \<lparr>gr_Credential = Some \<lparr>pd_Type = CredentialTypePublicKey, pd_ID = cm_CredentialID c, pd_Transports = []\<rparr>,
           gr_AuthData = ad, gr_Signature = sig,
           gr_User = Some \<lparr>ue_ID = cm_UserID c, ue_Name = cm_UserName c, ue_DisplayName = cm_UserDisplayName c\<rparr>,
           gr_NumberOfCredentials = number\<rparr>) = Inr enc \<and>
        (\<forall>x y. known (cm_CredentialID c) rpIDHash x y \<longrightarrow> good_assertion verify x y rpIDHash clientDataHash ad sig))"

lemma answers_for_mono:
  "answers_for C verify known rph cdh n c r \<Longrightarrow> (\<And>k a x y. known' k a x y \<Longrightarrow> known k a x y) \<Longrightarrow>
   answers_for C verify known' rph cdh n c r"
  unfolding answers_for_def by blast

context signer_contract
begin

lemma register_leads: "e_signer E = S \<Longrightarrow> inv (h_signer h) \<Longrightarrow> leads inv knows h (register_key E a h)"
  using register_grows [of E h a] register_key_same [of E a h]
  by (cases "register_key E a h") (auto intro: keeps_signer)

lemma first_valid_leads: "e_signer E = S \<Longrightarrow> inv (h_signer h) \<Longrightarrow> leads inv knows h (first_valid E m a f cs h)"
  using first_valid_contract [of E h m a f cs] first_valid_same [of E m a f cs h]
  by (cases "first_valid E m a f cs h") (auto intro: keeps_signer)

lemma all_valid_leads: "e_signer E = S \<Longrightarrow> inv (h_signer h) \<Longrightarrow> leads inv knows h (all_valid E m a f cs h)"
  using all_valid_contract [of E h m a f cs] all_valid_same [of E m a f cs h]
  by (cases "all_valid E m a f cs h") (auto intro: keeps_signer)

lemma hmac_leads: "e_signer E = S \<Longrightarrow> inv (h_signer h) \<Longrightarrow> leads inv knows h (processHmacSecret E c raw h)"
  using hmac_grows [of E h c raw] processHmacSecret_same [of E c raw h]
  by (cases "processHmacSecret E c raw h") (auto intro: keeps_signer)

lemma signed_leads: "e_signer E = S \<Longrightarrow> inv (h_signer h) \<Longrightarrow> leads inv knows h (signed_auth_data E c rph cdh ext out h)"
  using signed_auth_data_grows [of E h c rph cdh ext out] signed_auth_data_same [of E c rph cdh ext out h]
  by (cases "signed_auth_data E c rph cdh ext out h") (auto intro: keeps_signer)

lemma registration_leads:
  assumes "e_signer E = S" "inv (h_signer h)"
  shows "leads inv knows h (registration_auth_data E rph c x y hs h)"
  using registration_same [of E rph c x y hs h] counter_grows [OF assms] assms(2)
  by (cases "registration_auth_data E rph c x y hs h")
     (auto simp: registration_auth_data_def Let_def intro!: keeps_signer split: sum.splits prod.splits)

lemmas step_leads = register_leads first_valid_leads all_valid_leads hmac_leads signed_leads registration_leads
  attest_leads key_agreement_leads

lemma confirmed_leads:
  assumes "e_signer E = S" "inv (h_signer h)"
  shows "leads inv knows h (make_credential_confirmed E req rph h)"
  unfolding make_credential_confirmed_def Let_def
  by (rule leads_or_status [OF register_leads [OF assms]], simp only: split_paired_all prod.case,
      rule leads_from [OF keeps_save], assumption,
      rule leads_or_status [OF registration_leads [OF assms(1)]], simp,
      rule leads_or_status [OF attest_leads], assumption,
      rule leads_case_sum, simp_all add: keeps_refl)

lemma MakeCredential_leads:
  assumes "e_signer E = S" "inv (h_signer h)"
  shows "leads inv knows h (MakeCredential E req h)"
proof -
  have c: "leads inv knows h1 (case ask_presence pr cdh rph (h_presence h1) of (answer, P) \<Rightarrow>
      (case answer of
         AskError e \<Rightarrow> (Ok (StatusOperationDenied, []), h1\<lparr>h_presence := P\<rparr>)
       | NoAnswer \<Rightarrow> (Ok (StatusUserActionTimeout, []), h1\<lparr>h_presence := P\<rparr>)
       | Answer result \<Rightarrow>
           if \<not> res_OK result then (Ok (StatusOperationDenied, []), h1\<lparr>h_presence := P\<rparr>)
           else make_credential_confirmed E req rph (h1\<lparr>h_presence := P\<rparr>)))"
    if i: "inv (h_signer h1)" for h1 pr cdh rph
    using leads_from [OF presence_keeps [of inv h1, OF i] confirmed_leads [OF assms(1)]] presence_keeps [of inv h1, OF i] i
    by (auto split: prod.splits presence_answer.splits)
  show ?thesis
    unfolding MakeCredential_def Let_def
    by (intro leads_if leads_and_then first_valid_leads assms)
       (simp_all add: keeps_refl assms(2) c)
qed

lemma hmac_extension_leads:
  assumes "e_signer E = S" "inv (h_signer h)"
  shows "leads inv knows h (hmac_extension E c exts h)"
  unfolding hmac_extension_def
  by (intro leads_case_option leads_and_then hmac_leads assms) (simp_all add: keeps_refl assms(2))

lemma nonresident_leads:
  assumes "e_signer E = S" "inv (h_signer h)"
  shows "leads inv knows h (buildNonResidentAssertionResponse E cred rph cdh exts h)"
  unfolding buildNonResidentAssertionResponse_def
  by (rule leads_or_status [OF hmac_extension_leads [OF assms]], rule leads_or_status [OF signed_leads [OF assms(1)]],
      assumption, simp only: split_paired_all prod.case, rule leads_case_sum, simp_all add: keeps_refl)

lemma resident_leads:
  assumes "e_signer E = S" "inv (h_signer h)"
  shows "leads inv knows h (buildAssertionResponse E cred rph cdh exts n first h)"
  unfolding buildAssertionResponse_def
  by (rule leads_or_status [OF hmac_extension_leads [OF assms]], rule leads_or_status [OF signed_leads [OF assms(1)]],
      assumption, simp only: split_paired_all prod.case, rule leads_case_sum, simp_all add: keeps_refl)

lemma with_presence_leads:
  assumes "inv (h_signer h)" "\<And>h1. inv (h_signer h1) \<Longrightarrow> leads inv knows h1 (k h1)"
  shows "leads inv knows h (with_presence cdh rph h k)"
proof -
  have "leads inv knows h (k (h\<lparr>h_presence := P\<rparr>))" for P
    by (rule leads_from [OF presence_keeps [of inv h knows P, OF assms(1)]]) (simp add: assms)
  then show ?thesis
    unfolding with_presence_def Let_def using presence_keeps [of inv h, OF assms(1)]
    by (auto split: prod.splits presence_answer.splits)
qed

lemma respond_resident_leads:
  assumes "e_signer E = S" "inv (h_signer h)" "length rph = 32" "length (ga_ClientDataHash req) = 32"
  shows "leads inv knows h (respond_resident E req rph matched h)"
proof -
  let ?h1 = "if 1 < length matched
                then h\<lparr>h_assertionState := Some
                         \<lparr>as_credentials = matched, as_currentIndex = 0, as_rpIDHash = rph,
                          as_clientDataHash = ga_ClientDataHash req, as_extensionsInput = ga_Extensions req\<rparr>\<rparr>
                else h"
  have k: "keeps inv knows h ?h1"
    using assms(2-4) by (intro keeps_other) (auto simp: assertion_ok_def)
  from leads_from [OF k resident_leads [OF assms(1) keeps_ok [OF k]]] show ?thesis
    unfolding respond_resident_def Let_def .
qed

lemma GetAssertion_leads:
  assumes "e_signer E = S" "inv (h_signer h)"
  shows "leads inv knows h (GetAssertion E req h)"
proof -
  let ?h = "h\<lparr>h_assertionState := None\<rparr>"
  have k: "keeps inv knows h ?h" using assms(2) by (intro keeps_other) (simp_all add: assertion_ok_def)
  have "leads inv knows ?h (GetAssertion E req h)"
    unfolding GetAssertion_def Let_def
    by (intro leads_if leads_case_option leads_and_then first_valid_leads all_valid_leads with_presence_leads
        nonresident_leads respond_resident_leads assms(1))
       (simp_all add: keeps_refl assms(2))
  with k show ?thesis by (rule leads_from)
qed

lemma next_leads:
  assumes "e_signer E = S" "inv (h_signer h)"
  shows "leads inv knows h (handleGetNextAssertion E h)"
proof (cases "h_assertionState h")
  case None
  then show ?thesis using assms(2) by (simp add: handleGetNextAssertion_def keeps_refl)
next
  case (Some st)
  let ?st = "st\<lparr>as_currentIndex := as_currentIndex st + 1\<rparr>"
  show ?thesis
  proof (cases "length (as_credentials st) \<le> as_currentIndex st + 1")
    case True
    have "keeps inv knows h (h\<lparr>h_assertionState := Some ?st, h_assertionState := None\<rparr>)"
      using assms(2) by (intro keeps_other) (simp_all add: assertion_ok_def)
    with Some True show ?thesis by (simp add: handleGetNextAssertion_def)
  next
    case False
    have k: "keeps inv knows h (h\<lparr>h_assertionState := Some ?st\<rparr>)"
      using assms(2) False Some by (intro keeps_other) (simp_all add: assertion_ok_def)
    have "handleGetNextAssertion E h = buildAssertionResponse E (as_credentials st ! (as_currentIndex st + 1))
        (as_rpIDHash st) (as_clientDataHash st) (as_extensionsInput st) (length (as_credentials st)) False
        (h\<lparr>h_assertionState := Some ?st\<rparr>)"
      using Some False by (simp add: handleGetNextAssertion_def Let_def)
    then show ?thesis using leads_from [OF k resident_leads [OF assms(1) keeps_ok [OF k]]] by simp
  qed
qed

lemma HandleCommand_leads:
  assumes "e_signer E = S" "inv (h_signer h)"
  shows "leads inv knows h (HandleCommand E cmd data h)"
  unfolding HandleCommand_def handleGetInfo_def handleMakeCredential_def handleGetAssertion_def handleClientPIN_def
    handleGetKeyAgreement_def
  by (intro leads_if leads_case_sum MakeCredential_leads GetAssertion_leads next_leads assms
      leads_or_status [OF key_agreement_leads [of inv, OF assms(2)]])
     (simp_all add: keeps_refl assms(2))

lemma run_commands_keeps:
  "e_signer E = S \<Longrightarrow> inv (h_signer h) \<Longrightarrow> run_commands E cs h = (rs, h') \<Longrightarrow> keeps inv knows h h'"
proof (induction E cs h arbitrary: rs h' rule: run_commands.induct)
  case (1 E h)
  then show ?case by (simp add: keeps_refl)
next
  case (2 E cmd data cs h)
  obtain q h1 where c: "HandleCommand E cmd data h = (q, h1)" by fastforce
  with HandleCommand_leads [OF 2(2,3), of cmd data] have k: "keeps inv knows h h1" by simp
  show ?case
  proof (cases q)
    case (Ok r)
    obtain rs2 h2 where r: "run_commands E cs h1 = (rs2, h2)" by fastforce
    from 2(1) [OF c [symmetric] Ok 2(2) keeps_ok [OF k] r] k 2(4) c Ok r show ?thesis
      by (auto intro: keeps_trans)
  qed (use c k 2(4) in auto)
qed

lemma signed_known:
  assumes "e_signer E = S" "inv (h_signer h)" "knows (h_signer h) c rph x0 y0" "length rph = 32"
  shows "\<exists>ad sig h'. signed_auth_data E c rph cdh False [] h = (Ok (ad, sig), h') \<and>
    (\<forall>x y. knows (h_signer h) c rph x y \<longrightarrow> good_assertion verify x y rph cdh ad sig)"
proof -
  from signed_auth_data_ok [OF assms] obtain ad sig h' where
    s: "signed_auth_data E c rph cdh False [] h = (Ok (ad, sig), h')" by blast
  have "good_assertion verify x y rph cdh ad sig" if "knows (h_signer h) c rph x y" for x y
    using signed_auth_data_ok [OF assms(1,2) that assms(4), of False "[]" cdh] s by auto
  with s show ?thesis by blast
qed

lemma resident_answers:
  assumes "e_signer E = S" "inv (h_signer h)" "knows (h_signer h) (cm_CredentialID c) rph x0 y0" "length rph = 32"
    and "encodes_all (e_cbor E)" "extension_of exts ''hmac-secret'' = None"
  shows "\<exists>reply h'. buildAssertionResponse E c rph cdh exts n first h = (reply, h') \<and>
    answers_for (e_cbor E) verify (knows (h_signer h)) rph cdh (if first \<and> 1 < n then n else 0) c reply \<and>
    same_but_signer h h' \<and> grows inv knows (h_signer h) (h_signer h')"
proof -
  from signed_known [OF assms(1-4), of cdh] obtain ad sig h' where
    s: "signed_auth_data E (cm_CredentialID c) rph cdh False [] h = (Ok (ad, sig), h')"
    and g: "\<And>x y. knows (h_signer h) (cm_CredentialID c) rph x y \<Longrightarrow> good_assertion verify x y rph cdh ad sig" by blast
  obtain enc where e: "ctapMarshal (e_cbor E) (InGetAssertion
      \<lparr>gr_Credential = Some \<lparr>pd_Type = CredentialTypePublicKey, pd_ID = cm_CredentialID c, pd_Transports = []\<rparr>,
       gr_AuthData = ad, gr_Signature = sig,
       gr_User = Some \<lparr>ue_ID = cm_UserID c, ue_Name = cm_UserName c, ue_DisplayName = cm_UserDisplayName c\<rparr>,
       gr_NumberOfCredentials = (if first \<and> 1 < n then n else 0)\<rparr>) = Inr enc"
    using assms(5) unfolding encodes_all_def by blast
  have "hmac_extension E (cm_CredentialID c) exts h = (Ok [], h)" by (simp add: hmac_extension_def assms(6))
  then have "buildAssertionResponse E c rph cdh exts n first h = (Ok (StatusSuccess, enc), h')"
    using s e by (simp add: buildAssertionResponse_def)
  moreover have "answers_for (e_cbor E) verify (knows (h_signer h)) rph cdh (if first \<and> 1 < n then n else 0) c
      (Ok (StatusSuccess, enc))"
    unfolding answers_for_def using e g by blast
  ultimately show ?thesis
    using signed_auth_data_same [OF s] signed_auth_data_grows [OF assms(1,2) s] by blast
qed

lemma all_valid_known:
  assumes "e_signer E = S" "inv (h_signer h)" "\<forall>c \<in> set cs. \<exists>x y. knows (h_signer h) (f c) a x y"
  shows "\<exists>h'. all_valid E m a f cs h = (Ok cs, h')"
  using assms(2,3)
proof (induction cs arbitrary: h)
  case (Cons c cs)
  obtain q h1 where s: "sign E (f c) a (sha256 (str_bytes m)) h = (q, h1)" by fastforce
  from Cons.prems(2) sign_known_verifies [OF assms(1) Cons.prems(1) _ s] obtain sig where "q = Ok sig" by auto
  moreover have g: "grows inv knows (h_signer h) (h_signer h1)" using sign_grows [OF assms(1) Cons.prems(1) s] by simp
  then have "inv (h_signer h1)" by (simp add: grows_def)
  moreover have "\<forall>d \<in> set cs. \<exists>x y. knows (h_signer h1) (f d) a x y"
  proof
    fix d assume "d \<in> set cs"
    with Cons.prems(2) obtain x y where "knows (h_signer h) (f d) a x y" by auto
    with g show "\<exists>x y. knows (h_signer h1) (f d) a x y" unfolding grows_def by blast
  qed
  ultimately show ?case using s Cons.IH [of h1] by auto
qed simp

text \<open>The rest of a pending assertion, from any index.\<close>

lemma next_enumerates:
  assumes "e_signer E = S" "encodes_all (e_cbor E)"
  shows "inv (h_signer h) \<Longrightarrow> h_assertionState h = Some st \<Longrightarrow> length (as_rpIDHash st) = 32 \<Longrightarrow>
    extension_of (as_extensionsInput st) ''hmac-secret'' = None \<Longrightarrow>
    (\<forall>c \<in> set (as_credentials st). \<exists>x y. knows (h_signer h) (cm_CredentialID c) (as_rpIDHash st) x y) \<Longrightarrow>
    n + Suc (as_currentIndex st) = length (as_credentials st) \<Longrightarrow>
    \<exists>rs h'. run_next E n h = (rs, h') \<and> length rs = n \<and>
      (\<forall>j < n. answers_for (e_cbor E) verify (knows (h_signer h)) (as_rpIDHash st) (as_clientDataHash st) 0
         (as_credentials st ! (Suc (as_currentIndex st) + j)) (rs ! j)) \<and>
      fst (handleGetNextAssertion E h') = Ok (StatusNotAllowed, [])"
proof (induction n arbitrary: h st)
  case 0
  then show ?case by (simp add: handleGetNextAssertion_def Let_def)
next
  case (Suc n)
  let ?i = "as_currentIndex st + 1"
  let ?st = "st\<lparr>as_currentIndex := ?i\<rparr>" let ?c = "as_credentials st ! ?i"
  let ?h1 = "h\<lparr>h_assertionState := Some ?st\<rparr>"
  have i: "?i < length (as_credentials st)" using Suc.prems(6) by simp
  then obtain x y where k: "knows (h_signer ?h1) (cm_CredentialID ?c) (as_rpIDHash st) x y"
    using Suc.prems(5) nth_mem [OF i] by fastforce
  have inv1: "inv (h_signer ?h1)" using Suc.prems(1) by simp
  from resident_answers [OF assms(1) inv1 k Suc.prems(3) assms(2) Suc.prems(4),
      of "as_clientDataHash st" "length (as_credentials st)" False]
  obtain r h2 where b: "buildAssertionResponse E ?c (as_rpIDHash st) (as_clientDataHash st) (as_extensionsInput st)
      (length (as_credentials st)) False ?h1 = (r, h2)"
    and a: "answers_for (e_cbor E) verify (knows (h_signer h)) (as_rpIDHash st) (as_clientDataHash st) 0 ?c r"
    and s: "same_but_signer ?h1 h2" and g: "grows inv knows (h_signer h) (h_signer h2)" by auto
  have nx: "handleGetNextAssertion E h = (r, h2)"
    using Suc.prems(2) i b by (simp add: handleGetNextAssertion_def Let_def)
  from same_but_signer_fields [OF s] have st2: "h_assertionState h2 = Some ?st" by simp
  have p: "inv (h_signer h2)" "\<forall>c \<in> set (as_credentials ?st). \<exists>x y. knows (h_signer h2) (cm_CredentialID c) (as_rpIDHash ?st) x y"
    using g Suc.prems(5) by (auto simp: grows_def) blast
  from Suc.IH [OF p(1) st2 _ _ p(2)] Suc.prems(3,4,6) obtain rs h3 where
    r: "run_next E n h2 = (rs, h3)" "length rs = n" "fst (handleGetNextAssertion E h3) = Ok (StatusNotAllowed, [])"
    and rs: "\<And>j. j < n \<Longrightarrow> answers_for (e_cbor E) verify (knows (h_signer h2)) (as_rpIDHash st) (as_clientDataHash st) 0
         (as_credentials st ! (Suc ?i + j)) (rs ! j)" by auto
  have rs': "answers_for (e_cbor E) verify (knows (h_signer h)) (as_rpIDHash st) (as_clientDataHash st) 0
         (as_credentials st ! (Suc ?i + j)) (rs ! j)" if "j < n" for j
    by (rule answers_for_mono [OF rs [OF that]]) (use g in \<open>simp add: grows_def\<close>)
  have "answers_for (e_cbor E) verify (knows (h_signer h)) (as_rpIDHash st) (as_clientDataHash st) 0
         (as_credentials st ! (?i + j)) ((r # rs) ! j)" if "j < Suc n" for j
    using that a rs' [of "j - 1"] by (cases j) simp_all
  with nx r show ?case by auto
qed

text \<open>
  \<^verbatim>\<open>GetAssertion\<close> with stored credentials the backend knows: the first answer, and the others left pending.
\<close>

lemma GetAssertion_starts:
  assumes E: "e_signer E = S" and i: "inv (h_signer h)" and enc: "encodes_all (e_cbor E)"
    and req: "length (ga_ClientDataHash req) = 32" "ga_AllowList req = []" "extension_of (ga_Extensions req) ''hmac-secret'' = None"
    and st: "h_storage h = Some cs" "creds = GetByRPID cs (ga_RPID req)" "creds \<noteq> []"
    and kn: "\<forall>c \<in> set creds. \<exists>x y. knows (h_signer h) (cm_CredentialID c) (HashRPID (ga_RPID req)) x y"
    and p: "ask_presence ''FIDO2 Confirm Auth'' (ga_ClientDataHash req) (HashRPID (ga_RPID req)) (h_presence h) = (Answer answer, P)"
      "res_OK answer"
  shows "\<exists>reply h1. GetAssertion E req h = (reply, h1) \<and>
    answers_for (e_cbor E) verify (knows (h_signer h)) (HashRPID (ga_RPID req)) (ga_ClientDataHash req)
      (if 1 < length creds then length creds else 0) (creds ! 0) reply \<and>
    grows inv knows (h_signer h) (h_signer h1) \<and>
    h_assertionState h1 = (if 1 < length creds
      then Some \<lparr>as_credentials = creds, as_currentIndex = 0, as_rpIDHash = HashRPID (ga_RPID req),
        as_clientDataHash = ga_ClientDataHash req, as_extensionsInput = ga_Extensions req\<rparr> else None)"
proof -
  let ?rph = "HashRPID (ga_RPID req)" and ?cdh = "ga_ClientDataHash req" and ?h = "h\<lparr>h_assertionState := None\<rparr>"
  have i': "inv (h_signer ?h)" and kn': "\<forall>c \<in> set creds. \<exists>x y. knows (h_signer ?h) (cm_CredentialID c) ?rph x y"
    using i kn by simp_all
  from all_valid_known [OF E i' kn', of "''credential-check''"] obtain g where
    v: "all_valid E ''credential-check'' ?rph cm_CredentialID creds ?h = (Ok creds, g)" by blast
  from all_valid_contract [OF E i' v] all_valid_same [OF v]
  have g: "grows inv knows (h_signer h) (h_signer g)" "same_but_signer ?h g" by simp_all
  from same_but_signer_fields [OF g(2)] have gf: "h_presence g = h_presence h" "h_assertionState g = None" by simp_all
  let ?g1 = "g\<lparr>h_presence := P\<rparr>"
  define h0 where "h0 = (if 1 < length creds
      then ?g1\<lparr>h_assertionState := Some \<lparr>as_credentials = creds, as_currentIndex = 0, as_rpIDHash = ?rph,
             as_clientDataHash = ?cdh, as_extensionsInput = ga_Extensions req\<rparr>\<rparr> else ?g1)"
  have G: "GetAssertion E req h = buildAssertionResponse E (hd creds) ?rph ?cdh (ga_Extensions req) (length creds) True h0"
    unfolding GetAssertion_def Let_def using req st p v gf
    by (simp add: with_presence_def respond_resident_def h0_def)
  have s0: "h_signer h0 = h_signer g" by (simp add: h0_def)
  have hd: "hd creds = creds ! 0" "hd creds \<in> set creds" using st(3) by (simp_all add: hd_conv_nth)
  with kn g(1) obtain x y where k0: "knows (h_signer h0) (cm_CredentialID (hd creds)) ?rph x y"
    unfolding s0 grows_def by fastforce
  have i0: "inv (h_signer h0)" using g(1) by (simp add: s0 grows_def)
  from resident_answers [OF E i0 k0 _ enc req(3), of ?cdh "length creds" True]
  obtain reply h1 where b: "buildAssertionResponse E (hd creds) ?rph ?cdh (ga_Extensions req) (length creds) True h0 = (reply, h1)"
    and a: "answers_for (e_cbor E) verify (knows (h_signer h0)) ?rph ?cdh (if 1 < length creds then length creds else 0)
        (hd creds) reply"
    and s1: "same_but_signer h0 h1" and g1: "grows inv knows (h_signer h0) (h_signer h1)" by auto
  have mono: "knows (h_signer h) k b x y \<Longrightarrow> knows (h_signer h0) k b x y" for k b x y
    using g(1) by (simp add: s0 grows_def)
  have "grows inv knows (h_signer h) (h_signer h1)" using g(1) g1 by (simp add: s0 grows_def)
  with G b answers_for_mono [OF a mono] hd same_but_signer_fields [OF s1] gf show ?thesis by (simp add: h0_def)
qed

lemma enumeration:
  assumes E: "e_signer E = S" and i: "inv (h_signer h)" and enc: "encodes_all (e_cbor E)"
    and req: "length (ga_ClientDataHash req) = 32" "ga_AllowList req = []" "extension_of (ga_Extensions req) ''hmac-secret'' = None"
    and st: "h_storage h = Some cs" "creds = GetByRPID cs (ga_RPID req)" "creds \<noteq> []"
    and kn: "\<forall>c \<in> set creds. \<exists>x y. knows (h_signer h) (cm_CredentialID c) (HashRPID (ga_RPID req)) x y"
    and p: "ask_presence ''FIDO2 Confirm Auth'' (ga_ClientDataHash req) (HashRPID (ga_RPID req)) (h_presence h) = (Answer answer, P)"
      "res_OK answer"
  shows "\<exists>reply h1 replies h2. GetAssertion E req h = (reply, h1) \<and>
    answers_for (e_cbor E) verify (knows (h_signer h)) (HashRPID (ga_RPID req)) (ga_ClientDataHash req)
      (if 1 < length creds then length creds else 0) (creds ! 0) reply \<and>
    run_next E (length creds - 1) h1 = (replies, h2) \<and> length replies = length creds - 1 \<and>
    (\<forall>j < length replies. answers_for (e_cbor E) verify (knows (h_signer h)) (HashRPID (ga_RPID req)) (ga_ClientDataHash req)
       0 (creds ! Suc j) (replies ! j)) \<and>
    fst (handleGetNextAssertion E h2) = Ok (StatusNotAllowed, [])"
proof -
  let ?rph = "HashRPID (ga_RPID req)" and ?cdh = "ga_ClientDataHash req"
  from GetAssertion_starts [OF assms] obtain reply h1 where G: "GetAssertion E req h = (reply, h1)"
    and a: "answers_for (e_cbor E) verify (knows (h_signer h)) ?rph ?cdh (if 1 < length creds then length creds else 0) (creds ! 0) reply"
    and g: "grows inv knows (h_signer h) (h_signer h1)"
    and s: "h_assertionState h1 = (if 1 < length creds
      then Some \<lparr>as_credentials = creds, as_currentIndex = 0, as_rpIDHash = ?rph, as_clientDataHash = ?cdh,
        as_extensionsInput = ga_Extensions req\<rparr> else None)" by blast
  show ?thesis
  proof (cases "1 < length creds")
    case True
    define ps where "ps = \<lparr>as_credentials = creds, as_currentIndex = 0, as_rpIDHash = ?rph, as_clientDataHash = ?cdh,
      as_extensionsInput = ga_Extensions req\<rparr>"
    have k1: "\<forall>c \<in> set (as_credentials ps). \<exists>x y. knows (h_signer h1) (cm_CredentialID c) (as_rpIDHash ps) x y"
      using kn g by (fastforce simp: ps_def grows_def)
    have n: "length creds - 1 + Suc (as_currentIndex ps) = length (as_credentials ps)" using True by (simp add: ps_def)
    have "h_assertionState h1 = Some ps" using s True by (simp add: ps_def)
    from next_enumerates [OF E enc _ this _ _ k1 n] g req(3)
    obtain rs h2 where r: "run_next E (length creds - 1) h1 = (rs, h2)" "length rs = length creds - 1"
      "fst (handleGetNextAssertion E h2) = Ok (StatusNotAllowed, [])"
      and rs: "\<And>j. j < length creds - 1 \<Longrightarrow>
        answers_for (e_cbor E) verify (knows (h_signer h1)) ?rph ?cdh 0 (creds ! Suc j) (rs ! j)"
      by (auto simp: ps_def grows_def)
    have "answers_for (e_cbor E) verify (knows (h_signer h)) ?rph ?cdh 0 (creds ! Suc j) (rs ! j)" if "j < length rs" for j
      by (rule answers_for_mono [OF rs]) (use that r(2) g in \<open>simp_all add: grows_def\<close>)
    with r G a show ?thesis by auto
  next
    case False
    then have l: "length creds - 1 = 0" by simp
    have "fst (handleGetNextAssertion E h1) = Ok (StatusNotAllowed, [])" using s False by (simp add: handleGetNextAssertion_def)
    with G a show ?thesis unfolding l by auto
  qed
qed

end

section \<open>Properties\<close>

text \<open>
  C17. Any sequence of CTAP2 commands, well-formed or not, keeps the handler's invariant: the backend's
  invariant, the store's (indexes agree with the contents, one entry per user), and a pending
  assertion with at least two credentials and an index among them; the AAGUID never changes and every
  credential the backend knew is still known.
\<close>

theorem commands_keep_invariant:
  assumes "signer_contract (e_signer E) ok knows verify" "handler_ok ok h" "run_commands E cs h = (rs, h')"
  shows "handler_ok ok h' \<and> h_aaguid h' = h_aaguid h \<and> grows ok knows (h_signer h) (h_signer h')"
  using signer_contract.run_commands_keeps [OF assms(1) refl _ assms(3)] assms(2)
  by (simp add: handler_ok_def keeps_def grows_def)

lemma commands_keep_invariant_witness:
  "\<exists>rs h'. run_commands env0 [(0x06, [1]), (0x02, []), (0x08, []), (0x55, [])] handler0 = (rs, h') \<and>
     handler_ok (mem_inv crypto0) h'"
proof -
  obtain rs h' where r: "run_commands env0 [(0x06, [1]), (0x02, []), (0x08, []), (0x55, [])] handler0 = (rs, h')"
    by fastforce
  have "handler_ok (mem_inv crypto0) handler0"
    by (simp add: handler_ok_def handler0_fields mem0_inv storage_ok_def empty_storage_ok)
       (simp add: handler0_def NewHandler_def assertion_ok_def)
  from commands_keep_invariant [OF env0_contract this r] r show ?thesis by blast
qed

text \<open>
  C7. A discoverable login goes through all of a user's accounts, in order and once: with an empty
  allow list, a confirmed presence and stored credentials the backend knows, \<^verbatim>\<open>GetAssertion\<close> answers
  for the first one and reports how many there are, each following \<^verbatim>\<open>GetNextAssertion\<close> answers for the
  next one, every answer verifies under that credential's key, and the call after the last is refused.
\<close>

theorem discoverable_login_enumerates:
  assumes "signer_contract (e_signer E) ok knows verify" "ok (h_signer h)" "encodes_all (e_cbor E)"
    and "length (ga_ClientDataHash req) = 32" "ga_AllowList req = []" "extension_of (ga_Extensions req) ''hmac-secret'' = None"
    and "h_storage h = Some cs" "creds = GetByRPID cs (ga_RPID req)" "creds \<noteq> []"
    and "\<forall>c \<in> set creds. \<exists>x y. knows (h_signer h) (cm_CredentialID c) (HashRPID (ga_RPID req)) x y"
    and "ask_presence ''FIDO2 Confirm Auth'' (ga_ClientDataHash req) (HashRPID (ga_RPID req)) (h_presence h) = (Answer answer, P)"
    and "res_OK answer"
  shows "\<exists>reply h1 replies h2. GetAssertion E req h = (reply, h1) \<and>
    answers_for (e_cbor E) verify (knows (h_signer h)) (HashRPID (ga_RPID req)) (ga_ClientDataHash req)
      (if 1 < length creds then length creds else 0) (creds ! 0) reply \<and>
    run_next E (length creds - 1) h1 = (replies, h2) \<and> length replies = length creds - 1 \<and>
    (\<forall>j < length replies. answers_for (e_cbor E) verify (knows (h_signer h)) (HashRPID (ga_RPID req)) (ga_ClientDataHash req)
       0 (creds ! Suc j) (replies ! j)) \<and>
    fst (handleGetNextAssertion E h2) = Ok (StatusNotAllowed, [])"
  using signer_contract.enumeration [OF assms(1) refl assms(2-12)] .

definition user_cred :: "bytes \<Rightarrow> string \<Rightarrow> CredentialMetadata" where
  "user_cred uid name = \<lparr>cm_RPID = ''a.org'', cm_RPName = ''A'', cm_UserID = uid, cm_UserName = name,
     cm_UserDisplayName = name, cm_CredentialID = handle0, cm_PublicKeyX = [], cm_PublicKeyY = [], cm_CreatedAt = 0\<rparr>"

definition two_users :: CredentialStorage where
  "two_users = rebuildIndexes ((empty_storage ''p'')\<lparr>credentials := [user_cred [1] ''u'', user_cred [2] ''v'']\<rparr>)"

lemma two_users_found: "GetByRPID two_users ''a.org'' = [user_cred [1] ''u'', user_cred [2] ''v'']"
  by (simp add: GetByRPID_filter [OF rebuildIndexes_ok] two_users_def user_cred_def)

definition areq1 :: GetAssertionRequest where
  "areq1 = \<lparr>ga_RPID = ''a.org'', ga_ClientDataHash = replicate 32 6, ga_AllowList = [], ga_Extensions = None,
     ga_Options = None, ga_PinUvAuthParam = [], ga_PinUvAuthProtocol = 0\<rparr>"

lemma discoverable_login_enumerates_witness:
  "\<exists>reply h1 replies h2.
    GetAssertion env0 areq1 (handler0\<lparr>h_storage := Some two_users, h_presence := presence0 [(Received yes, True)]\<rparr>) = (reply, h1) \<and>
    answers_for cbor0 (ecdsaVerify crypto0) (mem_knows crypto0 mem0) (HashRPID ''a.org'') (replicate 32 6) 2 (user_cred [1] ''u'') reply \<and>
    run_next env0 1 h1 = (replies, h2) \<and> fst (handleGetNextAssertion env0 h2) = Ok (StatusNotAllowed, [])"
proof -
  let ?h = "handler0\<lparr>h_storage := Some two_users, h_presence := presence0 [(Received yes, True)]\<rparr>"
  obtain P where P: "ask_presence ''FIDO2 Confirm Auth'' (ga_ClientDataHash areq1) (HashRPID (ga_RPID areq1)) (h_presence ?h) =
      (Answer yes, P)"
    by (simp add: ask_presence_def ConfirmPresence_def Let_def presence0_def next_wait_def cleared_by_now_def)
  have i: "mem_inv crypto0 (h_signer ?h)" by (simp add: handler0_fields mem0_inv)
  have c: "[user_cred [1] ''u'', user_cred [2] ''v''] = GetByRPID two_users (ga_RPID areq1)"
    by (simp add: two_users_found areq1_def)
  have k: "\<forall>c \<in> set [user_cred [1] ''u'', user_cred [2] ''v''].
      \<exists>x y. mem_knows crypto0 (h_signer ?h) (cm_CredentialID c) (HashRPID (ga_RPID areq1)) x y"
    using handle0_known by (auto simp: user_cred_def handler0_fields)
  have s: "h_storage ?h = Some two_users" "length (ga_ClientDataHash areq1) = 32" "ga_AllowList areq1 = []"
      "extension_of (ga_Extensions areq1) ''hmac-secret'' = None" "res_OK yes"
    by (simp_all add: areq1_def extension_of_def yes_def)
  have f: "h_signer ?h = mem0" "e_cbor env0 = cbor0" "ga_RPID areq1 = ''a.org''" "ga_ClientDataHash areq1 = replicate 32 6"
    by (simp_all add: handler0_fields areq1_def env0_def)
  from discoverable_login_enumerates [OF env0_contract i env0_encodes s(2-4) s(1) c _ k P s(5)] show ?thesis
    unfolding f by (simp add: numeral_2_eq_2 del: replicate_Suc) blast
qed

text \<open>
  C39. Requests the authenticator does not understand change nothing and get the matching status: an
  unknown command, CBOR that does not decode, a ClientPIN subcommand other than the key agreement, and
  GetNextAssertion without a pending assertion.
\<close>

theorem HandleCommand_rejects:
  "(cmd \<notin> {0x01, 0x02, 0x04, 0x06, 0x08} \<longrightarrow> HandleCommand E cmd data h = (Ok (StatusInvalidCommand, []), h)) \<and>
   (cmd = 0x01 \<and> unmarshalMakeCredential (e_cbor E) data = Inl e \<or>
    cmd = 0x02 \<and> unmarshalGetAssertion (e_cbor E) data = Inl e \<or>
    cmd = 0x06 \<and> unmarshalClientPIN (e_cbor E) data = Inl e \<longrightarrow>
      HandleCommand E cmd data h = (Ok (StatusInvalidCBOR, []), h)) \<and>
   (cmd = 0x06 \<and> unmarshalClientPIN (e_cbor E) data = Inr preq \<and> cp_SubCommand preq \<noteq> 2 \<longrightarrow>
      HandleCommand E cmd data h = (Ok (StatusPINNotSet, []), h)) \<and>
   (cmd = 0x08 \<and> h_assertionState h = None \<longrightarrow> HandleCommand E cmd data h = (Ok (StatusNotAllowed, []), h))"
  by (auto simp: HandleCommand_def CmdGetInfo_def CmdMakeCredential_def CmdGetAssertion_def CmdGetNextAssertion_def
      CmdClientPIN_def handleMakeCredential_def parseMakeCredentialRequest_def handleGetAssertion_def
      parseGetAssertionRequest_def handleClientPIN_def ClientPINSubCmdGetKeyAgreement_def handleGetNextAssertion_def)

lemma HandleCommand_rejects_witness:
  "HandleCommand env0 0x0B [] handler0 = (Ok (StatusInvalidCommand, []), handler0) \<and>
   HandleCommand env0 0x01 [1] handler0 = (Ok (StatusInvalidCBOR, []), handler0)"
  using HandleCommand_rejects [of "0x0B" env0 "[]" handler0]
    HandleCommand_rejects [of "0x01" env0 "[1]" handler0 "ErrMsg ''cbor''"]
  by (simp add: env0_def cbor0_def)

end
