(* ===== verification/TpmBackend.thy ===== *)
theory TpmBackend
  imports Lencode Signer
begin

text \<open>
  \<^verbatim>\<open>tpm/tpm.go\<close>: the TPM signer backend. Each key lives under a primary key that the TPM derives again,
  for every call, from a template holding a seed and the relying party; the key handle is the
  wrapped key and the seed framed by \<^verbatim>\<open>internal/lencode\<close>. The packages it calls
  (\<^verbatim>\<open>go-tpm\<close>, \<^verbatim>\<open>x/crypto/hkdf\<close>, \<^verbatim>\<open>x/crypto/cryptobyte\<close>) are the argument \<open>TpmLib\<close> over an
  arbitrary device state; \<open>tpm_frame\<close>, \<open>tpm_stays\<close> and \<open>tpm_works\<close> state what the TPM 2.0 specification says of
  the commands used.
\<close>

section \<open>The libraries\<close>

text \<open>The constants of \<^verbatim>\<open>go-tpm\<close> the templates use.\<close>

datatype tpm_alg = AlgECC | AlgSHA256 | AlgAES | AlgCFB | AlgECDSA

datatype tpm_flag =
    FlagRestricted | FlagDecrypt | FlagFixedTPM | FlagFixedParent | FlagSensitiveDataOrigin
  | FlagUserWithAuth | FlagSign

datatype tpm_curve = CurveNISTP256

record ECCParams =
  ecc_Symmetric :: "(tpm_alg \<times> nat \<times> tpm_alg) option"
  ecc_Sign :: "(tpm_alg \<times> tpm_alg) option"
  ecc_CurveID :: tpm_curve
  ecc_XRaw :: bytes
  ecc_YRaw :: bytes

record Public =
  pub_Type :: tpm_alg
  pub_NameAlg :: tpm_alg
  pub_Attributes :: "tpm_flag set"
  pub_ECC :: ECCParams

text \<open>
  Handles are numbers; \<open>CreateKey\<close> returns the private and the public blob, \<open>LoadKey\<close> takes the public one
  first, as \<^verbatim>\<open>tpm2.Load\<close> does. \<open>hkdf_New\<close> is the reader \<^verbatim>\<open>hkdf.New\<close> returns and \<open>asn1_sig\<close> the bytes of
  the builder filled with a sequence of two integers. \<^verbatim>\<open>tpm.go\<close> does not look at the errors of \<^verbatim>\<open>FlushContext\<close> and
  \<^verbatim>\<open>Close\<close>, so only their effect on the device is represented.
\<close>

record 'd TpmLib =
  OpenTPM :: "string \<Rightarrow> 'd \<Rightarrow> (gerr + unit) \<times> 'd"
  CloseTPM :: "'d \<Rightarrow> 'd"
  CreatePrimary :: "Public \<Rightarrow> 'd \<Rightarrow> (gerr + nat) \<times> 'd"
  CreateKey :: "nat \<Rightarrow> Public \<Rightarrow> 'd \<Rightarrow> (gerr + bytes \<times> bytes) \<times> 'd"
  LoadKey :: "nat \<Rightarrow> bytes \<Rightarrow> bytes \<Rightarrow> 'd \<Rightarrow> (gerr + nat) \<times> 'd"
  ReadPublic :: "nat \<Rightarrow> 'd \<Rightarrow> (gerr + bytes \<times> bytes) \<times> 'd"
  TpmSign :: "nat \<Rightarrow> bytes \<Rightarrow> tpm_alg \<times> tpm_alg \<Rightarrow> 'd \<Rightarrow> (gerr + nat \<times> nat) \<times> 'd"
  FlushContext :: "nat \<Rightarrow> 'd \<Rightarrow> 'd"
  hkdf_New :: "bytes \<Rightarrow> bytes \<Rightarrow> bytes \<Rightarrow> Reader"
  asn1_sig :: "nat \<Rightarrow> nat \<Rightarrow> gerr + bytes"

section \<open>State\<close>

text \<open>The device, the randomness and the readings of the clock belong to the state the methods use.\<close>

record 'd TPM =
  devicePath :: string
  tpm_dev :: 'd
  tpm_rng :: Rng
  tpm_clock :: "nat \<Rightarrow> int"
  tpm_ticks :: nat

definition separator :: bytes where
  "separator = str_bytes ''TPM''"

definition seedSizeBytes :: nat where
  "seedSizeBytes = 20"

text \<open>A library call on the device, with the text its error is wrapped in; and a deferred call.\<close>

definition calling :: "string \<Rightarrow> ('d \<Rightarrow> (gerr + 'a) \<times> 'd) \<Rightarrow> 'd TPM \<Rightarrow> 'a res \<times> 'd TPM" where
  "calling txt f t =
     (case f (tpm_dev t) of
        (Inl e, d) \<Rightarrow> (Err (Wrapped txt e), t\<lparr>tpm_dev := d\<rparr>)
      | (Inr a, d) \<Rightarrow> (Ok a, t\<lparr>tpm_dev := d\<rparr>))"

definition deferred :: "('d \<Rightarrow> 'd) \<Rightarrow> 'a res \<times> 'd TPM \<Rightarrow> 'a res \<times> 'd TPM" where
  "deferred f p = (case p of (r, t) \<Rightarrow> (r, t\<lparr>tpm_dev := f (tpm_dev t)\<rparr>))"

definition NewTPM :: "'d TpmLib \<Rightarrow> string \<Rightarrow> 'd \<Rightarrow> Rng \<Rightarrow> (nat \<Rightarrow> int) \<Rightarrow> (gerr + unit) \<times> 'd TPM" where
  "NewTPM L path d rng clock =
     (case OpenTPM L path d of
        (r, d1) \<Rightarrow>
          (r, \<lparr>devicePath = path, tpm_dev = (case r of Inl _ \<Rightarrow> d1 | Inr _ \<Rightarrow> CloseTPM L d1),
               tpm_rng = rng, tpm_clock = clock, tpm_ticks = 0\<rparr>))"

section \<open>Templates\<close>

definition storage_template :: "bytes \<Rightarrow> bytes \<Rightarrow> Public" where
  "storage_template x y =
     \<lparr>pub_Type = AlgECC, pub_NameAlg = AlgSHA256,
      pub_Attributes = {FlagRestricted, FlagDecrypt, FlagFixedTPM, FlagFixedParent,
                        FlagSensitiveDataOrigin, FlagUserWithAuth},
      pub_ECC = \<lparr>ecc_Symmetric = Some (AlgAES, 128, AlgCFB), ecc_Sign = None,
                 ecc_CurveID = CurveNISTP256, ecc_XRaw = x, ecc_YRaw = y\<rparr>\<rparr>"

definition primaryKeyTmpl :: "'d TpmLib \<Rightarrow> bytes \<Rightarrow> bytes \<Rightarrow> Public res" where
  "primaryKeyTmpl L seed applicationParam =
     (let info = str_bytes ''tpm-fido-application-key'' @ applicationParam;
          r = hkdf_New L seed [] info
      in case ReadFull 32 r of
           (Inl e, _) \<Rightarrow> Panic (err_text e)
         | (Inr x, r1) \<Rightarrow>
             (case ReadFull 32 r1 of
                (Inl e, _) \<Rightarrow> Panic (err_text e)
              | (Inr y, _) \<Rightarrow> Ok (storage_template x y)))"

definition childTmpl :: Public where
  "childTmpl =
     \<lparr>pub_Type = AlgECC, pub_NameAlg = AlgSHA256,
      pub_Attributes = {FlagFixedTPM, FlagFixedParent, FlagSensitiveDataOrigin, FlagUserWithAuth, FlagSign},
      pub_ECC = \<lparr>ecc_Symmetric = None, ecc_Sign = Some (AlgECDSA, AlgSHA256),
                 ecc_CurveID = CurveNISTP256, ecc_XRaw = replicate 32 0, ecc_YRaw = replicate 32 0\<rparr>\<rparr>"

section \<open>Operations\<close>

text \<open>\<^verbatim>\<open>baseTime.Unix()\<close> is 2021-01-01 00:00 UTC, 18628 days after the epoch.\<close>

definition baseTime :: int where
  "baseTime = 18628 * 86400"

definition tpm_Counter :: "'d TPM \<Rightarrow> 32 word \<times> 'd TPM" where
  "tpm_Counter t = (word_of_int (tpm_clock t (tpm_ticks t) - baseTime), t\<lparr>tpm_ticks := Suc (tpm_ticks t)\<rparr>)"

text \<open>The three frames of a key handle; the results of \<^verbatim>\<open>enc.Encode\<close> are not looked at.\<close>

definition key_handle :: "bytes \<Rightarrow> bytes \<Rightarrow> bytes \<Rightarrow> bytes" where
  "key_handle private public randSeed =
     (let enc0 = NewEncoder bytes_buffer [SeparatorOpt (Some separator)];
          enc1 = snd (Encode private enc0);
          enc2 = snd (Encode public enc1);
          enc3 = snd (Encode randSeed enc2)
      in wr_out (enc_w enc3))"

definition tpm_RegisterKey :: "'d TpmLib \<Rightarrow> bytes \<Rightarrow> 'd TPM \<Rightarrow> (bytes \<times> nat \<times> nat) res \<times> 'd TPM" where
  "tpm_RegisterKey L applicationParam t0 =
     and_then (calling ''open tpm err: '' (OpenTPM L (devicePath t0)) t0) (\<lambda>_ t1.
     deferred (CloseTPM L) (
     and_then (case mustRand seedSizeBytes (tpm_rng t1) of (r, g) \<Rightarrow> (r, t1\<lparr>tpm_rng := g\<rparr>)) (\<lambda>randSeed t2.
     and_then (primaryKeyTmpl L randSeed applicationParam, t2) (\<lambda>primaryTmpl t3.
     and_then (calling ''CreatePrimary key err: '' (CreatePrimary L primaryTmpl) t3) (\<lambda>parentHandle t4.
     deferred (FlushContext L parentHandle) (
     and_then (calling ''CreateKey (child) err: '' (CreateKey L parentHandle childTmpl) t4) (\<lambda>(private, public) t5.
     and_then (calling ''load child key err: '' (LoadKey L parentHandle public private) t5) (\<lambda>keyHandle t6.
     deferred (FlushContext L keyHandle) (
     and_then (calling ''read public key err: '' (ReadPublic L keyHandle) t6) (\<lambda>(XRaw, YRaw) t7.
       (Ok (key_handle private public randSeed, be_nat XRaw, be_nat YRaw), t7)))))))))))"

text \<open>Decoding the three frames, each failure with its own error.\<close>

definition or_err :: "gerr \<Rightarrow> 'a res \<times> 's \<Rightarrow> 'a res \<times> 's" where
  "or_err e p = (case p of (Err _, s) \<Rightarrow> (Err e, s) | (r, s) \<Rightarrow> (r, s))"

definition split_handle :: "gerr \<Rightarrow> gerr \<Rightarrow> gerr \<Rightarrow> bytes \<Rightarrow> (bytes \<times> bytes \<times> bytes) res \<times> Decoder" where
  "split_handle e1 e2 e3 keyHandle =
     and_then (or_err e1 (Decode (NewDecoder (bytes_reader keyHandle) [SeparatorOpt (Some separator)])))
       (\<lambda>private d1. and_then (or_err e2 (Decode d1)) (\<lambda>public d2. and_then (or_err e3 (Decode d2)) (\<lambda>seed d3.
          (Ok (private, public, seed), d3))))"

definition tpm_DeriveCredRandom :: "bytes \<Rightarrow> 'd TPM \<Rightarrow> bytes res \<times> 'd TPM" where
  "tpm_DeriveCredRandom keyHandle t =
     (case split_handle (ErrMsg ''invalid key handle: missing private'') (ErrMsg ''invalid key handle: missing public'')
             (ErrMsg ''invalid key handle: missing seed'') keyHandle of
        (Ok (private, public, seed), _) \<Rightarrow> (Ok (hmac_sha256 seed (str_bytes ''credential-random'')), t)
      | (Err e, _) \<Rightarrow> (Err e, t)
      | (Panic m, _) \<Rightarrow> (Panic m, t))"

definition invalidHandleErr :: gerr where
  "invalidHandleErr = ErrMsg ''invalid key handle''"

definition parse_key_handle :: "bytes \<Rightarrow> (bytes \<times> bytes \<times> bytes) res" where
  "parse_key_handle keyHandle =
     fst (and_then (split_handle invalidHandleErr invalidHandleErr invalidHandleErr keyHandle) (\<lambda>parts d.
            (case Decode d of
               (Err e, d1) \<Rightarrow> (if e = EOF then Ok parts else Err invalidHandleErr, d1)
             | (Ok _, d1) \<Rightarrow> (Err invalidHandleErr, d1)
             | (Panic m, d1) \<Rightarrow> (Panic m, d1))))"

definition tpm_SignASN1 :: "'d TpmLib \<Rightarrow> bytes \<Rightarrow> bytes \<Rightarrow> bytes \<Rightarrow> 'd TPM \<Rightarrow> bytes res \<times> 'd TPM" where
  "tpm_SignASN1 L keyHandle applicationParam digest t0 =
     and_then (calling ''open tpm err: '' (OpenTPM L (devicePath t0)) t0) (\<lambda>_ t1.
     deferred (CloseTPM L) (
     and_then (parse_key_handle keyHandle, t1) (\<lambda>(private, public, seed) t2.
     and_then (primaryKeyTmpl L seed applicationParam, t2) (\<lambda>srkTemplate t3.
     and_then (calling ''CreatePrimary key err: '' (CreatePrimary L srkTemplate) t3) (\<lambda>parentHandle t4.
     deferred (FlushContext L parentHandle) (
     and_then (calling ''Load err: '' (LoadKey L parentHandle public private) t4) (\<lambda>key t5.
     deferred (FlushContext L key) (
     and_then (calling ''sign err: '' (TpmSign L key digest (AlgECDSA, AlgSHA256)) t5) (\<lambda>(R, S) t6.
       (case asn1_sig L R S of Inl e \<Rightarrow> Err e | Inr b \<Rightarrow> Ok b, t6))))))))))"

definition tpm_signer :: "'d TpmLib \<Rightarrow> 'd TPM Signer" where
  "tpm_signer L =
     \<lparr>RegisterKey = tpm_RegisterKey L, SignASN1 = tpm_SignASN1 L, Counter = tpm_Counter,
      DeriveCredRandom = tpm_DeriveCredRandom\<rparr>"

section \<open>What the TPM promises\<close>

text \<open>
  \<open>objs\<close> reads off a device state the transient objects that are loaded, \<open>made\<close> the keys the TPM ever
  created: wrapped key, public part, template of the parent, public point. \<open>tpm_frame\<close> is the effect
  of each command on both: a failing command loads nothing, only an explicit flush unloads an
  object (closing the resource manager's device may), and a key loads only if this TPM made it and
  under a parent with the template it was made under.
\<close>

datatype tpm_obj = Primary Public | Child nat nat

record 'd TpmView =
  objs :: "'d \<Rightarrow> nat \<Rightarrow> tpm_obj option"
  made :: "'d \<Rightarrow> (bytes \<times> bytes \<times> Public \<times> nat \<times> nat) set"

definition tpm_frame :: "'d TpmLib \<Rightarrow> 'd TpmView \<Rightarrow> bool" where
  "tpm_frame L V \<longleftrightarrow>
     (\<forall>path d r d'. OpenTPM L path d = (r, d') \<longrightarrow> objs V d' = objs V d \<and> made V d' = made V d) \<and>
     (\<forall>d. objs V (CloseTPM L d) \<subseteq>\<^sub>m objs V d \<and> made V (CloseTPM L d) = made V d) \<and>
     (\<forall>tm d r d'. CreatePrimary L tm d = (r, d') \<longrightarrow> made V d' = made V d \<and>
        (case r of Inl e \<Rightarrow> objs V d' = objs V d
         | Inr h \<Rightarrow> objs V d h = None \<and> objs V d' = (objs V d)(h \<mapsto> Primary tm))) \<and>
     (\<forall>p tm d r d'. CreateKey L p tm d = (r, d') \<longrightarrow> objs V d' = objs V d \<and> made V d \<subseteq> made V d' \<and>
        (\<forall>priv pub tp. r = Inr (priv, pub) \<longrightarrow> objs V d p = Some (Primary tp) \<longrightarrow>
           (\<exists>x y. (priv, pub, tp, x, y) \<in> made V d'))) \<and>
     (\<forall>p pub priv d r d'. LoadKey L p pub priv d = (r, d') \<longrightarrow> made V d' = made V d \<and>
        (case r of Inl e \<Rightarrow> objs V d' = objs V d
         | Inr k \<Rightarrow> objs V d k = None \<and>
             (\<exists>tp x y. objs V d p = Some (Primary tp) \<and> (priv, pub, tp, x, y) \<in> made V d \<and>
                objs V d' = (objs V d)(k \<mapsto> Child x y)))) \<and>
     (\<forall>k d r d'. ReadPublic L k d = (r, d') \<longrightarrow> objs V d' = objs V d \<and> made V d' = made V d \<and>
        (\<forall>xr yr x y. r = Inr (xr, yr) \<longrightarrow> objs V d k = Some (Child x y) \<longrightarrow> be_nat xr = x \<and> be_nat yr = y)) \<and>
     (\<forall>k dg sc d r d'. TpmSign L k dg sc d = (r, d') \<longrightarrow> objs V d' = objs V d \<and> made V d' = made V d) \<and>
     (\<forall>h d. objs V (FlushContext L h d) = (objs V d)(h := None) \<and> made V (FlushContext L h d) = made V d)"

lemmas frame_open = tpm_frame_def [THEN iffD1, THEN conjunct1, rule_format]
lemmas frame_close = tpm_frame_def [THEN iffD1, THEN conjunct2, THEN conjunct1, rule_format]
lemmas frame_primary = tpm_frame_def [THEN iffD1, THEN conjunct2, THEN conjunct2, THEN conjunct1, rule_format]
lemmas frame_create = tpm_frame_def [THEN iffD1, THEN conjunct2, THEN conjunct2, THEN conjunct2, THEN conjunct1, rule_format]
lemmas frame_load = tpm_frame_def [THEN iffD1, THEN conjunct2, THEN conjunct2, THEN conjunct2, THEN conjunct2, THEN conjunct1, rule_format]
lemmas frame_read = tpm_frame_def [THEN iffD1, THEN conjunct2, THEN conjunct2, THEN conjunct2, THEN conjunct2, THEN conjunct2, THEN conjunct1, rule_format]
lemmas frame_sign = tpm_frame_def [THEN iffD1, THEN conjunct2, THEN conjunct2, THEN conjunct2, THEN conjunct2, THEN conjunct2, THEN conjunct2, THEN conjunct1, rule_format]
lemmas frame_flush = tpm_frame_def [THEN iffD1, THEN conjunct2, THEN conjunct2, THEN conjunct2, THEN conjunct2, THEN conjunct2, THEN conjunct2, THEN conjunct2, rule_format]

text \<open>A property of the device that every command keeps.\<close>

definition tpm_stays :: "'d TpmLib \<Rightarrow> ('d \<Rightarrow> bool) \<Rightarrow> bool" where
  "tpm_stays L good \<longleftrightarrow>
     (\<forall>d. good d \<longrightarrow>
        (\<forall>path. good (snd (OpenTPM L path d))) \<and> good (CloseTPM L d) \<and>
        (\<forall>tm. good (snd (CreatePrimary L tm d))) \<and> (\<forall>p tm. good (snd (CreateKey L p tm d))) \<and>
        (\<forall>p pub priv. good (snd (LoadKey L p pub priv d))) \<and> (\<forall>k. good (snd (ReadPublic L k d))) \<and>
        (\<forall>k dg sc. good (snd (TpmSign L k dg sc d))) \<and> (\<forall>h. good (FlushContext L h d)))"

text \<open>
  A working TPM at \<open>path\<close>: it opens, has room for three transient objects (the least the PC client
  profile allows), and does what it is asked. A wrapped key determines its parent and its point (up
  to a forgery of the integrity value, which the model excludes), and keys of this type are wrapped
  in less than 256 bytes. \<open>verify\<close> is the check a relying party makes.
\<close>

definition room :: "'d TpmView \<Rightarrow> 'd \<Rightarrow> bool" where
  "room V d \<longleftrightarrow> finite (dom (objs V d)) \<and> card (dom (objs V d)) < 3"

definition tpm_works ::
  "'d TpmLib \<Rightarrow> 'd TpmView \<Rightarrow> string \<Rightarrow> ('d \<Rightarrow> bool) \<Rightarrow> (nat \<Rightarrow> nat \<Rightarrow> bytes \<Rightarrow> bytes \<Rightarrow> bool) \<Rightarrow> bool" where
  "tpm_works L V path good verify \<longleftrightarrow>
     (\<forall>d. good d \<longrightarrow>
        (\<exists>d'. OpenTPM L path d = (Inr (), d')) \<and>
        (\<forall>x y. length x = 32 \<longrightarrow> length y = 32 \<longrightarrow> room V d \<longrightarrow>
           (\<exists>h d'. CreatePrimary L (storage_template x y) d = (Inr h, d'))) \<and>
        (\<forall>p x y. objs V d p = Some (Primary (storage_template x y)) \<longrightarrow> length x = 32 \<longrightarrow> length y = 32 \<longrightarrow>
           (\<exists>priv pub d'. CreateKey L p childTmpl d = (Inr (priv, pub), d') \<and>
              length priv \<le> 255 \<and> length pub \<le> 255)) \<and>
        (\<forall>p priv pub tp x y. objs V d p = Some (Primary tp) \<longrightarrow> (priv, pub, tp, x, y) \<in> made V d \<longrightarrow> room V d \<longrightarrow>
           (\<exists>k d'. LoadKey L p pub priv d = (Inr k, d'))) \<and>
        (\<forall>k x y. objs V d k = Some (Child x y) \<longrightarrow>
           (\<exists>xr yr d'. ReadPublic L k d = (Inr (xr, yr), d')) \<and>
           (\<forall>dg. length dg = 32 \<longrightarrow>
              (\<exists>R S d' b. TpmSign L k dg (AlgECDSA, AlgSHA256) d = (Inr (R, S), d') \<and>
                 asn1_sig L R S = Inr b \<and> verify x y dg b))) \<and>
        (\<forall>priv pub tp x y tp' x' y'. (priv, pub, tp, x, y) \<in> made V d \<longrightarrow> (priv, pub, tp', x', y') \<in> made V d \<longrightarrow>
           tp' = tp \<and> x' = x \<and> y' = y))"

lemma tpm_worksD:
  assumes "tpm_works L V path good verify" "good d"
  shows works_open: "\<exists>d'. OpenTPM L path d = (Inr (), d')"
    and works_primary: "length x = 32 \<Longrightarrow> length y = 32 \<Longrightarrow> room V d \<Longrightarrow>
        \<exists>h d'. CreatePrimary L (storage_template x y) d = (Inr h, d')"
    and works_create: "objs V d p = Some (Primary (storage_template x y)) \<Longrightarrow> length x = 32 \<Longrightarrow> length y = 32 \<Longrightarrow>
        \<exists>priv pub d'. CreateKey L p childTmpl d = (Inr (priv, pub), d') \<and> length priv \<le> 255 \<and> length pub \<le> 255"
    and works_load: "objs V d p = Some (Primary tp) \<Longrightarrow> (priv, pub, tp, kx, ky) \<in> made V d \<Longrightarrow> room V d \<Longrightarrow>
        \<exists>k d'. LoadKey L p pub priv d = (Inr k, d')"
    and works_read: "objs V d k = Some (Child kx ky) \<Longrightarrow> \<exists>xr yr d'. ReadPublic L k d = (Inr (xr, yr), d')"
    and works_sign: "objs V d k = Some (Child kx ky) \<Longrightarrow> length dg = 32 \<Longrightarrow>
        \<exists>R S d' b. TpmSign L k dg (AlgECDSA, AlgSHA256) d = (Inr (R, S), d') \<and> asn1_sig L R S = Inr b \<and> verify kx ky dg b"
    and works_unique: "(priv, pub, tp, kx, ky) \<in> made V d \<Longrightarrow> (priv, pub, tp', kx', ky') \<in> made V d \<Longrightarrow>
        tp' = tp \<and> kx' = kx \<and> ky' = ky"
proof -
  note w = assms(1) [unfolded tpm_works_def, THEN spec, THEN mp, OF assms(2)]
  show "\<exists>d'. OpenTPM L path d = (Inr (), d')" by (rule w [THEN conjunct1])
  note w = w [THEN conjunct2]
  show "length x = 32 \<Longrightarrow> length y = 32 \<Longrightarrow> room V d \<Longrightarrow>
        \<exists>h d'. CreatePrimary L (storage_template x y) d = (Inr h, d')" by (rule w [THEN conjunct1, rule_format])
  note w = w [THEN conjunct2]
  show "objs V d p = Some (Primary (storage_template x y)) \<Longrightarrow> length x = 32 \<Longrightarrow> length y = 32 \<Longrightarrow>
        \<exists>priv pub d'. CreateKey L p childTmpl d = (Inr (priv, pub), d') \<and> length priv \<le> 255 \<and> length pub \<le> 255"
    by (rule w [THEN conjunct1, rule_format])
  note w = w [THEN conjunct2]
  show "objs V d p = Some (Primary tp) \<Longrightarrow> (priv, pub, tp, kx, ky) \<in> made V d \<Longrightarrow> room V d \<Longrightarrow>
        \<exists>k d'. LoadKey L p pub priv d = (Inr k, d')" by (rule w [THEN conjunct1, rule_format])
  note w = w [THEN conjunct2]
  show "objs V d k = Some (Child kx ky) \<Longrightarrow> \<exists>xr yr d'. ReadPublic L k d = (Inr (xr, yr), d')"
    using w [THEN conjunct1] by blast
  show "objs V d k = Some (Child kx ky) \<Longrightarrow> length dg = 32 \<Longrightarrow>
        \<exists>R S d' b. TpmSign L k dg (AlgECDSA, AlgSHA256) d = (Inr (R, S), d') \<and> asn1_sig L R S = Inr b \<and> verify kx ky dg b"
    using w [THEN conjunct1] by blast
  show "(priv, pub, tp, kx, ky) \<in> made V d \<Longrightarrow> (priv, pub, tp', kx', ky') \<in> made V d \<Longrightarrow>
        tp' = tp \<and> kx' = kx \<and> ky' = ky" by (rule w [THEN conjunct2, rule_format])
qed

text \<open>HKDF yields up to 8160 bytes (RFC 5869); the templates read 64.\<close>

definition hkdf_long :: "'d TpmLib \<Rightarrow> bool" where
  "hkdf_long L \<longleftrightarrow> (\<forall>secret salt info. 64 \<le> length (rd_data (hkdf_New L secret salt info)))"

text \<open>
  HKDF is collision-free on a set of context strings \<open>I\<close>: under one 20-byte secret and no salt, two different
  ones give different first 64 bytes of output. A statement about the library only.
\<close>

definition hkdf_collision_free :: "'d TpmLib \<Rightarrow> bytes set \<Rightarrow> bool" where
  "hkdf_collision_free L I \<longleftrightarrow>
     (\<forall>secret. length secret = 20 \<longrightarrow> inj_on (\<lambda>info. take 64 (rd_data (hkdf_New L secret [] info))) I)"

section \<open>Effects of the operations\<close>

text \<open>
  \<open>tidy\<close>: a computation started in \<open>t\<close> leaves no object loaded that was not loaded before, forgets no
  key, and keeps the device's property, the path and the clock.
\<close>

definition tidy :: "'d TpmView \<Rightarrow> ('d \<Rightarrow> bool) \<Rightarrow> 'd TPM \<Rightarrow> 'a res \<times> 'd TPM \<Rightarrow> bool" where
  "tidy V good t p \<longleftrightarrow>
     objs V (tpm_dev (snd p)) \<subseteq>\<^sub>m objs V (tpm_dev t) \<and> made V (tpm_dev t) \<subseteq> made V (tpm_dev (snd p)) \<and>
     (good (tpm_dev t) \<longrightarrow> good (tpm_dev (snd p))) \<and> devicePath (snd p) = devicePath t \<and>
     tpm_clock (snd p) = tpm_clock t \<and> (rng_good (tpm_rng t) \<longrightarrow> rng_good (tpm_rng (snd p)))"

lemma tidy_same [simp]: "tidy V good t (r, t)"
  by (simp add: tidy_def)

lemma tidy_trans: "tidy V good t (r, t1) \<Longrightarrow> tidy V good t1 p \<Longrightarrow> tidy V good t p"
  by (auto simp: tidy_def intro: map_le_trans)

lemma tidy_and_then:
  assumes "tidy V good t p" "\<And>a t1. p = (Ok a, t1) \<Longrightarrow> tidy V good t1 (k a t1)"
  shows "tidy V good t (and_then p k)"
proof (cases p)
  case (Pair r t1)
  with assms show ?thesis by (cases r) (auto simp: tidy_def intro: map_le_trans)
qed

lemma tidy_close:
  "tpm_frame L V \<Longrightarrow> tpm_stays L good \<Longrightarrow> tidy V good t p \<Longrightarrow> tidy V good t (deferred (CloseTPM L) p)"
  by (cases p) (auto simp: tidy_def deferred_def tpm_frame_def tpm_stays_def intro: map_le_trans)

lemma map_le_flush:
  "m \<subseteq>\<^sub>m n(h \<mapsto> v) \<Longrightarrow> n h = None \<Longrightarrow> m(h := None) \<subseteq>\<^sub>m n"
  by (auto simp: map_le_def dom_def split: if_splits)

text \<open>The pattern \<^verbatim>\<open>handle, err := ...; defer FlushContext(handle)\<close>.\<close>

definition loads :: "'d TpmView \<Rightarrow> ('d \<Rightarrow> (gerr + nat) \<times> 'd) \<Rightarrow> bool" where
  "loads V f \<longleftrightarrow>
     (\<forall>d r d'. f d = (r, d') \<longrightarrow> made V d' = made V d \<and>
        (case r of Inl e \<Rightarrow> objs V d' = objs V d
         | Inr h \<Rightarrow> objs V d h = None \<and> (\<exists>ob. objs V d' = (objs V d)(h \<mapsto> ob))))"

lemma loads_CreatePrimary: "tpm_frame L V \<Longrightarrow> loads V (CreatePrimary L tm)"
  unfolding loads_def tpm_frame_def by (auto split: sum.splits) metis+

lemma loads_LoadKey: "tpm_frame L V \<Longrightarrow> loads V (LoadKey L p pub priv)"
  unfolding loads_def tpm_frame_def by (auto split: sum.splits) metis+

lemma tidy_handle:
  assumes "tpm_frame L V" "tpm_stays L good" "loads V f" "\<And>d. good d \<Longrightarrow> good (snd (f d))"
    and "\<And>h t1. calling txt f t = (Ok h, t1) \<Longrightarrow> tidy V good t1 (q h t1)"
  shows "tidy V good t (and_then (calling txt f t) (\<lambda>h t1. deferred (FlushContext L h) (q h t1)))"
proof -
  obtain r d where f: "f (tpm_dev t) = (r, d)" by fastforce
  have g: "good (tpm_dev t) \<Longrightarrow> good d" using assms(4) [of "tpm_dev t"] f by simp
  show ?thesis
  proof (cases r)
    case (Inl e)
    with f assms(3) have "objs V d = objs V (tpm_dev t)" "made V d = made V (tpm_dev t)"
      by (fastforce simp: loads_def)+
    with Inl f g show ?thesis by (simp add: calling_def tidy_def)
  next
    case (Inr h)
    with f have c: "calling txt f t = (Ok h, t\<lparr>tpm_dev := d\<rparr>)" by (simp add: calling_def)
    from assms(3) f Inr obtain ob where o: "objs V (tpm_dev t) h = None"
      "objs V d = (objs V (tpm_dev t))(h \<mapsto> ob)" "made V d = made V (tpm_dev t)"
      by (fastforce simp: loads_def)
    obtain x t2 where q: "q h (t\<lparr>tpm_dev := d\<rparr>) = (x, t2)" by fastforce
    from assms(5) [OF c] q have t2: "tidy V good (t\<lparr>tpm_dev := d\<rparr>) (x, t2)" by simp
    with o have "(objs V (tpm_dev t2))(h := None) \<subseteq>\<^sub>m objs V (tpm_dev t)"
      by (auto simp: tidy_def intro: map_le_flush)
    with t2 o g assms(1,2) show ?thesis
      by (auto simp: c q deferred_def tidy_def tpm_frame_def tpm_stays_def)
  qed
qed

text \<open>Calls that load nothing.\<close>

lemma tidy_call:
  assumes "\<And>d r d'. f d = (r, d') \<Longrightarrow> objs V d' = objs V d \<and> made V d \<subseteq> made V d'"
    and "\<And>d. good d \<Longrightarrow> good (snd (f d))"
  shows "tidy V good t (calling txt f t)"
proof -
  obtain r d where f: "f (tpm_dev t) = (r, d)" by fastforce
  with assms(1) [OF f] assms(2) [of "tpm_dev t"] show ?thesis
    by (cases r) (auto simp: calling_def tidy_def)
qed

lemma tidy_calls:
  assumes "tpm_frame L V" "tpm_stays L good"
  shows "tidy V good t (calling txt (OpenTPM L path) t)" "tidy V good t (calling txt (CreateKey L p tm) t)"
    "tidy V good t (calling txt (ReadPublic L k) t)" "tidy V good t (calling txt (TpmSign L k dg sc) t)"
proof -
  note s = assms(2) [unfolded tpm_stays_def, rule_format]
  show "tidy V good t (calling txt (OpenTPM L path) t)"
    by (rule tidy_call) (drule frame_open [OF assms(1)], simp, simp add: s)
  show "tidy V good t (calling txt (CreateKey L p tm) t)"
    by (rule tidy_call) (drule frame_create [OF assms(1)], simp, simp add: s)
  show "tidy V good t (calling txt (ReadPublic L k) t)"
    by (rule tidy_call) (drule frame_read [OF assms(1)], simp, simp add: s)
  show "tidy V good t (calling txt (TpmSign L k dg sc) t)"
    by (rule tidy_call) (drule frame_sign [OF assms(1)], simp, simp add: s)
qed

lemma tidy_rand:
  "tidy V good t (case mustRand n (tpm_rng t) of (r, g) \<Rightarrow> (r, t\<lparr>tpm_rng := g\<rparr>))"
  by (auto simp: tidy_def mustRand_def rand_read_def rng_good_def split: prod.splits sum.splits)

lemma stays_load:
  "tpm_stays L good \<Longrightarrow> good d \<Longrightarrow> good (snd (CreatePrimary L tm d))"
  "tpm_stays L good \<Longrightarrow> good d \<Longrightarrow> good (snd (LoadKey L p pub priv d))"
  "tpm_stays L good \<Longrightarrow> good d \<Longrightarrow> good (snd (OpenTPM L path d))"
  "tpm_stays L good \<Longrightarrow> good d \<Longrightarrow> good (snd (CreateKey L p tm d))"
  by (simp_all add: tpm_stays_def)

lemma tidy_pure: "tidy V good t (r, t)"
  by simp

lemma tpm_RegisterKey_tidy:
  assumes "tpm_frame L V" "tpm_stays L good"
  shows "tidy V good t (tpm_RegisterKey L a t)"
  unfolding tpm_RegisterKey_def
  by (auto intro!: tidy_and_then tidy_calls [OF assms] tidy_close [OF assms] tidy_rand
      tidy_handle [OF assms loads_CreatePrimary [OF assms(1)] stays_load(1) [OF assms(2)]]
      tidy_handle [OF assms loads_LoadKey [OF assms(1)] stays_load(2) [OF assms(2)]] split: prod.splits)

lemma tpm_SignASN1_tidy:
  assumes "tpm_frame L V" "tpm_stays L good"
  shows "tidy V good t (tpm_SignASN1 L h a d t)"
  unfolding tpm_SignASN1_def
  by (auto intro!: tidy_and_then tidy_calls [OF assms] tidy_close [OF assms]
      tidy_handle [OF assms loads_CreatePrimary [OF assms(1)] stays_load(1) [OF assms(2)]]
      tidy_handle [OF assms loads_LoadKey [OF assms(1)] stays_load(2) [OF assms(2)]] split: prod.splits)

section \<open>Key handles\<close>

abbreviation tpm_frame_of :: "bytes \<Rightarrow> bytes" where
  "tpm_frame_of \<equiv> lenc_frame (Some separator)"

lemma key_handle_frames:
  assumes "length p \<le> 255" "length q \<le> 255" "length s \<le> 255"
  shows "key_handle p q s = tpm_frame_of p @ tpm_frame_of q @ tpm_frame_of s"
  using assms by (simp add: key_handle_def NewEncoder_def bytes_buffer_def Let_def Encode_buffer)

lemma or_err_simps [simp]:
  "or_err e (Ok a, s) = (Ok a, s)" "or_err e (Err e', s) = (Err e, s)" "or_err e (Panic m, s) = (Panic m, s)"
  by (simp_all add: or_err_def)

lemma or_err_eq_Ok: "or_err e p = (Ok a, s) \<longleftrightarrow> p = (Ok a, s)"
  by (cases p; cases "fst p") auto

lemma split_handle_frames:
  assumes "length p \<le> 255" "length q \<le> 255" "length s \<le> 255"
  shows "split_handle e1 e2 e3 (tpm_frame_of p @ tpm_frame_of q @ tpm_frame_of s @ rest) =
    (Ok (p, q, s), clean_decoder (Some separator) EOF rest)"
  using assms by (simp add: split_handle_def NewDecoder_clean Decode_frame)

lemma split_handle_Ok:
  assumes "split_handle e1 e2 e3 h = (Ok (p, q, s), d)"
  shows "\<exists>rest. length p \<le> 255 \<and> length q \<le> 255 \<and> length s \<le> 255 \<and>
    h = tpm_frame_of p @ tpm_frame_of q @ tpm_frame_of s @ rest \<and> d = clean_decoder (Some separator) EOF rest"
proof -
  from assms obtain d1 d2 where
    1: "Decode (clean_decoder (Some separator) EOF h) = (Ok p, d1)" and
    2: "Decode d1 = (Ok q, d2)" and 3: "Decode d2 = (Ok s, d)"
    by (auto simp: split_handle_def NewDecoder_clean and_then_eq_Ok or_err_eq_Ok)
  from Decode_ok_frame [OF 1] obtain r1 where r1: "length p \<le> 255" "h = tpm_frame_of p @ r1"
    "d1 = clean_decoder (Some separator) EOF r1" by blast
  from Decode_ok_frame [OF 2 [unfolded r1(3)]] obtain r2 where r2: "length q \<le> 255" "r1 = tpm_frame_of q @ r2"
    "d2 = clean_decoder (Some separator) EOF r2" by blast
  from Decode_ok_frame [OF 3 [unfolded r2(3)]] r1 r2 show ?thesis by auto
qed

lemma and_then_no_panic:
  assumes "\<not> is_panic (fst p)" "\<And>a s. p = (Ok a, s) \<Longrightarrow> \<not> is_panic (fst (k a s))"
  shows "\<not> is_panic (fst (and_then p k))"
  using assms by (cases p; cases "fst p") auto

lemma or_err_no_panic: "\<not> is_panic (fst p) \<Longrightarrow> \<not> is_panic (fst (or_err e p))"
  by (cases p; cases "fst p") auto

lemma split_handle_no_panic: "\<not> is_panic (fst (split_handle e1 e2 e3 h))"
  unfolding split_handle_def NewDecoder_clean
proof (intro and_then_no_panic or_err_no_panic Decode_no_panic)
  fix p d1
  assume "or_err e1 (Decode (clean_decoder (Some separator) EOF h)) = (Ok p, d1)"
  then obtain r1 where d1: "d1 = clean_decoder (Some separator) EOF r1"
    by (auto simp: or_err_eq_Ok dest: Decode_ok_frame)
  then show "\<not> is_panic (fst (Decode d1))" by (simp add: Decode_no_panic)
  fix q d2
  assume "or_err e2 (Decode d1) = (Ok q, d2)"
  then obtain r2 where "d2 = clean_decoder (Some separator) EOF r2"
    by (auto simp: or_err_eq_Ok d1 dest: Decode_ok_frame)
  then show "\<not> is_panic (fst (Decode d2))" by (simp add: Decode_no_panic)
qed simp

text \<open>\<^verbatim>\<open>SignASN1\<close> accepts exactly the three frames and nothing after them.\<close>

lemma parse_key_handle_frames:
  assumes "length p \<le> 255" "length q \<le> 255" "length s \<le> 255"
  shows "parse_key_handle (key_handle p q s) = Ok (p, q, s)"
  using split_handle_frames [OF assms, where rest = "[]"]
  by (simp add: parse_key_handle_def key_handle_frames [OF assms] Decode_empty)

lemma Decode_EOF_empty:
  assumes "Decode (clean_decoder sep EOF bs) = (Err EOF, d)"
  shows "bs = []"
  using assms
  by (auto simp: Decode_def DecodeInto_def readPrefix_def clean_decoder_def ReadFull_def Let_def split: if_splits)

lemma parse_key_handle_cases:
  "parse_key_handle h = Err invalidHandleErr \<or>
   (\<exists>p q s. parse_key_handle h = Ok (p, q, s) \<and> length p \<le> 255 \<and> length q \<le> 255 \<and> length s \<le> 255 \<and>
      h = key_handle p q s)"
proof -
  let ?e = invalidHandleErr
  obtain r d where s: "split_handle ?e ?e ?e h = (r, d)" by fastforce
  show ?thesis
  proof (cases r)
    case (Ok parts)
    obtain p q s where parts: "parts = (p, q, s)" by (cases parts)
    from split_handle_Ok [OF s [unfolded Ok parts]] obtain rest where
      l: "length p \<le> 255" "length q \<le> 255" "length s \<le> 255" and
      h: "h = tpm_frame_of p @ tpm_frame_of q @ tpm_frame_of s @ rest" and
      d: "d = clean_decoder (Some separator) EOF rest" by blast
    obtain x d' where x: "Decode d = (x, d')" by fastforce
    show ?thesis
    proof (cases "x = Err EOF")
      case True
      with x d have "rest = []" by (auto dest: Decode_EOF_empty)
      with h l have "h = key_handle p q s" by (simp add: key_handle_frames)
      with l show ?thesis by (simp add: parse_key_handle_frames)
    next
      case False
      with x s Ok Decode_no_panic [of "Some separator" EOF rest] show ?thesis
        by (cases x) (auto simp: parse_key_handle_def d)
    qed
  next
    case (Err e)
    with s show ?thesis
      by (auto simp: parse_key_handle_def split_handle_def and_then_def or_err_def split: res.splits prod.splits)
  next
    case (Panic m)
    with s split_handle_no_panic [of ?e ?e ?e h] show ?thesis by simp
  qed
qed

section \<open>The contract\<close>

lemma deferred_simps [simp]: "deferred f (r, t) = (r, t\<lparr>tpm_dev := f (tpm_dev t)\<rparr>)"
  by (simp add: deferred_def)

lemma calling_Ok: "f (tpm_dev t) = (Inr a, d) \<Longrightarrow> calling txt f t = (Ok a, t\<lparr>tpm_dev := d\<rparr>)"
  by (simp add: calling_def)

text \<open>\<open>returns\<close>: a computation that does not panic.\<close>

definition returns :: "'a res \<times> 's \<Rightarrow> bool" where
  "returns p \<longleftrightarrow> \<not> is_panic (fst p)"

lemma returns_pair [simp]: "returns (r, s) \<longleftrightarrow> \<not> is_panic r"
  by (simp add: returns_def)

lemma returns_and_then:
  "returns p \<Longrightarrow> (\<And>a s. p = (Ok a, s) \<Longrightarrow> returns (k a s)) \<Longrightarrow> returns (and_then p k)"
  unfolding returns_def by (rule and_then_no_panic)

lemma returns_deferred: "returns p \<Longrightarrow> returns (deferred f p)"
  by (cases p) simp

lemma returns_calling: "returns (calling txt f t)"
  by (auto simp: calling_def split: prod.splits sum.splits)

lemma calling_rng: "calling txt f t = (r, t1) \<Longrightarrow> tpm_rng t1 = tpm_rng t"
  by (auto simp: calling_def split: prod.splits sum.splits)

lemma primaryKeyTmpl_total:
  assumes "hkdf_long L"
  shows "\<exists>x y. primaryKeyTmpl L seed a = Ok (storage_template x y) \<and> length x = 32 \<and> length y = 32"
proof -
  from assms have l: "64 \<le> length (rd_data (hkdf_New L seed [] i))" for i by (simp add: hkdf_long_def)
  have l: "32 \<le> length (rd_data (hkdf_New L seed [] i))" "32 \<le> length (rd_data (hkdf_New L seed [] i)) - 32" for i
    using l [of i] by linarith+
  show ?thesis using l by (simp add: primaryKeyTmpl_def Let_def ReadFull_def) fastforce
qed

lemma primaryKeyTmpl_no_panic: "hkdf_long L \<Longrightarrow> \<not> is_panic (primaryKeyTmpl L seed a)"
  using primaryKeyTmpl_total [of L seed a] by auto

text \<open>The application parameter reaches the template through the context string alone, and with it all 64 bytes.\<close>

lemma primaryKeyTmpl_eq:
  assumes "hkdf_long L"
  shows "primaryKeyTmpl L seed a =
    (let out = take 64 (rd_data (hkdf_New L seed [] (str_bytes ''tpm-fido-application-key'' @ a)))
     in Ok (storage_template (take 32 out) (drop 32 out)))"
proof -
  let ?d = "rd_data (hkdf_New L seed [] (str_bytes ''tpm-fido-application-key'' @ a))"
  have l: "64 \<le> length ?d" using assms by (simp add: hkdf_long_def)
  then have "32 \<le> length ?d" "32 \<le> length ?d - 32" by linarith+
  moreover have "drop 32 (take 64 ?d) = take 32 (drop 32 ?d)" by (simp add: drop_take)
  ultimately show ?thesis by (simp add: primaryKeyTmpl_def Let_def ReadFull_def min_def)
qed

lemma primaryKeyTmpl_separates:
  assumes "hkdf_long L" "hkdf_collision_free L I" "length seed = 20" "a' \<noteq> a"
    and "{str_bytes ''tpm-fido-application-key'' @ a, str_bytes ''tpm-fido-application-key'' @ a'} \<subseteq> I"
  shows "primaryKeyTmpl L seed a' \<noteq> primaryKeyTmpl L seed a"
proof
  let ?out = "\<lambda>info. take 64 (rd_data (hkdf_New L seed [] info))"
  let ?i = "\<lambda>a. str_bytes ''tpm-fido-application-key'' @ a"
  assume "primaryKeyTmpl L seed a' = primaryKeyTmpl L seed a"
  then have "take 32 (?out (?i a')) = take 32 (?out (?i a))" "drop 32 (?out (?i a')) = drop 32 (?out (?i a))"
    unfolding primaryKeyTmpl_eq [OF assms(1)] storage_template_def Let_def
    by (simp_all only: res.inject Public.ext_inject ECCParams.ext_inject)
  then have "?out (?i a') = ?out (?i a)" by (metis append_take_drop_id)
  moreover have "inj_on ?out I" using assms(2,3) unfolding hkdf_collision_free_def by blast
  ultimately have "?i a' = ?i a" using assms(5) by (auto dest: inj_onD)
  with assms(4) show False by simp
qed

lemma tpm_RegisterKey_returns:
  assumes "hkdf_long L" "rng_good (tpm_rng t)"
  shows "returns (tpm_RegisterKey L a t)"
proof -
  from mustRand_good [OF assms(2)] obtain b g where m: "mustRand seedSizeBytes (tpm_rng t) = (Ok b, g)" by blast
  show ?thesis
    unfolding tpm_RegisterKey_def
    by (auto intro!: returns_and_then returns_deferred returns_calling
        simp: primaryKeyTmpl_no_panic [OF assms(1)] calling_rng m split: prod.splits)
qed

lemma tpm_SignASN1_returns:
  assumes "hkdf_long L"
  shows "returns (tpm_SignASN1 L h a d t)"
proof -
  have p: "\<not> is_panic (parse_key_handle h)" using parse_key_handle_cases [of h] by auto
  show ?thesis
    unfolding tpm_SignASN1_def
    by (auto intro!: returns_and_then returns_deferred returns_calling
        simp: p primaryKeyTmpl_no_panic [OF assms] split: prod.splits sum.splits)
qed

lemma room_few: "objs V d = Map.empty \<Longrightarrow> room V d" "objs V d = [h \<mapsto> ob] \<Longrightarrow> room V d"
  by (simp_all add: room_def)

text \<open>The invariant between calls: a working TPM with nothing loaded.\<close>

definition tpm_inv ::
  "'d TpmLib \<Rightarrow> 'd TpmView \<Rightarrow> string \<Rightarrow> ('d \<Rightarrow> bool) \<Rightarrow> (nat \<Rightarrow> nat \<Rightarrow> bytes \<Rightarrow> bytes \<Rightarrow> bool) \<Rightarrow> 'd TPM \<Rightarrow> bool" where
  "tpm_inv L V path good verify t \<longleftrightarrow>
     tpm_frame L V \<and> tpm_stays L good \<and> tpm_works L V path good verify \<and> hkdf_long L \<and>
     good (tpm_dev t) \<and> objs V (tpm_dev t) = Map.empty \<and> devicePath t = path \<and> rng_good (tpm_rng t)"

definition tpm_knows :: "'d TpmLib \<Rightarrow> 'd TpmView \<Rightarrow> 'd TPM \<Rightarrow> bytes \<Rightarrow> bytes \<Rightarrow> nat \<Rightarrow> nat \<Rightarrow> bool" where
  "tpm_knows L V t h a x y \<longleftrightarrow>
     (\<exists>priv pub seed tp. h = key_handle priv pub seed \<and> length priv \<le> 255 \<and> length pub \<le> 255 \<and> length seed = 20 \<and>
        primaryKeyTmpl L seed a = Ok tp \<and> (priv, pub, tp, x, y) \<in> made V (tpm_dev t))"

lemma tidy_grows:
  assumes "tpm_inv L V path good verify t" "tidy V good t (r, t')"
  shows "grows (tpm_inv L V path good verify) (tpm_knows L V) t t'"
  using assms by (fastforce simp: grows_def tidy_def tpm_inv_def tpm_knows_def map_le_def)

text \<open>Opening keeps everything and, on a working TPM, succeeds.\<close>

lemma tpm_open_ok:
  assumes "tpm_inv L V path good verify t"
  shows "\<exists>d. OpenTPM L (devicePath t) (tpm_dev t) = (Inr (), d) \<and> good d \<and> objs V d = Map.empty \<and>
    made V d = made V (tpm_dev t)"
proof -
  from assms have i: "tpm_frame L V" "tpm_stays L good" "tpm_works L V path good verify" "good (tpm_dev t)"
    "objs V (tpm_dev t) = Map.empty" "devicePath t = path" by (simp_all add: tpm_inv_def)
  from works_open [OF i(3,4)] obtain d where o: "OpenTPM L path (tpm_dev t) = (Inr (), d)" by blast
  from stays_load(3) [OF i(2,4), of path] o frame_open [OF i(1) o] i(5,6) show ?thesis by simp
qed

text \<open>On an open TPM with nothing loaded, the parent of a handle loads.\<close>

lemma tpm_primary_ok:
  assumes "tpm_frame L V" "tpm_stays L good" "tpm_works L V path good verify" "hkdf_long L"
    and "good d" "objs V d = Map.empty"
  shows "\<exists>x y hp d'. primaryKeyTmpl L seed a = Ok (storage_template x y) \<and> length x = 32 \<and> length y = 32 \<and>
    CreatePrimary L (storage_template x y) d = (Inr hp, d') \<and> good d' \<and>
    objs V d' = [hp \<mapsto> Primary (storage_template x y)] \<and> made V d' = made V d"
proof -
  from primaryKeyTmpl_total [OF assms(4)] obtain x y where
    tm: "primaryKeyTmpl L seed a = Ok (storage_template x y)" "length x = 32" "length y = 32" by blast
  from works_primary [OF assms(3,5) tm(2,3) room_few(1) [of V d, OF assms(6)]] obtain hp d' where
    c: "CreatePrimary L (storage_template x y) d = (Inr hp, d')" by blast
  from frame_primary [OF assms(1) c] assms(6) stays_load(1) [OF assms(2,5), of "storage_template x y"] c
  have "good d'" "objs V d' = [hp \<mapsto> Primary (storage_template x y)]" "made V d' = made V d" by simp_all
  with tm c show ?thesis by blast
qed

text \<open>And a key this TPM made loads under it, with its point.\<close>

lemma tpm_load_ok:
  assumes "tpm_frame L V" "tpm_stays L good" "tpm_works L V path good verify"
    and "good d" "objs V d = [hp \<mapsto> Primary tp]" "(priv, pub, tp, x, y) \<in> made V d"
  shows "\<exists>k d'. LoadKey L hp pub priv d = (Inr k, d') \<and> good d' \<and> objs V d' k = Some (Child x y)"
proof -
  from works_load [OF assms(3,4) _ assms(6) room_few(2) [OF assms(5)], of hp] assms(5) obtain k d' where
    l: "LoadKey L hp pub priv d = (Inr k, d')" by auto
  from frame_load [OF assms(1) l] obtain tp' x' y' where
    "(priv, pub, tp', x', y') \<in> made V d" and o: "objs V d' = (objs V d)(k \<mapsto> Child x' y')" by auto
  from works_unique [OF assms(3,4) assms(6) this(1)] have "x' = x" "y' = y" by auto
  with o l stays_load(2) [OF assms(2,4), of hp pub priv] show ?thesis by simp
qed

lemma tpm_sign_ok:
  assumes i: "tpm_inv L V path good verify t" and k: "tpm_knows L V t h a x y" and n: "length dg = 32"
  shows "\<exists>sig t'. tpm_SignASN1 L h a dg t = (Ok sig, t') \<and> verify x y dg sig"
proof -
  from i have f: "tpm_frame L V" and s: "tpm_stays L good" and w: "tpm_works L V path good verify"
    and hk: "hkdf_long L" by (simp_all add: tpm_inv_def)
  from k obtain priv pub seed tp where h: "h = key_handle priv pub seed"
    and l: "length priv \<le> 255" "length pub \<le> 255" "length seed = 20"
    and tp: "primaryKeyTmpl L seed a = Ok tp" and m: "(priv, pub, tp, x, y) \<in> made V (tpm_dev t)"
    by (auto simp: tpm_knows_def)
  from tpm_open_ok [OF i] obtain d1 where o: "OpenTPM L (devicePath t) (tpm_dev t) = (Inr (), d1)"
    and d1: "good d1" "objs V d1 = Map.empty" "made V d1 = made V (tpm_dev t)" by blast
  from tpm_primary_ok [OF f s w hk d1(1,2), of seed a] tp obtain hp d2 where
    p: "CreatePrimary L tp d1 = (Inr hp, d2)" and d2: "good d2" "objs V d2 = [hp \<mapsto> Primary tp]" "made V d2 = made V d1"
    by auto
  from tpm_load_ok [OF f s w d2(1,2)] m d1(3) d2(3) obtain key d3 where
    ld: "LoadKey L hp pub priv d2 = (Inr key, d3)" and d3: "good d3" "objs V d3 key = Some (Child x y)" by metis
  from works_sign [OF w d3 n] obtain R S d4 b where
    sg: "TpmSign L key dg (AlgECDSA, AlgSHA256) d3 = (Inr (R, S), d4)" "asn1_sig L R S = Inr b" "verify x y dg b"
    by blast
  have "parse_key_handle h = Ok (priv, pub, seed)" unfolding h using l by (simp add: parse_key_handle_frames)
  with o p ld sg tp show ?thesis by (simp add: tpm_SignASN1_def calling_def)
qed

text \<open>Registration succeeds and returns what \<open>tpm_knows\<close> asks for.\<close>

lemma tpm_register_ok:
  assumes i: "tpm_inv L V path good verify t"
  shows "\<exists>h x y t'. tpm_RegisterKey L a t = (Ok (h, x, y), t') \<and> tpm_knows L V t' h a x y"
proof -
  from i have f: "tpm_frame L V" and s: "tpm_stays L good" and w: "tpm_works L V path good verify"
    and hk: "hkdf_long L" and g: "rng_good (tpm_rng t)" by (simp_all add: tpm_inv_def)
  from tpm_open_ok [OF i] obtain d1 where o: "OpenTPM L (devicePath t) (tpm_dev t) = (Inr (), d1)"
    and d1: "good d1" "objs V d1 = Map.empty" by blast
  from mustRand_good [OF g, of seedSizeBytes] obtain seed g' where
    r: "mustRand seedSizeBytes (tpm_rng t) = (Ok seed, g')" "length seed = 20" by (auto simp: seedSizeBytes_def)
  from tpm_primary_ok [OF f s w hk d1, of seed a] obtain X Y hp d2 where
    tm: "primaryKeyTmpl L seed a = Ok (storage_template X Y)" "length X = 32" "length Y = 32"
    and p: "CreatePrimary L (storage_template X Y) d1 = (Inr hp, d2)"
    and d2: "good d2" "objs V d2 = [hp \<mapsto> Primary (storage_template X Y)]" by blast
  have hp: "objs V d2 hp = Some (Primary (storage_template X Y))" by (simp add: d2(2))
  from works_create [OF w d2(1) hp tm(2,3)] obtain priv pub d3 where
    c: "CreateKey L hp childTmpl d2 = (Inr (priv, pub), d3)" and l: "length priv \<le> 255" "length pub \<le> 255" by blast
  from frame_create [OF f c] hp obtain x y where
    m: "(priv, pub, storage_template X Y, x, y) \<in> made V d3" and o3: "objs V d3 = objs V d2" by auto
  have g3: "good d3" using stays_load(4) [OF s d2(1), of hp childTmpl] c by simp
  from tpm_load_ok [OF f s w g3 _ m] o3 d2(2) obtain k d4 where
    ld: "LoadKey L hp pub priv d3 = (Inr k, d4)" and d4: "good d4" "objs V d4 k = Some (Child x y)" by metis
  from works_read [OF w d4] obtain xr yr d5 where rd: "ReadPublic L k d4 = (Inr (xr, yr), d5)" by blast
  from frame_read [OF f rd] d4(2) have xy: "be_nat xr = x" "be_nat yr = y" and m5: "made V d5 = made V d4" by auto
  have m4: "made V d4 = made V d3" using frame_load [OF f ld] by simp
  let ?d = "CloseTPM L (FlushContext L hp (FlushContext L k d5))"
  have md: "made V ?d = made V d5" using frame_close [OF f] frame_flush [OF f] by simp
  have "tpm_RegisterKey L a t = (Ok (key_handle priv pub seed, x, y), t\<lparr>tpm_dev := ?d, tpm_rng := g'\<rparr>)"
    using o r tm(1) p c ld rd by (simp add: tpm_RegisterKey_def calling_def xy)
  moreover have "tpm_knows L V (t\<lparr>tpm_dev := ?d, tpm_rng := g'\<rparr>) (key_handle priv pub seed) a x y"
    using l r(2) tm(1) m m4 m5 md by (auto simp: tpm_knows_def)
  ultimately show ?thesis by blast
qed

lemma tpm_Derive_state: "tpm_DeriveCredRandom h t = (r, t') \<Longrightarrow> t' = t \<and> \<not> is_panic r \<and> (\<forall>b. r = Ok b \<longrightarrow> length b = 32)"
  using split_handle_no_panic [of "ErrMsg ''invalid key handle: missing private''"
      "ErrMsg ''invalid key handle: missing public''" "ErrMsg ''invalid key handle: missing seed''" h]
  by (auto simp: tpm_DeriveCredRandom_def split: prod.splits res.splits)

lemma tpm_Counter_tidy: "tidy V good t (r, snd (tpm_Counter t))"
  by (simp add: tpm_Counter_def tidy_def)

lemma tpm_RegisterKey_keeps:
  assumes i: "tpm_inv L V path good verify s" and r: "tpm_RegisterKey L a s = (p, s')"
  shows "tpm_inv L V path good verify s' \<and> (\<forall>h b x y. tpm_knows L V s h b x y \<longrightarrow> tpm_knows L V s' h b x y) \<and> \<not> is_panic p"
proof -
  have l: "tpm_frame L V" "tpm_stays L good" "hkdf_long L" "rng_good (tpm_rng s)" using i by (simp_all add: tpm_inv_def)
  from tidy_grows [OF i] tpm_RegisterKey_tidy [OF l(1,2), of s a] tpm_RegisterKey_returns [OF l(3,4), of a] r
  show ?thesis by (simp add: grows_def)
qed

lemma tpm_SignASN1_keeps:
  assumes i: "tpm_inv L V path good verify s" and r: "tpm_SignASN1 L g a d s = (q, s')"
  shows "tpm_inv L V path good verify s' \<and> (\<forall>h b x y. tpm_knows L V s h b x y \<longrightarrow> tpm_knows L V s' h b x y) \<and> \<not> is_panic q"
proof -
  have l: "tpm_frame L V" "tpm_stays L good" "hkdf_long L" using i by (simp_all add: tpm_inv_def)
  from tidy_grows [OF i] tpm_SignASN1_tidy [OF l(1,2), of s g a d] tpm_SignASN1_returns [OF l(3), of g a d s] r
  show ?thesis by (simp add: grows_def)
qed

lemma tpm_Counter_keeps:
  assumes i: "tpm_inv L V path good verify s" and c: "tpm_Counter s = (n, s')"
  shows "tpm_inv L V path good verify s' \<and> (\<forall>h b x y. tpm_knows L V s h b x y \<longrightarrow> tpm_knows L V s' h b x y)"
  using tidy_grows [OF i tpm_Counter_tidy] c by (simp add: grows_def)

lemma tpm_knows_length: "tpm_knows L V s h a x y \<Longrightarrow> length h < 65536"
  by (auto simp: tpm_knows_def key_handle_frames lenc_frame_def separator_def)

interpretation tpm: signer_contract "tpm_signer L" "tpm_inv L V path good verify" "tpm_knows L V" verify
  for L :: "'d TpmLib" and V path good verify
proof (unfold_locales, unfold tpm_signer_def Signer.simps, goal_cases)
  case (1 s a h x y s')
  then show ?case using tpm_register_ok [of L V path good verify s a] by auto
next
  case (2 s a h x y s')
  then have "tpm_knows L V s' h a x y" using tpm_register_ok [of L V path good verify s a] by auto
  then show ?case by (rule tpm_knows_length)
next
  case (3 s h a x y d)
  then show ?case by (rule tpm_sign_ok)
next
  case (4 s h r s')
  then show ?case by (auto dest: tpm_Derive_state)
next
  case (8 s g q s')
  with tpm_Derive_state [OF 8(2)] show ?case by simp
qed (fact tpm_RegisterKey_keeps tpm_SignASN1_keeps tpm_Counter_keeps)+

text \<open>The secret of a TPM credential is a function of the handle alone, the same in every state.\<close>

definition tpm_secret :: "bytes \<Rightarrow> bytes res" where
  "tpm_secret h =
     (case fst (split_handle (ErrMsg ''invalid key handle: missing private'') (ErrMsg ''invalid key handle: missing public'')
              (ErrMsg ''invalid key handle: missing seed'') h) of
        Ok (private, public, seed) \<Rightarrow> Ok (hmac_sha256 seed (str_bytes ''credential-random''))
      | Err e \<Rightarrow> Err e
      | Panic m \<Rightarrow> Panic m)"

lemma tpm_Derive_secret: "tpm_DeriveCredRandom h t = (tpm_secret h, t)"
  by (auto simp: tpm_DeriveCredRandom_def tpm_secret_def split: prod.split res.split)

interpretation tpm: stable_secret "tpm_signer L" "tpm_inv L V path good verify" "tpm_knows L V" verify "\<lambda>t. tpm_secret"
  for L :: "'d TpmLib" and V path good verify
  by unfold_locales (simp_all add: tpm_signer_def tpm_Derive_secret)

section \<open>The clock\<close>

definition clocked :: "'d TPM \<Rightarrow> 'a res \<times> 'd TPM \<Rightarrow> bool" where
  "clocked t p \<longleftrightarrow> tpm_clock (snd p) = tpm_clock t \<and> tpm_ticks (snd p) = tpm_ticks t"

lemma clocked_same [simp]: "clocked t (r, t)"
  by (simp add: clocked_def)

lemma clocked_and_then:
  assumes "clocked t p" "\<And>a t1. p = (Ok a, t1) \<Longrightarrow> clocked t1 (k a t1)"
  shows "clocked t (and_then p k)"
proof (cases p)
  case (Pair r t1)
  with assms show ?thesis by (cases r) (auto simp: clocked_def)
qed

lemma clocked_deferred: "clocked t p \<Longrightarrow> clocked t (deferred f p)"
  by (cases p) (simp add: clocked_def)

lemma clocked_calling: "clocked t (calling txt f t)"
  by (auto simp: calling_def clocked_def split: prod.splits sum.splits)

lemma clocked_rand: "clocked t (case x of (r, g) \<Rightarrow> (r, t\<lparr>tpm_rng := g\<rparr>))"
  by (simp add: clocked_def split: prod.splits)

lemmas clocked_rules = clocked_and_then clocked_deferred clocked_calling clocked_rand

lemma tpm_RegisterKey_clocked: "clocked t (tpm_RegisterKey L a t)"
  unfolding tpm_RegisterKey_def by (auto intro!: clocked_rules split: prod.splits)

lemma tpm_SignASN1_clocked: "clocked t (tpm_SignASN1 L h a d t)"
  unfolding tpm_SignASN1_def by (auto intro!: clocked_rules split: prod.splits)

lemma tpm_after_clock:
  "tpm_clock (signer_after (tpm_signer L) cs t) = tpm_clock t \<and>
   tpm_ticks (signer_after (tpm_signer L) cs t) = tpm_ticks t + length (filter ((=) CallCounter) cs)"
proof (induction cs arbitrary: t)
  case (Cons c cs)
  show ?case
  proof (cases c)
    case (CallRegister a)
    with Cons tpm_RegisterKey_clocked [of t L a] show ?thesis by (simp add: tpm_signer_def clocked_def)
  next
    case (CallSign h a d)
    with Cons tpm_SignASN1_clocked [of t L h a d] show ?thesis by (simp add: tpm_signer_def clocked_def)
  next
    case CallCounter
    with Cons show ?thesis by (simp add: tpm_signer_def tpm_Counter_def)
  next
    case (CallDerive h)
    obtain r t' where "tpm_DeriveCredRandom h t = (r, t')" by fastforce
    with tpm_Derive_state [OF this] Cons CallDerive show ?thesis by (simp add: tpm_signer_def)
  qed
qed simp

section \<open>A concrete TPM\<close>

text \<open>
  A small software TPM that keeps all the laws: handles are counted up, closing unloads everything,
  a wrapped key is the unique field of its parent's template, and all keys are the point \<open>(7, 7)\<close>.
\<close>

record soft_tpm =
  so_objs :: "nat \<Rightarrow> tpm_obj option"
  so_next :: nat
  so_made :: "(bytes \<times> bytes \<times> Public \<times> nat \<times> nat) set"

definition so_load :: "tpm_obj \<Rightarrow> soft_tpm \<Rightarrow> (gerr + nat) \<times> soft_tpm" where
  "so_load ob d =
     (if so_objs d (so_next d) = None
      then (Inr (so_next d), d\<lparr>so_objs := (so_objs d)(so_next d \<mapsto> ob), so_next := Suc (so_next d)\<rparr>)
      else (Inl (ErrMsg ''no handles''), d))"

definition so_create :: "nat \<Rightarrow> Public \<Rightarrow> soft_tpm \<Rightarrow> (gerr + bytes \<times> bytes) \<times> soft_tpm" where
  "so_create p tm d =
     (case so_objs d p of
        Some (Primary tp) \<Rightarrow>
          let x = ecc_XRaw (pub_ECC tp); y = ecc_YRaw (pub_ECC tp) in
          if tp = storage_template x y \<and> length x = 32 \<and> length y = 32
          then (Inr (x @ y, []), d\<lparr>so_made := insert (x @ y, [], tp, 7, 7) (so_made d)\<rparr>)
          else (Inl (ErrMsg ''template''), d)
      | _ \<Rightarrow> (Inl (ErrMsg ''handle''), d))"

definition so_loadkey :: "nat \<Rightarrow> bytes \<Rightarrow> bytes \<Rightarrow> soft_tpm \<Rightarrow> (gerr + nat) \<times> soft_tpm" where
  "so_loadkey p pub priv d =
     (case so_objs d p of
        Some (Primary tp) \<Rightarrow>
          if (priv, pub, tp, 7, 7) \<in> so_made d then so_load (Child 7 7) d else (Inl (ErrMsg ''integrity''), d)
      | _ \<Rightarrow> (Inl (ErrMsg ''handle''), d))"

definition soft_lib :: "soft_tpm TpmLib" where
  "soft_lib =
     \<lparr>OpenTPM = (\<lambda>path d. (Inr (), d)), CloseTPM = (\<lambda>d. d\<lparr>so_objs := Map.empty\<rparr>),
      CreatePrimary = (\<lambda>tm. so_load (Primary tm)), CreateKey = so_create, LoadKey = so_loadkey,
      ReadPublic = (\<lambda>k d. (case so_objs d k of
          Some (Child x y) \<Rightarrow> Inr (nat_bytes x, nat_bytes y) | _ \<Rightarrow> Inl (ErrMsg ''handle''), d)),
      TpmSign = (\<lambda>k dg sc d. (case so_objs d k of
          Some (Child x y) \<Rightarrow> Inr (be_nat dg, x) | _ \<Rightarrow> Inl (ErrMsg ''handle''), d)),
      FlushContext = (\<lambda>h d. d\<lparr>so_objs := (so_objs d)(h := None)\<rparr>),
      hkdf_New = (\<lambda>secret salt info. bytes_reader (secret @ salt @ info @ replicate 64 0)),
      asn1_sig = (\<lambda>r s. Inr (be_fixed 32 r @ nat_bytes s))\<rparr>"

definition soft_view :: "soft_tpm TpmView" where
  "soft_view = \<lparr>objs = so_objs, made = so_made\<rparr>"

definition so_key :: "bytes \<times> bytes \<times> Public \<times> nat \<times> nat \<Rightarrow> bool" where
  "so_key e \<longleftrightarrow> (\<exists>x y. length x = 32 \<and> length y = 32 \<and> e = (x @ y, [], storage_template x y, 7, 7))"

definition soft_good :: "soft_tpm \<Rightarrow> bool" where
  "soft_good d \<longleftrightarrow> (\<forall>h. so_next d \<le> h \<longrightarrow> so_objs d h = None) \<and> (\<forall>e \<in> so_made d. so_key e)"

definition soft_verify :: "nat \<Rightarrow> nat \<Rightarrow> bytes \<Rightarrow> bytes \<Rightarrow> bool" where
  "soft_verify x y dg sig \<longleftrightarrow> sig = be_fixed 32 (be_nat dg) @ nat_bytes x"

lemmas soft_simps = soft_lib_def soft_view_def TpmLib.simps TpmView.simps

lemma soft_frame: "tpm_frame soft_lib soft_view"
  unfolding tpm_frame_def soft_simps
  by (intro conjI allI impI)
     (auto simp: so_load_def so_create_def so_loadkey_def Let_def map_le_def split: if_splits option.splits tpm_obj.splits sum.splits, blast)

lemma so_key_template:
  "tp = storage_template (ecc_XRaw (pub_ECC tp)) (ecc_YRaw (pub_ECC tp)) \<Longrightarrow> length (ecc_XRaw (pub_ECC tp)) = 32 \<Longrightarrow>
   length (ecc_YRaw (pub_ECC tp)) = 32 \<Longrightarrow> so_key (ecc_XRaw (pub_ECC tp) @ ecc_YRaw (pub_ECC tp), [], tp, 7, 7)"
  unfolding so_key_def by blast

lemma soft_stays: "tpm_stays soft_lib soft_good"
  unfolding tpm_stays_def soft_simps
  by (intro conjI allI impI)
     (auto simp: so_load_def so_create_def so_loadkey_def soft_good_def Let_def intro: so_key_template split: option.splits tpm_obj.splits)

lemma soft_works: "tpm_works soft_lib soft_view path soft_good soft_verify"
  unfolding tpm_works_def soft_simps
proof (intro allI impI conjI)
  fix d assume g: "soft_good d"
  then have n: "so_objs d (so_next d) = None" by (simp add: soft_good_def)
  show "\<exists>d'. (Inr (), d) = (Inr (), d')" by simp
  show "\<exists>h d'. so_load (Primary (storage_template x y)) d = (Inr h, d')" for x y
    using n by (simp add: so_load_def)
  show "\<exists>priv pub d'. so_create p childTmpl d = (Inr (priv, pub), d') \<and> length priv \<le> 255 \<and> length pub \<le> 255"
    if "so_objs d p = Some (Primary (storage_template x y))" "length x = 32" "length y = 32" for p x y
    using that by (simp add: so_create_def Let_def storage_template_def)
  show "\<exists>k d'. so_loadkey p pub priv d = (Inr k, d')"
    if "so_objs d p = Some (Primary tp)" "(priv, pub, tp, x, y) \<in> so_made d" for p priv pub tp x y
    using that g n by (auto simp: so_loadkey_def so_load_def soft_good_def so_key_def)
next
  fix d k x y assume "soft_good d" "so_objs d k = Some (Child x y)"
  then show "\<exists>xr yr d'. (case so_objs d k of
      Some (Child x y) \<Rightarrow> Inr (nat_bytes x, nat_bytes y) | _ \<Rightarrow> Inl (ErrMsg ''handle''), d) = (Inr (xr, yr), d')" by simp
next
  fix d k x y and dg :: bytes assume "soft_good d" "so_objs d k = Some (Child x y)" "length dg = 32"
  then show "\<exists>R S d' b. (case so_objs d k of Some (Child x y) \<Rightarrow> Inr (be_nat dg, x) | _ \<Rightarrow> Inl (ErrMsg ''handle''), d) =
      (Inr (R, S), d') \<and> Inr (be_fixed 32 R @ nat_bytes S) = (Inr b :: gerr + bytes) \<and> soft_verify x y dg b"
    by (simp add: soft_verify_def)
next
  fix d priv pub tp x y tp' x' y'
  assume "soft_good d" "(priv, pub, tp, x, y) \<in> so_made d" "(priv, pub, tp', x', y') \<in> so_made d"
  then have "so_key (priv, pub, tp, x, y)" "so_key (priv, pub, tp', x', y')" by (auto simp: soft_good_def)
  then show "tp' = tp" "x' = x" "y' = y" by (auto simp: so_key_def)
qed

definition soft0 :: "soft_tpm TPM" where
  "soft0 = \<lparr>devicePath = ''/dev/tpmrm0'', tpm_dev = \<lparr>so_objs = Map.empty, so_next = 1, so_made = {}\<rparr>,
     tpm_rng = \<lparr>rng_byte = of_nat, rng_pos = 0, rng_fail = (\<lambda>_. False)\<rparr>,
     tpm_clock = (\<lambda>n. 1700000000 + min (int n div 2) 100), tpm_ticks = 0\<rparr>"

lemma soft0_inv: "tpm_inv soft_lib soft_view ''/dev/tpmrm0'' soft_good soft_verify soft0"
  unfolding tpm_inv_def
  by (intro conjI soft_frame soft_stays soft_works)
     (simp_all add: soft0_def hkdf_long_def soft_simps bytes_reader_def soft_good_def rng_good_def)

lemma tpm_after_tidy:
  assumes "tpm_frame L V" "tpm_stays L good"
  shows "tidy V good t (Ok (), signer_after (tpm_signer L) cs t)"
proof (induction cs arbitrary: t)
  case (Cons c cs)
  have "tidy V good t (Ok (), signer_after (tpm_signer L) [c] t)"
  proof (cases c)
    case (CallRegister a)
    with tpm_RegisterKey_tidy [OF assms, of t a] show ?thesis by (simp add: tpm_signer_def tidy_def)
  next
    case (CallSign h a d)
    with tpm_SignASN1_tidy [OF assms, of t h a d] show ?thesis by (simp add: tpm_signer_def tidy_def)
  next
    case CallCounter
    with tpm_Counter_tidy show ?thesis by (simp add: tpm_signer_def)
  next
    case (CallDerive h)
    obtain r t' where "tpm_DeriveCredRandom h t = (r, t')" by fastforce
    with tpm_Derive_state [OF this] CallDerive show ?thesis by (simp add: tpm_signer_def)
  qed
  from tidy_trans [OF this Cons.IH] show ?case by (cases c) simp_all
qed simp

lemma map_le_empty_iff: "m \<subseteq>\<^sub>m Map.empty \<longleftrightarrow> m = Map.empty"
  by (metis map_le_antisym map_le_empty map_le_refl)

text \<open>What a handle returned by registration looks like.\<close>

lemma tpm_register_knows:
  "tpm_inv L V path good verify t \<Longrightarrow> tpm_RegisterKey L a t = (Ok (h, x, y), t1) \<Longrightarrow>
     tpm_inv L V path good verify t1 \<and> tpm_knows L V t1 h a x y"
  using tpm.register_keeps [of L V path good verify t a "Ok (h, x, y)" t1]
    tpm.register_knows [of L V path good verify t a h x y t1] by (simp add: tpm_signer_def)

section \<open>Properties\<close>

text \<open>
  C9. The TPM backend frees what it loads: after any sequence of calls, each ending in any way (success, an
  error of any TPM command, or a panic), no transient object is loaded in the TPM that was
  not loaded before. Only that commands which fail load nothing, and that a flush unloads its
  handle, is asked of the TPM.
\<close>

theorem tpm_flushes:
  assumes "tpm_frame L V"
  shows "objs V (tpm_dev (signer_after (tpm_signer L) cs t)) \<subseteq>\<^sub>m objs V (tpm_dev t)"
  using tpm_after_tidy [OF assms, of "\<lambda>_. True" t cs] by (simp add: tidy_def tpm_stays_def)

lemma tpm_flushes_witness:
  "so_objs (tpm_dev (signer_after (tpm_signer soft_lib) [CallRegister [1], CallSign [] [] [], CallRegister [2]] soft0)) =
     Map.empty"
proof -
  have "objs soft_view (tpm_dev soft0) = Map.empty" "objs soft_view = so_objs" by (simp_all add: soft_view_def soft0_def)
  with tpm_flushes [OF soft_frame, of "[CallRegister [1], CallSign [] [] [], CallRegister [2]]" soft0]
  show ?thesis by (simp only: map_le_empty_iff)
qed

text \<open>
  C10. A key registered with the TPM backend signs at any later time: on a working TPM registration
  succeeds, and after any sequence of further calls \<^verbatim>\<open>SignASN1\<close> of a 32-byte digest with the
  returned handle and the same application parameter succeeds and verifies under the returned
  public key. With room for three transient objects this needs that no call leaves one behind.
\<close>

theorem tpm_sign_later:
  assumes "tpm_inv L V path good verify t" "length d = 32"
  shows "\<exists>h x y t1. tpm_RegisterKey L a t = (Ok (h, x, y), t1) \<and>
    (\<exists>sig t2. tpm_SignASN1 L h a d (signer_after (tpm_signer L) cs t1) = (Ok sig, t2) \<and> verify x y d sig)"
proof -
  from tpm_register_ok [OF assms(1)] obtain h x y t1 where r: "tpm_RegisterKey L a t = (Ok (h, x, y), t1)" by blast
  then have "RegisterKey (tpm_signer L) a t = (Ok (h, x, y), t1)" by (simp add: tpm_signer_def)
  from tpm.register_sign_later [OF assms(1) this assms(2), of cs] r show ?thesis by (auto simp: tpm_signer_def)
qed

lemma tpm_sign_later_witness:
  "\<exists>h x y t1. tpm_RegisterKey soft_lib [1] soft0 = (Ok (h, x, y), t1) \<and>
    (\<exists>sig t2. tpm_SignASN1 soft_lib h [1] (replicate 32 9)
        (signer_after (tpm_signer soft_lib) [CallRegister [2], CallSign [] [] []] t1) = (Ok sig, t2) \<and>
       soft_verify x y (replicate 32 9) sig)"
  by (rule tpm_sign_later [OF soft0_inv]) simp

text \<open>
  C11. A TPM credential is bound to its relying party: for any other application parameter
  \<^verbatim>\<open>SignASN1\<close> refuses the handle with an error, at any later time and whatever else was registered.
  Of the libraries this needs only that a key loads under no parent but the one it was made under,
  and that HKDF does not collide on the two context strings; that the application
  parameter gets into the parent's template, at registration and at signing, is the code's doing.
\<close>

theorem tpm_bound_to_rp:
  assumes "tpm_inv L V path good verify t" "tpm_RegisterKey L a t = (Ok (h, x, y), t1)" "a' \<noteq> a"
    and "hkdf_collision_free L I"
    and "{str_bytes ''tpm-fido-application-key'' @ a, str_bytes ''tpm-fido-application-key'' @ a'} \<subseteq> I"
  shows "\<exists>e t2. tpm_SignASN1 L h a' d (signer_after (tpm_signer L) cs t1) = (Err e, t2)"
proof -
  let ?t = "signer_after (tpm_signer L) cs t1"
  have "RegisterKey (tpm_signer L) a t = (Ok (h, x, y), t1)" using assms(2) by (simp add: tpm_signer_def)
  from tpm.register_known_later [OF assms(1) this, of cs]
  have i: "tpm_inv L V path good verify ?t" and k: "tpm_knows L V ?t h a x y" by auto
  from i have f: "tpm_frame L V" and s: "tpm_stays L good" and w: "tpm_works L V path good verify"
    and hk: "hkdf_long L" by (simp_all add: tpm_inv_def)
  from k obtain priv pub seed tp where h: "h = key_handle priv pub seed"
    and l: "length priv \<le> 255" "length pub \<le> 255" "length seed = 20"
    and tp: "primaryKeyTmpl L seed a = Ok tp" and m: "(priv, pub, tp, x, y) \<in> made V (tpm_dev ?t)"
    by (auto simp: tpm_knows_def)
  from tpm_open_ok [OF i] obtain d1 where o: "OpenTPM L (devicePath ?t) (tpm_dev ?t) = (Inr (), d1)"
    and d1: "good d1" "objs V d1 = Map.empty" "made V d1 = made V (tpm_dev ?t)" by blast
  from tpm_primary_ok [OF f s w hk d1(1,2), of seed a'] obtain X Y hp d2 where
    tm: "primaryKeyTmpl L seed a' = Ok (storage_template X Y)"
    and p: "CreatePrimary L (storage_template X Y) d1 = (Inr hp, d2)"
    and d2: "good d2" "objs V d2 = [hp \<mapsto> Primary (storage_template X Y)]" "made V d2 = made V d1" by blast
  have ne: "storage_template X Y \<noteq> tp"
    using primaryKeyTmpl_separates [OF hk assms(4) l(3) assms(3,5)] tp tm by auto
  have m2: "(priv, pub, tp, x, y) \<in> made V d2" using m d1(3) d2(3) by simp
  obtain r d3 where ld: "LoadKey L hp pub priv d2 = (r, d3)" by fastforce
  obtain e where "r = Inl e"
  proof (cases r)
    case (Inr k)
    with frame_load [OF f ld] obtain tp' x' y' where
      "objs V d2 hp = Some (Primary tp')" and m': "(priv, pub, tp', x', y') \<in> made V d2" by auto
    with d2(2) have "tp' = storage_template X Y" by simp
    with works_unique [OF w d2(1) m2 m'] ne show thesis by simp
  qed
  moreover have "parse_key_handle h = Ok (priv, pub, seed)" unfolding h using l by (simp add: parse_key_handle_frames)
  ultimately show ?thesis using o p ld tm by (simp add: tpm_SignASN1_def calling_def)
qed

lemma soft_collision_free: "hkdf_collision_free soft_lib (range (\<lambda>b. str_bytes ''tpm-fido-application-key'' @ [b]))"
  unfolding hkdf_collision_free_def
proof (intro allI impI inj_onI)
  fix secret i i' :: bytes
  let ?out = "\<lambda>i. take 64 (rd_data (hkdf_New soft_lib secret [] i))"
  assume l: "length secret = 20" and o: "?out i = ?out i'"
    and "i \<in> range (\<lambda>b. str_bytes ''tpm-fido-application-key'' @ [b])" "i' \<in> range (\<lambda>b. str_bytes ''tpm-fido-application-key'' @ [b])"
  then obtain b b' where i: "i = str_bytes ''tpm-fido-application-key'' @ [b]" "i' = str_bytes ''tpm-fido-application-key'' @ [b']" by auto
  have "?out (str_bytes ''tpm-fido-application-key'' @ [c]) ! 44 = c" for c
    using l by (simp add: soft_simps bytes_reader_def nth_append)
  with o i show "i = i'" by metis
qed

lemma tpm_bound_to_rp_witness:
  "\<exists>h x y t1 e t2. tpm_RegisterKey soft_lib [1] soft0 = (Ok (h, x, y), t1) \<and>
     tpm_SignASN1 soft_lib h [2] [9] (signer_after (tpm_signer soft_lib) [CallRegister [2]] t1) = (Err e, t2)"
proof -
  from tpm_register_ok [OF soft0_inv, of "[1]"] obtain h x y t1 where
    r: "tpm_RegisterKey soft_lib [1] soft0 = (Ok (h, x, y), t1)" by blast
  have "[2] \<noteq> [1 :: byte]" by simp
  from tpm_bound_to_rp [OF soft0_inv r this soft_collision_free, of "[9]" "[CallRegister [2]]"] r show ?thesis by blast
qed

text \<open>
  C13. The \<^verbatim>\<open>hmac-secret\<close> and PRF secret of a TPM credential does not depend on the TPM: it is the HMAC of
  a constant under the last 20 bytes of the credential ID, so whoever sees the credential ID (every
  relying party does) can compute it, and any other TPM, or none, gives the same value.
\<close>

theorem tpm_secret_in_handle:
  assumes "tpm_inv L V path good verify t" "tpm_RegisterKey L a t = (Ok (h, x, y), t1)"
  shows "tpm_DeriveCredRandom h other =
    (Ok (hmac_sha256 (drop (length h - 20) h) (str_bytes ''credential-random'')), other)"
proof -
  from tpm_register_knows [OF assms] obtain priv pub seed where h: "h = key_handle priv pub seed"
    and l: "length priv \<le> 255" "length pub \<le> 255" "length seed = 20" by (auto simp: tpm_knows_def)
  have "h = (tpm_frame_of priv @ tpm_frame_of pub @ separator @ [20]) @ seed"
    using l by (simp add: h key_handle_frames) (simp add: lenc_frame_def)
  then have "drop (length h - 20) h = seed" using l(3) by (simp only: length_append) simp
  with l split_handle_frames [where rest = "[]", OF l(1,2)] show ?thesis
    by (simp add: tpm_DeriveCredRandom_def h key_handle_frames)
qed

lemma tpm_secret_in_handle_witness:
  "\<exists>h x y t1. tpm_RegisterKey soft_lib [1] soft0 = (Ok (h, x, y), t1) \<and>
     tpm_DeriveCredRandom h soft0 =
       (Ok (hmac_sha256 (drop (length h - 20) h) (str_bytes ''credential-random'')), soft0)"
proof -
  from tpm_register_ok [OF soft0_inv, of "[1]"] obtain h x y t1 where
    r: "tpm_RegisterKey soft_lib [1] soft0 = (Ok (h, x, y), t1)" by blast
  from tpm_secret_in_handle [OF soft0_inv r, of soft0] r show ?thesis by blast
qed

text \<open>
  The TPM backend's counter is the clock: while the clock is between 2021 and 2157 and never goes
  back, a later counter value is never smaller, whatever happens in between, but it is larger only
  if a second has passed, so two assertions within a second carry the same counter.
\<close>

theorem tpm_counter_seconds:
  assumes "mono (tpm_clock t)" "\<forall>n. baseTime \<le> tpm_clock t n \<and> tpm_clock t n < baseTime + 2 ^ 32"
    and "tpm_Counter t = (c1, t1)" "t2 = signer_after (tpm_signer L) cs t1" "tpm_Counter t2 = (c2, t3)"
  shows "c1 \<le> c2 \<and> (c1 = c2 \<longleftrightarrow> tpm_clock t (tpm_ticks t2) = tpm_clock t (tpm_ticks t)) \<and>
    int (unat c1) = tpm_clock t (tpm_ticks t) - baseTime"
proof -
  have u: "int (unat (word_of_int (tpm_clock t n - baseTime) :: 32 word)) = tpm_clock t n - baseTime" for n
  proof -
    have "uint (word_of_int k :: 32 word) = k" if "0 \<le> k" "k < 2 ^ 32" for k
      using that by (simp add: unsigned_of_int take_bit_int_eq_self)
    from this [of "tpm_clock t n - baseTime"] assms(2) [rule_format, of n] show ?thesis
      by (simp only: uint_nat [symmetric]) simp
  qed
  have t1: "c1 = word_of_int (tpm_clock t (tpm_ticks t) - baseTime)" "t1 = t\<lparr>tpm_ticks := Suc (tpm_ticks t)\<rparr>"
    using assms(3) by (auto simp: tpm_Counter_def)
  have k: "tpm_clock t2 = tpm_clock t" "tpm_ticks t \<le> tpm_ticks t2"
    using tpm_after_clock [of L cs t1] by (simp_all add: assms(4) t1(2))
  have c2: "c2 = word_of_int (tpm_clock t (tpm_ticks t2) - baseTime)"
    using assms(5) k(1) by (auto simp: tpm_Counter_def)
  have m: "tpm_clock t (tpm_ticks t) \<le> tpm_clock t (tpm_ticks t2)" using assms(1) k(2) by (rule monoD)
  have "c1 \<le> c2 \<longleftrightarrow> int (unat c1) \<le> int (unat c2)" by (simp only: word_le_nat_alt of_nat_le_iff)
  moreover have "c1 = c2 \<longleftrightarrow> int (unat c1) = int (unat c2)" by (simp only: word_unat_eq_iff of_nat_eq_iff)
  ultimately show ?thesis using m u by (auto simp: t1(1) c2)
qed

lemma tpm_counter_seconds_witness:
  "fst (tpm_Counter soft0) = fst (tpm_Counter (snd (tpm_Counter soft0)))"
proof -
  have m: "mono (tpm_clock soft0)" by (auto simp: mono_def soft0_def min_def dest: zdiv_mono1 [of _ _ 2])
  have b: "\<forall>n. baseTime \<le> tpm_clock soft0 n \<and> tpm_clock soft0 n < baseTime + 2 ^ 32"
    by (simp add: soft0_def baseTime_def min_less_iff_disj)
  obtain c1 t1 where 1: "tpm_Counter soft0 = (c1, t1)" by fastforce
  obtain c2 t2 where 2: "tpm_Counter t1 = (c2, t2)" by fastforce
  have "t1 = signer_after (tpm_signer soft_lib) [] t1" by simp
  note c = tpm_counter_seconds [OF m b 1 this 2]
  have "tpm_ticks t1 = 1" using 1 by (auto simp: tpm_Counter_def soft0_def)
  then have "tpm_clock soft0 (tpm_ticks t1) = tpm_clock soft0 (tpm_ticks soft0)" by (simp add: soft0_def)
  with c have "c1 = c2" by blast
  with 1 2 show ?thesis by simp
qed

end
