(* ===== verification/ClientData.thy ===== *)
theory ClientData
  imports Base64 Sha256
begin

text \<open>
  \<^verbatim>\<open>webauthn/clientdata.go\<close>: the \<^verbatim>\<open>clientDataJSON\<close> the assertions and attestations sign, with the part of
  \<^verbatim>\<open>encoding/json\<close> it uses: \<^verbatim>\<open>json.Marshal\<close> of a struct of strings and a boolean, which cannot fail. Strings
  are escaped as Go 1.19 and 1.20 (the versions of the repository's CI) do, with HTML escaping.
\<close>

section \<open>JSON strings\<close>

definition quote_char :: char where "quote_char = CHR 0x22"
definition backslash :: char where "backslash = CHR 0x5C"

definition hex_char :: "nat \<Rightarrow> char" where
  "hex_char n = (if n < 10 then char_of (48 + n) else char_of (87 + n))"

definition esc_ascii :: "char \<Rightarrow> string" where
  "esc_ascii c =
     (let n = of_char c :: nat in
      if c = quote_char \<or> c = backslash then [backslash, c]
      else if n = 10 then [backslash, CHR ''n'']
      else if n = 13 then [backslash, CHR ''r'']
      else if n = 9 then [backslash, CHR ''t'']
      else if n < 32 \<or> c = CHR ''<'' \<or> c = CHR ''>'' \<or> c = CHR ''&''
      then [backslash, CHR ''u'', CHR ''0'', CHR ''0'', hex_char (n div 16), hex_char (n mod 16)]
      else [c])"

text \<open>
  The size of the UTF-8 sequence a string starts with, when it is a valid one of more than one byte.
\<close>

definition cont :: "nat \<Rightarrow> bool" where
  "cont n \<longleftrightarrow> 0x80 \<le> n \<and> n \<le> 0xBF"

definition utf8_size :: "nat list \<Rightarrow> nat option" where
  "utf8_size ns =
     (case ns of
        a # b # rest \<Rightarrow>
          if 0xC2 \<le> a \<and> a \<le> 0xDF then (if cont b then Some 2 else None)
          else if 0xE0 \<le> a \<and> a \<le> 0xEF then
            (if cont b \<and> (a = 0xE0 \<longrightarrow> 0xA0 \<le> b) \<and> (a = 0xED \<longrightarrow> b \<le> 0x9F) then
               (case rest of c # _ \<Rightarrow> if cont c then Some 3 else None | [] \<Rightarrow> None)
             else None)
          else if 0xF0 \<le> a \<and> a \<le> 0xF4 then
            (if cont b \<and> (a = 0xF0 \<longrightarrow> 0x90 \<le> b) \<and> (a = 0xF4 \<longrightarrow> b \<le> 0x8F) then
               (case rest of c # d # _ \<Rightarrow> if cont c \<and> cont d then Some 4 else None | _ \<Rightarrow> None)
             else None)
          else None
      | _ \<Rightarrow> None)"

text \<open>The line separators U+2028 and U+2029 are escaped too, invalid bytes are replaced.\<close>

function json_escape :: "string \<Rightarrow> string" where
  "json_escape [] = []"
| "json_escape (c # cs) =
     (if (of_char c :: nat) < 0x80 then esc_ascii c @ json_escape cs
      else
        (case utf8_size (map of_char (c # cs)) of
           None \<Rightarrow> backslash # ''ufffd'' @ json_escape cs
         | Some k \<Rightarrow>
             (if map of_char (take k (c # cs)) = [0xE2, 0x80, 0xA8 :: nat] then backslash # ''u2028''
              else if map of_char (take k (c # cs)) = [0xE2, 0x80, 0xA9 :: nat] then backslash # ''u2029''
              else take k (c # cs))
             @ json_escape (drop (k - 1) cs)))"
  by pat_completeness auto
termination by (relation "measure length") auto

declare json_escape.simps(2) [simp del]

definition json_quote :: "string \<Rightarrow> string" where
  "json_quote s = quote_char # json_escape s @ [quote_char]"

section \<open>The client data\<close>

definition ClientDataTypeCreate :: string where
  "ClientDataTypeCreate = ''webauthn.create''"

definition ClientDataTypeGet :: string where
  "ClientDataTypeGet = ''webauthn.get''"

record CollectedClientData =
  cd_Type :: string
  cd_Challenge :: string
  cd_Origin :: string
  cd_CrossOrigin :: bool

definition marshal_client_data :: "CollectedClientData \<Rightarrow> gerr + bytes" where
  "marshal_client_data cd =
     Inr (str_bytes (
       ''{'' @ json_quote ''type'' @ '':'' @ json_quote (cd_Type cd) @ '','' @
       json_quote ''challenge'' @ '':'' @ json_quote (cd_Challenge cd) @ '','' @
       json_quote ''origin'' @ '':'' @ json_quote (cd_Origin cd) @ '','' @
       json_quote ''crossOrigin'' @ '':'' @ (if cd_CrossOrigin cd then ''true'' else ''false'') @ ''}''))"

definition BuildClientDataJSON :: "string \<Rightarrow> bytes \<Rightarrow> string \<Rightarrow> gerr + bytes" where
  "BuildClientDataJSON typ challenge origin =
     marshal_client_data
       \<lparr>cd_Type = typ, cd_Challenge = EncodeToString challenge, cd_Origin = origin, cd_CrossOrigin = False\<rparr>"

definition ClientDataHash :: "bytes \<Rightarrow> bytes" where
  "ClientDataHash clientDataJSON = sha256 clientDataJSON"

section \<open>What a relying party reads\<close>

text \<open>
  A Go string is any sequence of bytes. \<open>valid_utf8\<close> accepts the well-formed ones, \<open>to_valid_utf8\<close> is what
  \<^verbatim>\<open>encoding/json\<close> documents it does to the others: each byte that starts no sequence becomes U+FFFD.
\<close>

definition replacement_char :: string where
  "replacement_char = map char_of [0xEF, 0xBF, 0xBD :: nat]"

function valid_utf8 :: "string \<Rightarrow> bool" where
  "valid_utf8 [] = True"
| "valid_utf8 (c # cs) =
     (if (of_char c :: nat) < 0x80 then valid_utf8 cs
      else (case utf8_size (map of_char (c # cs)) of None \<Rightarrow> False | Some k \<Rightarrow> valid_utf8 (drop (k - 1) cs)))"
  by pat_completeness auto
termination by (relation "measure length") auto

function to_valid_utf8 :: "string \<Rightarrow> string" where
  "to_valid_utf8 [] = []"
| "to_valid_utf8 (c # cs) =
     (if (of_char c :: nat) < 0x80 then c # to_valid_utf8 cs
      else
        (case utf8_size (map of_char (c # cs)) of
           None \<Rightarrow> replacement_char @ to_valid_utf8 cs
         | Some k \<Rightarrow> take k (c # cs) @ to_valid_utf8 (drop (k - 1) cs)))"
  by pat_completeness auto
termination by (relation "measure length") auto

declare valid_utf8.simps(2) [simp del] to_valid_utf8.simps(2) [simp del]

text \<open>
  A reader of JSON strings (RFC 8259) and of objects with exactly these members in this order, as
  WebAuthn's limited verification algorithm expects them. An escaped code unit becomes its UTF-8
  bytes; surrogates are rejected.
\<close>

definition hex_val :: "char \<Rightarrow> nat" where
  "hex_val c = (let n = of_char c in if n < 58 then n - 48 else if n < 71 then n - 55 else n - 87)"

definition utf8_bytes :: "nat \<Rightarrow> string option" where
  "utf8_bytes n =
     (if n < 0x80 then Some [char_of n]
      else if n < 0x800 then Some [char_of (0xC0 + n div 64), char_of (0x80 + n mod 64)]
      else if 0xD800 \<le> n \<and> n \<le> 0xDFFF then None
      else Some [char_of (0xE0 + n div 4096), char_of (0x80 + n div 64 mod 64), char_of (0x80 + n mod 64)])"

definition unescape :: "char \<Rightarrow> char" where
  "unescape e =
     (if e = CHR ''n'' then char_of (10 :: nat) else if e = CHR ''r'' then char_of (13 :: nat)
      else if e = CHR ''t'' then char_of (9 :: nat) else if e = CHR ''b'' then char_of (8 :: nat)
      else if e = CHR ''f'' then char_of (12 :: nat) else e)"

fun read_string :: "string \<Rightarrow> (string \<times> string) option" where
  "read_string (c # cs) =
     (if c = quote_char then Some ([], cs)
      else if c = backslash then
        (case cs of
           e # cs1 \<Rightarrow>
             if e = CHR ''u'' then
               (case cs1 of
                  p # q # x # y # cs2 \<Rightarrow>
                    (case utf8_bytes (((hex_val p * 16 + hex_val q) * 16 + hex_val x) * 16 + hex_val y) of
                       Some u \<Rightarrow> map_option (\<lambda>(s, r). (u @ s, r)) (read_string cs2)
                     | None \<Rightarrow> None)
                | _ \<Rightarrow> None)
             else map_option (\<lambda>(s, r). (unescape e # s, r)) (read_string cs1)
         | [] \<Rightarrow> None)
      else map_option (\<lambda>(s, r). (c # s, r)) (read_string cs))"
| "read_string [] = None"

definition expect :: "string \<Rightarrow> string \<Rightarrow> string option" where
  "expect lit s = (if take (length lit) s = lit then Some (drop (length lit) s) else None)"

definition read_client_data :: "string \<Rightarrow> CollectedClientData option" where
  "read_client_data s =
     Option.bind (expect (''{'' @ json_quote ''type'' @ '':'' @ [quote_char]) s) (\<lambda>s1.
     Option.bind (read_string s1) (\<lambda>(typ, s2).
     Option.bind (expect ('','' @ json_quote ''challenge'' @ '':'' @ [quote_char]) s2) (\<lambda>s3.
     Option.bind (read_string s3) (\<lambda>(challenge, s4).
     Option.bind (expect ('','' @ json_quote ''origin'' @ '':'' @ [quote_char]) s4) (\<lambda>s5.
     Option.bind (read_string s5) (\<lambda>(origin, s6).
     Option.bind (expect ('','' @ json_quote ''crossOrigin'' @ '':'') s6) (\<lambda>s7.
       if s7 = ''false}'' then
         Some \<lparr>cd_Type = typ, cd_Challenge = challenge, cd_Origin = origin, cd_CrossOrigin = False\<rparr>
       else if s7 = ''true}'' then
         Some \<lparr>cd_Type = typ, cd_Challenge = challenge, cd_Origin = origin, cd_CrossOrigin = True\<rparr>
       else None)))))))"

text \<open>ASCII strings are valid.\<close>

definition ascii :: "string \<Rightarrow> bool" where
  "ascii s \<longleftrightarrow> (\<forall>c \<in> set s. (of_char c :: nat) < 128)"

lemma ascii_valid [intro]: "ascii s \<Longrightarrow> valid_utf8 s"
  by (induction s) (simp_all add: ascii_def valid_utf8.simps(2))

lemma to_valid_utf8_valid: "valid_utf8 s \<Longrightarrow> to_valid_utf8 s = s"
proof (induction s rule: valid_utf8.induct)
  case (2 c cs)
  show ?case
  proof (cases "(of_char c :: nat) < 0x80")
    case True
    with 2 show ?thesis by (simp add: valid_utf8.simps(2) to_valid_utf8.simps(2))
  next
    case False
    with 2(3) obtain k where k: "utf8_size (map of_char (c # cs)) = Some k" "valid_utf8 (drop (k - 1) cs)"
      by (auto simp: valid_utf8.simps(2) split: option.splits)
    then have "take k (c # cs) = c # take (k - 1) cs" by (cases k) (auto simp: utf8_size_def split: list.splits if_splits)
    with False k 2(2) [OF False k] show ?thesis by (simp add: to_valid_utf8.simps(2))
  qed
qed simp

lemma expect_append [simp]: "expect lit (lit @ s) = Some s"
  by (simp add: expect_def)

lemma hex_val_char: "n < 16 \<Longrightarrow> hex_val (hex_char n) = n"
  by (simp add: hex_val_def hex_char_def Let_def)

lemma char_of_code: "(of_char c :: nat) = n \<Longrightarrow> c = char_of n"
  by (metis char_of_char)

lemma read_esc:
  assumes "(of_char c :: nat) < 128" "read_string rest = Some (s, r)"
  shows "read_string (esc_ascii c @ rest) = Some (c # s, r)"
proof -
  have h: "hex_val (hex_char (of_char c div 16)) * 16 + hex_val (hex_char (of_char c mod 16)) = of_char c"
    using assms(1) by (simp add: hex_val_char)
  have z: "hex_val CHR ''0'' = 0" by (simp add: hex_val_def)
  show ?thesis
    using assms h z
    by (auto simp: esc_ascii_def Let_def quote_char_def backslash_def utf8_bytes_def unescape_def dest: char_of_code)
qed

text \<open>A sequence \<open>utf8_size\<close> recognises is at least two bytes, none of which is ASCII.\<close>

lemma utf8_size_high:
  assumes "utf8_size (map of_char s) = Some k"
  shows "2 \<le> k \<and> (\<forall>c \<in> set (take k s). 0x80 \<le> (of_char c :: nat))"
  using assms by (auto simp: utf8_size_def cont_def split: list.splits if_splits)

lemma read_high:
  "\<forall>c \<in> set hs. 0x80 \<le> (of_char c :: nat) \<Longrightarrow> read_string rest = Some (s, r) \<Longrightarrow> read_string (hs @ rest) = Some (hs @ s, r)"
  by (induction hs) (auto simp: quote_char_def backslash_def)

text \<open>The three escapes of non-ASCII characters read back as the bytes they stand for.\<close>

lemma read_u:
  assumes "read_string rest = Some (s, r)"
  shows "read_string (backslash # ''ufffd'' @ rest) = Some (replacement_char @ s, r)"
    and "read_string (backslash # ''u2028'' @ rest) = Some (map char_of [0xE2, 0x80, 0xA8 :: nat] @ s, r)"
    and "read_string (backslash # ''u2029'' @ rest) = Some (map char_of [0xE2, 0x80, 0xA9 :: nat] @ s, r)"
  using assms by (simp_all add: backslash_def quote_char_def hex_val_def utf8_bytes_def replacement_char_def)

lemma map_of_char_eq: "map of_char s = (ns :: nat list) \<Longrightarrow> s = map char_of ns"
  by (auto simp: comp_def)

lemma read_json_escape: "read_string (json_escape s @ quote_char # rest) = Some (to_valid_utf8 s, rest)"
proof (induction s rule: json_escape.induct)
  case 1
  then show ?case by simp
next
  case (2 c cs)
  show ?case
  proof (cases "(of_char c :: nat) < 0x80")
    case True
    with 2(1) read_esc [of c] show ?thesis by (simp add: json_escape.simps(2) to_valid_utf8.simps(2))
  next
    case f: False
    show ?thesis
    proof (cases "utf8_size (map of_char (c # cs))")
      case None
      with f 2(2) read_u(1) show ?thesis by (simp add: json_escape.simps(2) to_valid_utf8.simps(2) del: list.map)
    next
      case (Some k)
      let ?h = "take k (c # cs)" and ?rest = "json_escape (drop (k - 1) cs) @ quote_char # rest"
      have ih: "read_string ?rest = Some (to_valid_utf8 (drop (k - 1) cs), rest)" by (rule 2(3) [OF f Some])
      have e: "json_escape (c # cs) @ quote_char # rest =
          (if map of_char ?h = [0xE2, 0x80, 0xA8 :: nat] then backslash # ''u2028''
           else if map of_char ?h = [0xE2, 0x80, 0xA9 :: nat] then backslash # ''u2029'' else ?h) @ ?rest"
        unfolding json_escape.simps(2) using f Some by simp
      have "read_string (json_escape (c # cs) @ quote_char # rest) = Some (?h @ to_valid_utf8 (drop (k - 1) cs), rest)"
        unfolding e using read_u(2,3) [OF ih] read_high [OF conjunct2 [OF utf8_size_high [OF Some]] ih]
        by (auto dest!: map_of_char_eq)
      then show ?thesis unfolding to_valid_utf8.simps(2) using f Some by simp
    qed
  qed
qed

lemma ascii_base64: "ascii (EncodeToString b)"
proof -
  have "(of_char (b64_char i) :: nat) < 128" if "i < 64" for i using that by (auto simp: of_char_b64_char)
  with sextets_small [of b] show ?thesis by (auto simp: ascii_def EncodeToString_def)
qed

lemma read_client_data_marshal:
  assumes "valid_utf8 (cd_Type cd)" "valid_utf8 (cd_Challenge cd)" "marshal_client_data cd = Inr (str_bytes s)"
  shows "read_client_data s = Some (cd\<lparr>cd_Origin := to_valid_utf8 (cd_Origin cd)\<rparr>)"
proof -
  let ?T = "''{'' @ json_quote ''type'' @ '':'' @ [quote_char]"
  let ?C = "'','' @ json_quote ''challenge'' @ '':'' @ [quote_char]"
  let ?O = "'','' @ json_quote ''origin'' @ '':'' @ [quote_char]"
  let ?X = "'','' @ json_quote ''crossOrigin'' @ '':''"
  let ?tail = "(if cd_CrossOrigin cd then ''true'' else ''false'') @ ''}''"
  from assms(3) have s: "s = ?T @ json_escape (cd_Type cd) @ quote_char # (?C @ json_escape (cd_Challenge cd) @
      quote_char # (?O @ json_escape (cd_Origin cd) @ quote_char # (?X @ ?tail)))"
    by (simp only: marshal_client_data_def sum.inject str_bytes_inject json_quote_def append_assoc append_Cons append_Nil)
  show ?thesis
    unfolding read_client_data_def s
    by (simp only: expect_append read_json_escape to_valid_utf8_valid [OF assms(1)] to_valid_utf8_valid [OF assms(2)]
        Option.bind.bind_lunit case_prod_conv) simp
qed

section \<open>Properties\<close>

text \<open>
  C30. The signed client data can be read back, whatever bytes the challenge and the origin are: a relying
  party reading the JSON finds exactly the operation, the base64url challenge that decodes to the
  challenge, \<^verbatim>\<open>crossOrigin\<close> false, and as origin the origin itself when it is valid UTF-8 (also one with
  quotes, backslashes, control characters, HTML or line separators), and otherwise the origin with
  each invalid byte replaced by U+FFFD. So no valid origin can pass for another valid one, and none can
  smuggle in a member.
\<close>

theorem clientdata_roundtrip:
  assumes "typ \<in> {ClientDataTypeCreate, ClientDataTypeGet}"
  shows "\<exists>s. BuildClientDataJSON typ challenge origin = Inr (str_bytes s) \<and>
    (\<exists>cd. read_client_data s = Some cd \<and> cd_Type cd = typ \<and> DecodeString (cd_Challenge cd) = Some challenge \<and>
       cd_Origin cd = to_valid_utf8 origin \<and> (valid_utf8 origin \<longrightarrow> cd_Origin cd = origin) \<and> \<not> cd_CrossOrigin cd)"
proof -
  let ?cd = "\<lparr>cd_Type = typ, cd_Challenge = EncodeToString challenge, cd_Origin = origin, cd_CrossOrigin = False\<rparr>"
  from assms have a: "ascii (cd_Type ?cd)" "ascii (cd_Challenge ?cd)"
    by (auto simp: ascii_base64) (simp_all add: ascii_def ClientDataTypeCreate_def ClientDataTypeGet_def)
  obtain s where s: "marshal_client_data ?cd = Inr (str_bytes s)" by (simp add: marshal_client_data_def)
  from read_client_data_marshal [OF ascii_valid [OF a(1)] ascii_valid [OF a(2)] s] s show ?thesis
    by (auto simp: BuildClientDataJSON_def to_valid_utf8_valid)
qed

text \<open>An origin with HTML, a quote, U+00E9, U+2028 and a stray byte.\<close>

definition odd_origin :: string where
  "odd_origin = ''a&b'' @ map char_of [0x22, 0xC3, 0xA9, 0xE2, 0x80, 0xA8, 0xFF :: nat]"

lemma clientdata_roundtrip_witness:
  "\<exists>s cd. BuildClientDataJSON ''webauthn.get'' [1, 2, 3] odd_origin = Inr (str_bytes s) \<and>
     read_client_data s = Some cd \<and> DecodeString (cd_Challenge cd) = Some [1, 2, 3] \<and>
     cd_Origin cd = ''a&b'' @ map char_of [0x22, 0xC3, 0xA9, 0xE2, 0x80, 0xA8, 0xEF, 0xBF, 0xBD :: nat]"
proof -
  have "''webauthn.get'' \<in> {ClientDataTypeCreate, ClientDataTypeGet}" by (simp add: ClientDataTypeGet_def)
  moreover have "to_valid_utf8 odd_origin = ''a&b'' @ map char_of [0x22, 0xC3, 0xA9, 0xE2, 0x80, 0xA8, 0xEF, 0xBF, 0xBD :: nat]"
    by (simp add: odd_origin_def to_valid_utf8.simps(2) utf8_size_def cont_def replacement_char_def)
  ultimately show ?thesis using clientdata_roundtrip [of "''webauthn.get''" "[1, 2, 3]" odd_origin] by metis
qed

end
