(* ===== verification/WebTypes.thy ===== *)
theory WebTypes
  imports Prelude
begin

text \<open>
  \<^verbatim>\<open>webauthn/types.go\<close>, \<^verbatim>\<open>webauthn/errors.go\<close> and \<^verbatim>\<open>nativemsg/types.go\<close>: the requests and responses exchanged
  with the browser extension and the mapping of errors to DOMException names. A Go pointer is an
  \<open>option\<close>, a possibly nil map an optional association list, \<^verbatim>\<open>interface{}\<close> a datatype of the values it
  is given.
\<close>

section \<open>Requests\<close>

record RequestEnvelope =
  env_Type :: string
  env_RequestID :: string
  env_Origin :: string
  env_Options :: bytes

record RelyingParty =
  rel_ID :: string
  rel_Name :: string

record User =
  us_ID :: string
  us_Name :: string
  us_DisplayName :: string

record PubKeyCredParam =
  pk_Type :: string
  pk_Alg :: int

record CredentialDescriptor =
  de_Type :: string
  de_ID :: string

record AuthenticatorSelection =
  se_AuthenticatorAttachment :: string
  se_ResidentKey :: string
  se_UserVerification :: string

record PRFEval =
  ev_First :: string
  ev_Second :: string

record PRFExtension =
  prf_Eval :: "PRFEval option"
  prf_EvalByCredential :: "(string \<times> PRFEval option) list option"

record CreateExtensions =
  ce_PRF :: "PRFExtension option"

record GetExtensions =
  ge_PRF :: "PRFExtension option"

record CreateOptions =
  co_Challenge :: string
  co_RP :: RelyingParty
  co_User :: User
  co_PubKeyCredParams :: "PubKeyCredParam list"
  co_Timeout :: int
  co_ExcludeCredentials :: "CredentialDescriptor list"
  co_AuthenticatorSelection :: "AuthenticatorSelection option"
  co_Extensions :: "CreateExtensions option"

record GetOptions =
  go_Challenge :: string
  go_RPID :: string
  go_Timeout :: int
  go_AllowCredentials :: "CredentialDescriptor list"
  go_UserVerification :: string
  go_Extensions :: "GetExtensions option"

section \<open>Responses\<close>

record PRFOutputs =
  po_First :: string
  po_Second :: string

record PRFResult =
  pres_Enabled :: bool
  pres_Results :: "PRFOutputs option"

record ClientExtensionResults =
  cx_PRF :: "PRFResult option"

record AttestationResponse =
  ar_ClientDataJSON :: string
  ar_AttestationObject :: string
  ar_Transports :: "string list"

record AssertionResponse =
  sr_ClientDataJSON :: string
  sr_AuthenticatorData :: string
  sr_Signature :: string
  sr_UserHandle :: "string option"

datatype auth_response = Attestation AttestationResponse | Assertion AssertionResponse

record Credential =
  cr_ID :: string
  cr_RawID :: string
  cr_Type :: string
  cr_AuthenticatorAttachment :: string
  cr_Response :: auth_response
  cr_ClientExtensionResults :: ClientExtensionResults

record CreateResponse =
  cre_Type :: string
  cre_RequestID :: string
  cre_Success :: bool
  cre_Credential :: "Credential option"

record GetResponse =
  get_Type :: string
  get_RequestID :: string
  get_Success :: bool
  get_Credential :: "Credential option"

record WebAuthnError =
  we_Name :: string
  we_Message :: string

record ErrorResponse =
  er_Type :: string
  er_RequestID :: string
  er_Success :: bool
  er_Error :: WebAuthnError

text \<open>What \<^verbatim>\<open>HandleRequest\<close> returns.\<close>

datatype web_reply = ErrorReply ErrorResponse | CreateReply CreateResponse | GetReply GetResponse

section \<open>Errors\<close>

definition ErrNameNotAllowed :: string where "ErrNameNotAllowed = ''NotAllowedError''"
definition ErrNameInvalidState :: string where "ErrNameInvalidState = ''InvalidStateError''"
definition ErrNameTypeError :: string where "ErrNameTypeError = ''TypeError''"
definition ErrNameUnknown :: string where "ErrNameUnknown = ''UnknownError''"

definition NewErrorResponse :: "string \<Rightarrow> string \<Rightarrow> string \<Rightarrow> string \<Rightarrow> ErrorResponse" where
  "NewErrorResponse reqType requestID name message =
     \<lparr>er_Type = reqType, er_RequestID = requestID, er_Success = False,
      er_Error = \<lparr>we_Name = name, we_Message = message\<rparr>\<rparr>"

definition MapErrorToResponse :: "string \<Rightarrow> string \<Rightarrow> gerr \<Rightarrow> ErrorResponse" where
  "MapErrorToResponse reqType requestID err =
     (case
        (if errors_Is err (WebAuthnErr W_ErrUserDenied) then (ErrNameNotAllowed, ''User denied the request'')
         else if errors_Is err (WebAuthnErr W_ErrTimeout) then (ErrNameNotAllowed, ''Operation timed out'')
         else if errors_Is err (WebAuthnErr W_ErrNoCredentials) then (ErrNameNotAllowed, ''No credentials found'')
         else if errors_Is err (WebAuthnErr W_ErrCredentialExcluded)
         then (ErrNameInvalidState, ''Credential already registered'')
         else if errors_Is err (WebAuthnErr W_ErrInvalidParameters) then (ErrNameTypeError, ''Invalid parameters'')
         else if errors_Is err (WebAuthnErr W_ErrUnsupportedAlgorithm) then (ErrNameTypeError, ''Unsupported algorithm'')
         else if errors_Is err (WebAuthnErr W_ErrInvalidPRFSalt) then (ErrNameTypeError, ''Invalid PRF salt'')
         else if errors_Is err (WebAuthnErr W_ErrPRFComputationFailed) then (ErrNameUnknown, ''PRF computation failed'')
         else (ErrNameUnknown, err_text err)) of
        (name, message) \<Rightarrow> NewErrorResponse reqType requestID name message)"

end
