(* ===== verification/WebAuthn.thy ===== *)
theory WebAuthn
  imports GetAssertion ClientData WebTypes
begin

text \<open>
  \<^verbatim>\<open>webauthn/handler.go\<close>: the handler behind the native messaging loop. It owns nothing but the CTAP2
  handler, so its state is that handler's. Decoding of JSON into the request structures
  (\<^verbatim>\<open>json.Unmarshal\<close>) is the argument \<open>WebJson\<close>; the time-outs of the requests only matter for when the
  wait for the user ends, which the environment of \<open>ask_presence\<close> decides.
\<close>

record WebJson =
  wj_envelope :: "bytes \<Rightarrow> gerr + RequestEnvelope"
  wj_create :: "bytes \<Rightarrow> gerr + CreateOptions"
  wj_get :: "bytes \<Rightarrow> gerr + GetOptions"

definition hashPRFSalt :: "bytes \<Rightarrow> bytes" where
  "hashPRFSalt salt = sha256 (str_bytes ''WebAuthn PRF'' @ [0x00] @ salt)"

section \<open>PRF\<close>

definition computePRFResult ::
  "'s Env \<Rightarrow> bytes \<Rightarrow> PRFEval option \<Rightarrow> 's Handler \<Rightarrow> PRFResult option res \<times> 's Handler" where
  "computePRFResult E credentialID prfEval h =
     (case prfEval of
        None \<Rightarrow> (Ok None, h)
      | Some ev \<Rightarrow>
          (case DecodeString (ev_First ev) of
             None \<Rightarrow> (Err (WebAuthnErr W_ErrInvalidPRFSalt), h)
           | Some rawSalt1 \<Rightarrow>
               let salt1 = hashPRFSalt rawSalt1 in
               and_then (if ev_Second ev \<noteq> [] then
                           (case DecodeString (ev_Second ev) of
                              None \<Rightarrow> (Err (WebAuthnErr W_ErrInvalidPRFSalt), h)
                            | Some rawSalt2 \<Rightarrow> (Ok (hashPRFSalt rawSalt2), h))
                         else (Ok [], h)) (\<lambda>salt2 h1.
                 (case ComputePRF E credentialID salt1 salt2 h1 of
                    (Err e, h2) \<Rightarrow> (Err (WebAuthnErr W_ErrPRFComputationFailed), h2)
                  | (Panic m, h2) \<Rightarrow> (Panic m, h2)
                  | (Ok (output1, output2), h2) \<Rightarrow>
                      (Ok (Some \<lparr>pres_Enabled = False,
                                 pres_Results =
                                   Some \<lparr>po_First = EncodeToString output1,
                                         po_Second = (if output2 \<noteq> [] then EncodeToString output2 else [])\<rparr>\<rparr>), h2)))))"

section \<open>Shared steps\<close>

definition error_reply :: "string \<Rightarrow> string \<Rightarrow> string \<Rightarrow> string \<Rightarrow> web_reply res" where
  "error_reply reqType requestID name message = Ok (ErrorReply (NewErrorResponse reqType requestID name message))"

definition mapped_error :: "string \<Rightarrow> string \<Rightarrow> gerr \<Rightarrow> web_reply res" where
  "mapped_error reqType requestID err = Ok (ErrorReply (MapErrorToResponse reqType requestID err))"

text \<open>\<^verbatim>\<open>if err != nil { return MapErrorToResponse(..., f(err)) }\<close>\<close>

definition or_mapped ::
  "string \<Rightarrow> string \<Rightarrow> (gerr \<Rightarrow> gerr) \<Rightarrow> 'a res \<times> 'h \<Rightarrow> ('a \<Rightarrow> 'h \<Rightarrow> web_reply res \<times> 'h) \<Rightarrow> web_reply res \<times> 'h" where
  "or_mapped reqType requestID f p k =
     (case p of
        (Ok a, h) \<Rightarrow> k a h
      | (Err e, h) \<Rightarrow> (mapped_error reqType requestID (f e), h)
      | (Panic m, h) \<Rightarrow> (Panic m, h))"

lemma or_mapped_simps [simp, outcome_simps]:
  "or_mapped t i f (Ok a, h) k = k a h"
  "or_mapped t i f (Err e, h) k = (mapped_error t i (f e), h)"
  "or_mapped t i f (Panic m, h) k = (Panic m, h)"
  by (simp_all add: or_mapped_def)

text \<open>Asking the user and waiting, then \<open>k\<close>; the same in both handlers.\<close>

definition confirm_user ::
  "string \<Rightarrow> string \<Rightarrow> string \<Rightarrow> bytes \<Rightarrow> bytes \<Rightarrow> 's Handler \<Rightarrow>
   ('s Handler \<Rightarrow> web_reply res \<times> 's Handler) \<Rightarrow> web_reply res \<times> 's Handler" where
  "confirm_user reqType requestID prompt challengeParam appParam h k =
     (case ask_presence prompt challengeParam appParam (h_presence h) of
        (answer, P) \<Rightarrow>
          let h1 = h\<lparr>h_presence := P\<rparr> in
          (case answer of
             AskError e \<Rightarrow> (mapped_error reqType requestID (WebAuthnErr W_ErrUserDenied), h1)
           | NoAnswer \<Rightarrow> (mapped_error reqType requestID (WebAuthnErr W_ErrTimeout), h1)
           | Answer result \<Rightarrow>
               if \<not> res_OK result then
                 (if map_option err_text (res_Error result) = Some ''fingerprint verification timed out''
                  then (mapped_error reqType requestID (WebAuthnErr W_ErrTimeout), h1)
                  else (mapped_error reqType requestID (WebAuthnErr W_ErrUserDenied), h1))
               else k h1))"

text \<open>Credential IDs that do not decode are skipped.\<close>

fun decode_ids :: "CredentialDescriptor list \<Rightarrow> bytes list" where
  "decode_ids [] = []"
| "decode_ids (cred # creds) =
     (case DecodeString (de_ID cred) of None \<Rightarrow> decode_ids creds | Some credID \<Rightarrow> credID # decode_ids creds)"

section \<open>Create\<close>

definition create_params :: "CreateOptions \<Rightarrow> bytes \<Rightarrow> bytes \<Rightarrow> MakeCredentialParams" where
  "create_params options clientDataHash userID =
     \<lparr>mp_ClientDataHash = clientDataHash, mp_RPID = rel_ID (co_RP options), mp_RPName = rel_Name (co_RP options),
      mp_UserID = userID, mp_UserName = us_Name (co_User options),
      mp_UserDisplayName = us_DisplayName (co_User options),
      mp_ResidentKey =
        (case co_AuthenticatorSelection options of
           None \<Rightarrow> False
         | Some sel \<Rightarrow> se_ResidentKey sel = ''required'' \<or> se_ResidentKey sel = ''preferred''),
      mp_HmacSecret =
        (case co_Extensions options of None \<Rightarrow> False | Some ext \<Rightarrow> ce_PRF ext \<noteq> None),
      mp_ExcludeList = decode_ids (co_ExcludeCredentials options)\<rparr>"

definition create_prf_eval :: "CreateOptions \<Rightarrow> PRFEval option" where
  "create_prf_eval options =
     Option.bind (co_Extensions options) (\<lambda>ext. Option.bind (ce_PRF ext) prf_Eval)"

definition create_response :: "string \<Rightarrow> bytes \<Rightarrow> MakeCredentialResult \<Rightarrow> PRFResult option \<Rightarrow> CreateResponse" where
  "create_response requestID clientDataJSON result prfResult =
     \<lparr>cre_Type = ''create'', cre_RequestID = requestID, cre_Success = True,
      cre_Credential = Some
        \<lparr>cr_ID = EncodeToString (mk_CredentialID result), cr_RawID = EncodeToString (mk_CredentialID result),
         cr_Type = ''public-key'', cr_AuthenticatorAttachment = ''platform'',
         cr_Response = Attestation
           \<lparr>ar_ClientDataJSON = EncodeToString clientDataJSON,
            ar_AttestationObject = EncodeToString (mk_AttestationObject result),
            ar_Transports = [''internal'']\<rparr>,
         cr_ClientExtensionResults = \<lparr>cx_PRF = prfResult\<rparr>\<rparr>\<rparr>"

text \<open>After the user confirmed.\<close>

definition create_confirmed ::
  "'s Env \<Rightarrow> string \<Rightarrow> CreateOptions \<Rightarrow> bytes \<Rightarrow> bytes \<Rightarrow> 's Handler \<Rightarrow> web_reply res \<times> 's Handler" where
  "create_confirmed E requestID options clientDataJSON userID h =
     (let params = create_params options (ClientDataHash clientDataJSON) userID in
      or_mapped ''create'' requestID
        (\<lambda>err. if errors_Is err (Ctap2Err C_ErrCredentialExcluded) then WebAuthnErr W_ErrCredentialExcluded else err)
        (MakeCredentialDirect E params h) (\<lambda>result h1.
          or_mapped ''create'' requestID id
            (if mp_HmacSecret params then
               and_then (computePRFResult E (mk_CredentialID result) (create_prf_eval options) h1)
                 (\<lambda>prfResult h2. (Ok (map_option (\<lambda>r. r\<lparr>pres_Enabled := True\<rparr>) prfResult), h2))
             else (Ok None, h1)) (\<lambda>prfResult h2.
               (Ok (CreateReply (create_response requestID clientDataJSON result prfResult)), h2))))"

definition handleCreate ::
  "'s Env \<Rightarrow> WebJson \<Rightarrow> string \<Rightarrow> string \<Rightarrow> bytes \<Rightarrow> 's Handler \<Rightarrow> web_reply res \<times> 's Handler" where
  "handleCreate E J requestID origin optionsRaw h =
     (case wj_create J optionsRaw of
        Inl e \<Rightarrow> (error_reply ''create'' requestID ErrNameTypeError ''Invalid create options'', h)
      | Inr options \<Rightarrow>
          (case DecodeString (co_Challenge options) of
             None \<Rightarrow> (error_reply ''create'' requestID ErrNameTypeError ''Invalid challenge encoding'', h)
           | Some challenge \<Rightarrow>
               (case DecodeString (us_ID (co_User options)) of
                  None \<Rightarrow> (error_reply ''create'' requestID ErrNameTypeError ''Invalid user ID encoding'', h)
                | Some userID \<Rightarrow>
                    if \<not> list_ex (\<lambda>p. pk_Type p = ''public-key'' \<and> pk_Alg p = -7) (co_PubKeyCredParams options)
                    then (error_reply ''create'' requestID ErrNameTypeError ''ES256 algorithm required'', h)
                    else
                      (case BuildClientDataJSON ClientDataTypeCreate challenge origin of
                         Inl e \<Rightarrow> (error_reply ''create'' requestID ErrNameUnknown ''Failed to build client data'', h)
                       | Inr clientDataJSON \<Rightarrow>
                           confirm_user ''create'' requestID (''Register with '' @ rel_Name (co_RP options))
                             (ClientDataHash clientDataJSON) (HashRPID (rel_ID (co_RP options))) h
                             (create_confirmed E requestID options clientDataJSON userID)))))"

section \<open>Get\<close>

text \<open>
  Which PRF input applies. A JSON \<^verbatim>\<open>null\<close> among the values of \<^verbatim>\<open>evalByCredential\<close> is a nil pointer, which
  \<^verbatim>\<open>eval.First\<close> dereferences.
\<close>

definition select_prf_eval :: "GetOptions \<Rightarrow> bytes list \<Rightarrow> bytes \<Rightarrow> PRFEval option res" where
  "select_prf_eval options allowCredentials credentialID =
     (case Option.bind (go_Extensions options) ge_PRF of
        None \<Rightarrow> Ok None
      | Some prf \<Rightarrow>
          (case prf_EvalByCredential prf of
             Some evals \<Rightarrow>
               if length allowCredentials = 0 then Err (WebAuthnErr W_ErrInvalidParameters)
               else
                 (case map_of evals (EncodeToString credentialID) of
                    None \<Rightarrow> Ok None
                  | Some None \<Rightarrow> Panic ''nil pointer dereference''
                  | Some (Some eval) \<Rightarrow> Ok (Some eval))
           | None \<Rightarrow> Ok (prf_Eval prf)))"

definition get_response :: "string \<Rightarrow> bytes \<Rightarrow> GetAssertionResult \<Rightarrow> PRFResult option \<Rightarrow> GetResponse" where
  "get_response requestID clientDataJSON result prfResult =
     \<lparr>get_Type = ''get'', get_RequestID = requestID, get_Success = True,
      get_Credential = Some
        \<lparr>cr_ID = EncodeToString (gs_CredentialID result), cr_RawID = EncodeToString (gs_CredentialID result),
         cr_Type = ''public-key'', cr_AuthenticatorAttachment = ''platform'',
         cr_Response = Assertion
           \<lparr>sr_ClientDataJSON = EncodeToString clientDataJSON,
            sr_AuthenticatorData = EncodeToString (gs_AuthenticatorData result),
            sr_Signature = EncodeToString (gs_Signature result),
            sr_UserHandle = (if 0 < length (gs_UserHandle result)
                             then Some (EncodeToString (gs_UserHandle result)) else None)\<rparr>,
         cr_ClientExtensionResults = \<lparr>cx_PRF = prfResult\<rparr>\<rparr>\<rparr>"

definition get_confirmed ::
  "'s Env \<Rightarrow> string \<Rightarrow> GetOptions \<Rightarrow> bytes \<Rightarrow> 's Handler \<Rightarrow> web_reply res \<times> 's Handler" where
  "get_confirmed E requestID options clientDataJSON h =
     (let allowCredentials = decode_ids (go_AllowCredentials options);
          params = \<lparr>gp_ClientDataHash = ClientDataHash clientDataJSON, gp_RPID = go_RPID options,
                    gp_AllowCredentials = allowCredentials, gp_HmacSecretInput = None\<rparr>
      in or_mapped ''get'' requestID
           (\<lambda>err. if errors_Is err (Ctap2Err C_ErrNoCredentials) then WebAuthnErr W_ErrNoCredentials else err)
           (GetAssertionDirect E params h) (\<lambda>result h1.
             or_mapped ''get'' requestID id
               (select_prf_eval options allowCredentials (gs_CredentialID result), h1) (\<lambda>prfEval h2.
                 or_mapped ''get'' requestID id (computePRFResult E (gs_CredentialID result) prfEval h2) (\<lambda>prfResult h3.
                   (Ok (GetReply (get_response requestID clientDataJSON result prfResult)), h3)))))"

definition handleGet ::
  "'s Env \<Rightarrow> WebJson \<Rightarrow> string \<Rightarrow> string \<Rightarrow> bytes \<Rightarrow> 's Handler \<Rightarrow> web_reply res \<times> 's Handler" where
  "handleGet E J requestID origin optionsRaw h =
     (case wj_get J optionsRaw of
        Inl e \<Rightarrow> (error_reply ''get'' requestID ErrNameTypeError ''Invalid get options'', h)
      | Inr options \<Rightarrow>
          (case DecodeString (go_Challenge options) of
             None \<Rightarrow> (error_reply ''get'' requestID ErrNameTypeError ''Invalid challenge encoding'', h)
           | Some challenge \<Rightarrow>
               (case BuildClientDataJSON ClientDataTypeGet challenge origin of
                  Inl e \<Rightarrow> (error_reply ''get'' requestID ErrNameUnknown ''Failed to build client data'', h)
                | Inr clientDataJSON \<Rightarrow>
                    confirm_user ''get'' requestID (''Sign in to '' @ go_RPID options)
                      (ClientDataHash clientDataJSON) (HashRPID (go_RPID options)) h
                      (get_confirmed E requestID options clientDataJSON))))"

section \<open>Dispatch\<close>

definition HandleRequest ::
  "'s Env \<Rightarrow> WebJson \<Rightarrow> bytes \<Rightarrow> 's Handler \<Rightarrow> web_reply res \<times> 's Handler" where
  "HandleRequest E J msg h =
     (case wj_envelope J msg of
        Inl e \<Rightarrow> (error_reply [] [] ErrNameTypeError ''Invalid request format'', h)
      | Inr envelope \<Rightarrow>
          if env_Type envelope = ''create''
          then handleCreate E J (env_RequestID envelope) (env_Origin envelope) (env_Options envelope) h
          else if env_Type envelope = ''get''
          then handleGet E J (env_RequestID envelope) (env_Origin envelope) (env_Options envelope) h
          else (error_reply (env_Type envelope) (env_RequestID envelope) ErrNameTypeError ''Unknown request type'', h))"

section \<open>What a successful request went through\<close>

lemma error_reply_neq [simp]:
  "error_reply t i n m \<noteq> Ok (CreateReply c)" "error_reply t i n m \<noteq> Ok (GetReply g)"
  "mapped_error t i e \<noteq> Ok (CreateReply c)" "mapped_error t i e \<noteq> Ok (GetReply g)"
  "error_reply t i n m \<noteq> Panic s" "mapped_error t i e \<noteq> Panic s"
  by (simp_all add: error_reply_def mapped_error_def)

lemma or_mapped_eq_Create:
  "or_mapped t i f p k = (Ok (CreateReply c), h') \<longleftrightarrow> (\<exists>a h. p = (Ok a, h) \<and> k a h = (Ok (CreateReply c), h'))"
  by (cases p; cases "fst p") auto

lemma or_mapped_eq_Get:
  "or_mapped t i f p k = (Ok (GetReply g), h') \<longleftrightarrow> (\<exists>a h. p = (Ok a, h) \<and> k a h = (Ok (GetReply g), h'))"
  by (cases p; cases "fst p") auto

lemma confirm_user_yes:
  "ask_presence prompt cdh rph (h_presence h) = (Answer r, P) \<Longrightarrow> res_OK r \<Longrightarrow>
   confirm_user t i prompt cdh rph h k = k (h\<lparr>h_presence := P\<rparr>)"
  by (simp add: confirm_user_def)

lemma confirm_user_cases:
  "(\<exists>r P. ask_presence prompt cdh rph (h_presence h) = (Answer r, P) \<and> res_OK r \<and>
      confirm_user t i prompt cdh rph h k = k (h\<lparr>h_presence := P\<rparr>)) \<or>
   (\<exists>e P. confirm_user t i prompt cdh rph h k = (mapped_error t i e, h\<lparr>h_presence := P\<rparr>) \<and>
      e \<in> {WebAuthnErr W_ErrUserDenied, WebAuthnErr W_ErrTimeout})"
proof -
  obtain a P where "ask_presence prompt cdh rph (h_presence h) = (a, P)" by fastforce
  then show ?thesis
  proof (cases a)
    case (Answer r)
    with \<open>ask_presence prompt cdh rph (h_presence h) = (a, P)\<close> show ?thesis
      by (cases "res_OK r"; cases "map_option err_text (res_Error r) = Some ''fingerprint verification timed out''")
         (simp_all add: confirm_user_def Let_def, blast+)
  qed (simp_all add: confirm_user_def Let_def, blast+)
qed

lemma confirm_user_success:
  assumes "confirm_user t i prompt cdh rph h k = (x, h')" "\<And>e. x \<noteq> mapped_error t i e"
  shows "\<exists>r P. ask_presence prompt cdh rph (h_presence h) = (Answer r, P) \<and> res_OK r \<and>
    k (h\<lparr>h_presence := P\<rparr>) = (x, h')"
  using confirm_user_cases [of prompt cdh rph h t i k] assms by (elim disjE exE conjE) (metis prod.inject)+

lemma handleCreate_stages:
  assumes "handleCreate E J i origin raw h = (Ok (CreateReply resp), h')"
  obtains options challenge userID cdj r P result h1 pr where
    "wj_create J raw = Inr options" "DecodeString (co_Challenge options) = Some challenge"
    "DecodeString (us_ID (co_User options)) = Some userID"
    "BuildClientDataJSON ClientDataTypeCreate challenge origin = Inr cdj"
    "ask_presence (''Register with '' @ rel_Name (co_RP options)) (ClientDataHash cdj)
       (HashRPID (rel_ID (co_RP options))) (h_presence h) = (Answer r, P)" "res_OK r"
    "MakeCredentialDirect E (create_params options (ClientDataHash cdj) userID) (h\<lparr>h_presence := P\<rparr>) = (Ok result, h1)"
    "(if mp_HmacSecret (create_params options (ClientDataHash cdj) userID) then
        and_then (computePRFResult E (mk_CredentialID result) (create_prf_eval options) h1)
          (\<lambda>prfResult h2. (Ok (map_option (\<lambda>r. r\<lparr>pres_Enabled := True\<rparr>) prfResult), h2))
      else (Ok None, h1)) = (Ok pr, h')"
    "resp = create_response i cdj result pr"
proof -
  from assms obtain options where o: "wj_create J raw = Inr options"
    by (auto simp: handleCreate_def split: sum.splits)
  from assms o obtain challenge where c: "DecodeString (co_Challenge options) = Some challenge"
    by (auto simp: handleCreate_def split: option.splits)
  from assms o c obtain userID where u: "DecodeString (us_ID (co_User options)) = Some userID"
    by (auto simp: handleCreate_def split: option.splits)
  obtain cdj where b: "BuildClientDataJSON ClientDataTypeCreate challenge origin = Inr cdj"
    by (simp add: BuildClientDataJSON_def marshal_client_data_def)
  from assms have k: "confirm_user ''create'' i (''Register with '' @ rel_Name (co_RP options))
      (ClientDataHash cdj) (HashRPID (rel_ID (co_RP options))) h (create_confirmed E i options cdj userID) =
      (Ok (CreateReply resp), h')"
    by (simp add: handleCreate_def o c u b split: if_splits)
  have "Ok (CreateReply resp) \<noteq> mapped_error ''create'' i e" for e by (simp add: mapped_error_def)
  from confirm_user_success [OF k this] obtain r P where p: "ask_presence (''Register with '' @ rel_Name (co_RP options)) (ClientDataHash cdj)
       (HashRPID (rel_ID (co_RP options))) (h_presence h) = (Answer r, P)" "res_OK r"
    and cc: "create_confirmed E i options cdj userID (h\<lparr>h_presence := P\<rparr>) = (Ok (CreateReply resp), h')"
    by blast
  from cc obtain result h1 pr where
    m: "MakeCredentialDirect E (create_params options (ClientDataHash cdj) userID) (h\<lparr>h_presence := P\<rparr>) = (Ok result, h1)"
    and q: "(if mp_HmacSecret (create_params options (ClientDataHash cdj) userID) then
        and_then (computePRFResult E (mk_CredentialID result) (create_prf_eval options) h1)
          (\<lambda>prfResult h2. (Ok (map_option (\<lambda>r. r\<lparr>pres_Enabled := True\<rparr>) prfResult), h2))
      else (Ok None, h1)) = (Ok pr, h')" and r: "resp = create_response i cdj result pr"
    unfolding create_confirmed_def Let_def or_mapped_eq_Create by auto
  show thesis by (rule that [OF o c u b p m q r])
qed

text \<open>Conversely, these stages succeed together.\<close>

lemma create_succeeds:
  assumes "wj_create J raw = Inr options" "DecodeString (co_Challenge options) = Some challenge"
    and "DecodeString (us_ID (co_User options)) = Some userID"
    and "list_ex (\<lambda>p. pk_Type p = ''public-key'' \<and> pk_Alg p = -7) (co_PubKeyCredParams options)"
    and "BuildClientDataJSON ClientDataTypeCreate challenge origin = Inr cdj"
    and "ask_presence (''Register with '' @ rel_Name (co_RP options)) (ClientDataHash cdj)
           (HashRPID (rel_ID (co_RP options))) (h_presence h) = (Answer r, P)" "res_OK r"
    and m: "MakeCredentialDirect E (create_params options (ClientDataHash cdj) userID) (h\<lparr>h_presence := P\<rparr>) = (Ok result, h1)"
    and q: "(if mp_HmacSecret (create_params options (ClientDataHash cdj) userID) then
        and_then (computePRFResult E (mk_CredentialID result) (create_prf_eval options) h1)
          (\<lambda>prfResult h2. (Ok (map_option (\<lambda>r. r\<lparr>pres_Enabled := True\<rparr>) prfResult), h2))
      else (Ok None, h1)) = (Ok pr, h')"
  shows "handleCreate E J i origin raw h = (Ok (CreateReply (create_response i cdj result pr)), h')"
proof -
  have c: "create_confirmed E i options cdj userID (h\<lparr>h_presence := P\<rparr>) =
      (Ok (CreateReply (create_response i cdj result pr)), h')"
    unfolding create_confirmed_def Let_def m or_mapped_simps q ..
  show ?thesis
    by (simp only: handleCreate_def assms(1-5) sum.case option.case not_True_eq_False if_False
        confirm_user_yes [OF assms(6,7)] c)
qed

lemma handleGet_stages:
  assumes "handleGet E J i origin raw h = (Ok (GetReply resp), h')"
  obtains options challenge cdj r P result h1 ev pr where
    "wj_get J raw = Inr options" "DecodeString (go_Challenge options) = Some challenge"
    "BuildClientDataJSON ClientDataTypeGet challenge origin = Inr cdj"
    "ask_presence (''Sign in to '' @ go_RPID options) (ClientDataHash cdj)
       (HashRPID (go_RPID options)) (h_presence h) = (Answer r, P)" "res_OK r"
    "GetAssertionDirect E \<lparr>gp_ClientDataHash = ClientDataHash cdj, gp_RPID = go_RPID options,
       gp_AllowCredentials = decode_ids (go_AllowCredentials options), gp_HmacSecretInput = None\<rparr>
       (h\<lparr>h_presence := P\<rparr>) = (Ok result, h1)"
    "select_prf_eval options (decode_ids (go_AllowCredentials options)) (gs_CredentialID result) = Ok ev"
    "computePRFResult E (gs_CredentialID result) ev h1 = (Ok pr, h')"
    "resp = get_response i cdj result pr"
proof -
  from assms obtain options where o: "wj_get J raw = Inr options"
    by (auto simp: handleGet_def split: sum.splits)
  from assms o obtain challenge where c: "DecodeString (go_Challenge options) = Some challenge"
    by (auto simp: handleGet_def split: option.splits)
  obtain cdj where b: "BuildClientDataJSON ClientDataTypeGet challenge origin = Inr cdj"
    by (simp add: BuildClientDataJSON_def marshal_client_data_def)
  from assms have k: "confirm_user ''get'' i (''Sign in to '' @ go_RPID options)
      (ClientDataHash cdj) (HashRPID (go_RPID options)) h (get_confirmed E i options cdj) = (Ok (GetReply resp), h')"
    by (simp add: handleGet_def o c b)
  have "Ok (GetReply resp) \<noteq> mapped_error ''get'' i e" for e by (simp add: mapped_error_def)
  from confirm_user_success [OF k this] obtain r P where p: "ask_presence (''Sign in to '' @ go_RPID options) (ClientDataHash cdj)
       (HashRPID (go_RPID options)) (h_presence h) = (Answer r, P)" "res_OK r"
    and cc: "get_confirmed E i options cdj (h\<lparr>h_presence := P\<rparr>) = (Ok (GetReply resp), h')"
    by blast
  from cc obtain result h1 ev pr where
    m: "GetAssertionDirect E \<lparr>gp_ClientDataHash = ClientDataHash cdj, gp_RPID = go_RPID options,
       gp_AllowCredentials = decode_ids (go_AllowCredentials options), gp_HmacSecretInput = None\<rparr>
       (h\<lparr>h_presence := P\<rparr>) = (Ok result, h1)"
    and s: "select_prf_eval options (decode_ids (go_AllowCredentials options)) (gs_CredentialID result) = Ok ev"
    and q: "computePRFResult E (gs_CredentialID result) ev h1 = (Ok pr, h')"
    and r: "resp = get_response i cdj result pr"
    unfolding get_confirmed_def Let_def or_mapped_eq_Get by auto
  show thesis by (rule that [OF o c b p m s q r])
qed

section \<open>The relying party\<close>

text \<open>
  What a relying party takes from a registration: the credential ID and, from the attested credential
  data inside the attestation object, the COSE key \<open>(x, y)\<close>. And the verification of an assertion
  (WebAuthn, section 7.2): type, challenge and origin of the client data, RP id hash and flags of the
  authenticator data, signature.
\<close>

definition rp_registered :: "Cbor \<Rightarrow> string \<Rightarrow> CreateResponse \<Rightarrow> bytes \<Rightarrow> nat \<Rightarrow> nat \<Rightarrow> bool" where
  "rp_registered C rpid resp credID x y \<longleftrightarrow>
     (\<exists>c ar obj ad sig pa aaguid cose rest.
        cre_Credential resp = Some c \<and> cr_Response c = Attestation ar \<and> DecodeString (cr_ID c) = Some credID \<and>
        DecodeString (ar_AttestationObject ar) = Some obj \<and>
        ctapMarshal C (InVal (attestation_object ad sig)) = Inr obj \<and>
        parse_auth ad = Some pa \<and> pa_rpIdHash pa = HashRPID rpid \<and> pa_credential pa = Some (aaguid, credID) \<and>
        BuildCOSEPublicKeyES256 C x y = Inr cose \<and> pa_rest pa = cose @ rest)"

definition rp_accepts ::
  "(nat \<Rightarrow> nat \<Rightarrow> bytes \<Rightarrow> bytes \<Rightarrow> bool) \<Rightarrow> nat \<Rightarrow> nat \<Rightarrow> string \<Rightarrow> bytes \<Rightarrow> string \<Rightarrow> GetResponse \<Rightarrow> bool" where
  "rp_accepts verify x y rpid challenge origin resp \<longleftrightarrow>
     (\<exists>c sr s cd ad sig.
        get_Credential resp = Some c \<and> cr_Response c = Assertion sr \<and>
        DecodeString (sr_ClientDataJSON sr) = Some (str_bytes s) \<and> read_client_data s = Some cd \<and>
        cd_Type cd = ''webauthn.get'' \<and> DecodeString (cd_Challenge cd) = Some challenge \<and> cd_Origin cd = origin \<and>
        DecodeString (sr_AuthenticatorData sr) = Some ad \<and> DecodeString (sr_Signature sr) = Some sig \<and>
        good_assertion verify x y (HashRPID rpid) (sha256 (str_bytes s)) ad sig)"

text \<open>PRF computations only call the signer.\<close>

lemma computePRFResult_state:
  "computePRFResult E c ev h = (r, h') \<Longrightarrow> h' = h \<or> (\<exists>q. cred_random E c h = (q, h'))"
  by (auto simp: computePRFResult_def ComputePRF_def and_then_def Let_def
      split: option.splits if_splits prod.splits res.splits)

lemma create_prf_state:
  assumes "(if b then and_then (computePRFResult E c ev h) (\<lambda>r h2. (Ok (f r), h2)) else (Ok None, h)) = (Ok pr, h')"
  shows "h' = h \<or> (\<exists>q. cred_random E c h = (q, h'))"
  using assms computePRFResult_state [of E c ev h] by (auto simp: and_then_eq_Ok split: if_splits)

lemma create_params_sel [simp]:
  "mp_RPID (create_params o1 cdh u) = rel_ID (co_RP o1)" "mp_ClientDataHash (create_params o1 cdh u) = cdh"
  by (simp_all add: create_params_def)

text \<open>The result of a PRF computation is determined by the secret of the credential.\<close>

lemma computePRFResult_secret:
  assumes "computePRFResult E c (Some ev) h = (Ok r, h')" "cred_random E c h = (q, g)" "cred_random E c h2 = (q, g2)"
    and "computePRFResult E c (Some ev) h2 = (Ok r2, h3)"
  shows "r2 = r \<and> (\<exists>outp. r = Some \<lparr>pres_Enabled = False, pres_Results = Some outp\<rparr>)"
  using assms
  by (cases q; cases "DecodeString (ev_First ev)"; cases "DecodeString (ev_Second ev)"; cases "ev_Second ev = []")
     (auto simp: computePRFResult_def ComputePRF_def Let_def)

lemma decode_ids_one: "DecodeString (de_ID d) = Some c \<Longrightarrow> decode_ids [d] = [c]"
  by simp

context signer_contract
begin

lemma create_registers:
  assumes "e_signer E = S" "inv (h_signer h)" "ec_ok (e_crypto E)" "rng_good (h_rng h)" "length (h_aaguid h) = 16"
    and "handleCreate E J i origin raw h = (Ok (CreateReply resp), h')" "wj_create J raw = Inr options"
  shows "\<exists>credID x y. rp_registered (e_cbor E) (rel_ID (co_RP options)) resp credID x y \<and>
    knows (h_signer h') credID (HashRPID (rel_ID (co_RP options))) x y \<and> grows inv knows (h_signer h) (h_signer h')"
  using assms(6)
proof (cases rule: handleCreate_stages)
  case (1 op challenge userID cdj r P result h1 pr)
  let ?h = "h\<lparr>h_presence := P\<rparr>" and ?rpid = "rel_ID (co_RP options)"
  have op: "op = options" using 1(1) assms(7) by simp
  from direct_registers [OF assms(1) _ 1(7)] assms(2)
  have g: "grows inv knows (h_signer h) (h_signer h1)"
    and k: "knows (h_signer h1) (mk_CredentialID result) (HashRPID ?rpid) (mk_PublicKeyX result) (mk_PublicKeyY result)"
    and l: "length (mk_CredentialID result) < 65536" by (simp_all add: op)
  from g have i: "inv (h_signer h1)" by (simp add: grows_def)
  from create_prf_state [OF 1(8)] cred_random_grows [OF assms(1) i] i
  have g2: "grows inv knows (h_signer h1) (h_signer h')" by auto
  from direct_auth_data [OF 1(7) assms(3)] assms(4,5) l
  obtain cose n sig where
    c: "BuildCOSEPublicKeyES256 (e_cbor E) (mk_PublicKeyX result) (mk_PublicKeyY result) = Inr cose" and
    pa: "parse_auth (mk_AuthData result) = Some \<lparr>pa_rpIdHash = HashRPID ?rpid,
        pa_flags = (if mp_HmacSecret (create_params op (ClientDataHash cdj) userID) then 0xC5 else 0x45),
        pa_signCount = n, pa_credential = Some (h_aaguid h, mk_CredentialID result),
        pa_rest = cose @ hmac_secret_ext (e_cbor E) (mp_HmacSecret (create_params op (ClientDataHash cdj) userID))\<rparr>" and
    ob: "ctapMarshal (e_cbor E) (InVal (attestation_object (mk_AuthData result) sig)) = Inr (mk_AttestationObject result)"
    by (auto simp: op)
  have "rp_registered (e_cbor E) ?rpid resp (mk_CredentialID result) (mk_PublicKeyX result) (mk_PublicKeyY result)"
    unfolding rp_registered_def 1(9) using c pa ob by (fastforce simp: create_response_def)
  moreover have "knows (h_signer h') (mk_CredentialID result) (HashRPID ?rpid) (mk_PublicKeyX result) (mk_PublicKeyY result)"
    using k g2 by (simp add: grows_def)
  moreover have "grows inv knows (h_signer h) (h_signer h')" using g g2 by (rule grows_trans)
  ultimately show ?thesis by blast
qed

lemma get_accepted:
  assumes "e_signer E = S" "inv (h_signer h)" "knows (h_signer h) credID (HashRPID (go_RPID options)) x y"
    and "wj_get J raw = Inr options" "DecodeString (go_Challenge options) = Some challenge" "valid_utf8 origin"
    and "decode_ids (go_AllowCredentials options) = [credID]" "go_Extensions options = None"
    and "BuildClientDataJSON ClientDataTypeGet challenge origin = Inr cdj"
    and "ask_presence (''Sign in to '' @ go_RPID options) (ClientDataHash cdj) (HashRPID (go_RPID options))
           (h_presence h) = (Answer r, P)" "res_OK r"
  shows "\<exists>resp h'. handleGet E J i origin raw h = (Ok (GetReply resp), h') \<and>
    rp_accepts verify x y (go_RPID options) challenge origin resp"
proof -
  let ?p = "\<lparr>gp_ClientDataHash = ClientDataHash cdj, gp_RPID = go_RPID options,
       gp_AllowCredentials = [credID], gp_HmacSecretInput = None\<rparr>"
  let ?cd = "\<lparr>cd_Type = ClientDataTypeGet, cd_Challenge = EncodeToString challenge, cd_Origin = origin, cd_CrossOrigin = False\<rparr>"
  have "inv (h_signer (h\<lparr>h_presence := P\<rparr>))" using assms(2) by simp
  from direct_signs [OF assms(1) this, of ?p credID x y] assms(3) obtain as h1 where
    d: "GetAssertionDirect E ?p (h\<lparr>h_presence := P\<rparr>) = (Ok as, h1)" and
    g: "good_assertion verify x y (HashRPID (go_RPID options)) (ClientDataHash cdj) (gs_AuthenticatorData as) (gs_Signature as)"
    by (auto simp: ClientDataHash_def)
  have k: "get_confirmed E i options cdj (h\<lparr>h_presence := P\<rparr>) = (Ok (GetReply (get_response i cdj as None)), h1)"
    by (simp add: get_confirmed_def Let_def assms(7,8) d select_prf_eval_def computePRFResult_def)
  have h: "handleGet E J i origin raw h = (Ok (GetReply (get_response i cdj as None)), h1)"
    by (simp only: handleGet_def assms(4,5,9) sum.case option.case confirm_user_yes [OF assms(10,11)] k)
  from assms(9) obtain s where s: "cdj = str_bytes s" and m: "marshal_client_data ?cd = Inr (str_bytes s)"
    by (auto simp: BuildClientDataJSON_def marshal_client_data_def)
  have a: "ascii (cd_Type ?cd)" "ascii (cd_Challenge ?cd)" by (simp add: ascii_def ClientDataTypeGet_def, simp add: ascii_base64)
  from read_client_data_marshal [OF ascii_valid [OF a(1)] ascii_valid [OF a(2)] m] to_valid_utf8_valid [OF assms(6)]
  have "read_client_data s = Some ?cd" by simp
  then have "rp_accepts verify x y (go_RPID options) challenge origin (get_response i cdj as None)"
    unfolding rp_accepts_def using g
    by (auto simp: get_response_def s ClientDataTypeGet_def ClientDataHash_def)
  with h show ?thesis by blast
qed

end

section \<open>Properties\<close>

text \<open>
  C1. Register, then log in, from the relying party's point of view. On any backend that keeps
  the contract: after a successful create request, and after any further calls on the backend,
  a get request for the same relying party that allows the created credential, which the user
  confirms, succeeds, and the relying party's verification procedure accepts the response under the public
  key it took from the attestation object: the client data it decodes has the right type, its
  challenge and its origin, and the signature over it and over authenticator data
  for this relying party, with UP and UV set, is valid.
\<close>

theorem web_register_then_login:
  assumes "signer_contract (e_signer E) ok knows verify" "ok (h_signer h)" "ec_ok (e_crypto E)" "rng_good (h_rng h)"
    and "length (h_aaguid h) = 16"
    and "handleCreate E J i1 origin1 raw1 h = (Ok (CreateReply created), h1)" "wj_create J raw1 = Inr copts"
    and "h_signer h2 = signer_after (e_signer E) calls (h_signer h1)"
    and "wj_get J raw2 = Inr gopts" "go_RPID gopts = rel_ID (co_RP copts)"
    and "go_AllowCredentials gopts = [d]" "cre_Credential created = Some c" "de_ID d = cr_ID c" "go_Extensions gopts = None"
    and "DecodeString (go_Challenge gopts) = Some challenge" "valid_utf8 origin2"
    and "BuildClientDataJSON ClientDataTypeGet challenge origin2 = Inr cdj"
    and "ask_presence (''Sign in to '' @ go_RPID gopts) (ClientDataHash cdj) (HashRPID (go_RPID gopts))
           (h_presence h2) = (Answer r, P)" "res_OK r"
  shows "\<exists>credID x y resp h3. rp_registered (e_cbor E) (go_RPID gopts) created credID x y \<and>
    handleGet E J i2 origin2 raw2 h2 = (Ok (GetReply resp), h3) \<and>
    rp_accepts verify x y (go_RPID gopts) challenge origin2 resp"
proof -
  from signer_contract.create_registers [OF assms(1) refl assms(2-7)] obtain credID x y where
    reg: "rp_registered (e_cbor E) (go_RPID gopts) created credID x y"
    and k: "knows (h_signer h1) credID (HashRPID (go_RPID gopts)) x y"
    and g: "grows ok knows (h_signer h) (h_signer h1)" by (auto simp: assms(10))
  from g have "ok (h_signer h1)" by (simp add: grows_def)
  from signer_contract.after_keeps [OF assms(1) this, of calls] k assms(8)
  have k2: "ok (h_signer h2)" "knows (h_signer h2) credID (HashRPID (go_RPID gopts)) x y" by simp_all
  from reg assms(12,13) have "DecodeString (de_ID d) = Some credID" by (auto simp: rp_registered_def)
  then have ids: "decode_ids (go_AllowCredentials gopts) = [credID]" by (simp add: assms(11))
  from signer_contract.get_accepted [OF assms(1) refl k2 assms(9,15,16) ids assms(14,17-19)] reg show ?thesis by blast
qed

lemma ask_yes:
  "\<exists>P. ask_presence prompt cdh rph (presence0 [(Received yes, True)]) = (Answer yes, P)"
  by (simp add: ask_presence_def ConfirmPresence_def Let_def presence0_def next_wait_def cleared_by_now_def)

definition copts0 :: CreateOptions where
  "copts0 = \<lparr>co_Challenge = [], co_RP = \<lparr>rel_ID = ''a.org'', rel_Name = ''A''\<rparr>,
     co_User = \<lparr>us_ID = [], us_Name = ''u'', us_DisplayName = ''U''\<rparr>,
     co_PubKeyCredParams = [\<lparr>pk_Type = ''public-key'', pk_Alg = -257\<rparr>, \<lparr>pk_Type = ''public-key'', pk_Alg = -7\<rparr>],
     co_Timeout = 0, co_ExcludeCredentials = [], co_AuthenticatorSelection = None,
     co_Extensions = Some \<lparr>ce_PRF = Some \<lparr>prf_Eval = Some \<lparr>ev_First = [], ev_Second = []\<rparr>, prf_EvalByCredential = None\<rparr>\<rparr>\<rparr>"

definition gopts0 :: "string \<Rightarrow> GetExtensions option \<Rightarrow> GetOptions" where
  "gopts0 ident ext = \<lparr>go_Challenge = EncodeToString [1, 2], go_RPID = ''a.org'', go_Timeout = 0,
     go_AllowCredentials = [\<lparr>de_Type = ''public-key'', de_ID = ident\<rparr>], go_UserVerification = [], go_Extensions = ext\<rparr>"

definition json0 :: "GetOptions \<Rightarrow> WebJson" where
  "json0 go = \<lparr>wj_envelope = (\<lambda>b. if b = [] then Inl (ErrMsg ''json'')
       else Inr \<lparr>env_Type = ''get'', env_RequestID = ''7'', env_Origin = ''https://a.org'', env_Options = []\<rparr>),
     wj_create = (\<lambda>_. Inr copts0), wj_get = (\<lambda>_. Inr go)\<rparr>"

abbreviation asked :: "Mem Handler" where
  "asked \<equiv> handler0\<lparr>h_presence := presence0 [(Received yes, True)]\<rparr>"

lemma mem_computes:
  assumes "e_signer E = mem_signer K"
  shows "ComputePRF E c s1 s2 h = (Ok (hmac_sha256 (hmac_sha256 (masterPrivateKey (h_signer h)) c) s1,
     if 0 < length s2 then hmac_sha256 (hmac_sha256 (masterPrivateKey (h_signer h)) c) s2 else []), h)"
  by (simp add: ComputePRF_def cred_random_def assms mem_signer_def mem_DeriveCredRandom_def)

lemma create0:
  "\<exists>resp h1. handleCreate env0 (json0 go) ''7'' ''https://a.org'' [] asked = (Ok (CreateReply resp), h1)"
proof -
  obtain cdj where b: "BuildClientDataJSON ClientDataTypeCreate [] ''https://a.org'' = Inr cdj"
    by (simp add: BuildClientDataJSON_def marshal_client_data_def)
  obtain P where P: "ask_presence (''Register with '' @ rel_Name (co_RP copts0)) (ClientDataHash cdj)
      (HashRPID (rel_ID (co_RP copts0))) (h_presence asked) = (Answer yes, P)"
    using ask_yes by (simp del: append.simps) blast
  let ?h = "asked\<lparr>h_presence := P\<rparr>" and ?p = "create_params copts0 (ClientDataHash cdj) []"
  have "mem_inv (e_crypto env0) (h_signer ?h)" "rng_good (h_rng ?h)"
    by (simp_all add: handler0_fields env0_def mem0_inv rng0_good)
  have "e_signer env0 = mem_signer (e_crypto env0)" by (simp add: env0_def)
  from mem_registers [OF this \<open>mem_inv (e_crypto env0) (h_signer ?h)\<close> \<open>rng_good (h_rng ?h)\<close> env0_encodes,
      of ?p "HashRPID (mp_RPID ?p)"] obtain res h1 where
    r: "make_credential_register env0 ?p (HashRPID (mp_RPID ?p)) ?h = (Ok res, h1)" by blast
  have m: "MakeCredentialDirect env0 ?p ?h = (Ok res, h1)"
    using r by (simp add: MakeCredentialDirect_def ClientDataHash_def copts0_def create_params_def)
  have e: "e_signer env0 = mem_signer crypto0" by (simp add: env0_def)
  have "create_prf_eval copts0 = Some \<lparr>ev_First = [], ev_Second = []\<rparr>" by (simp add: create_prf_eval_def copts0_def)
  then obtain pr h2 where q: "computePRFResult env0 (mk_CredentialID res) (create_prf_eval copts0) h1 = (Ok pr, h2)"
    by (simp add: computePRFResult_def DecodeString_def mem_computes [OF e])
  have d: "DecodeString (co_Challenge copts0) = Some []" "DecodeString (us_ID (co_User copts0)) = Some []"
    "list_ex (\<lambda>p. pk_Type p = ''public-key'' \<and> pk_Alg p = -7) (co_PubKeyCredParams copts0)"
    "wj_create (json0 go) [] = Inr copts0" "res_OK yes"
    by (simp_all add: copts0_def DecodeString_def json0_def yes_def)
  have "(if mp_HmacSecret ?p then
        and_then (computePRFResult env0 (mk_CredentialID res) (create_prf_eval copts0) h1)
          (\<lambda>prfResult h2. (Ok (map_option (\<lambda>r. r\<lparr>pres_Enabled := True\<rparr>) prfResult), h2))
      else (Ok None, h1)) = (Ok (map_option (\<lambda>r. r\<lparr>pres_Enabled := True\<rparr>) pr), h2)"
    by (simp add: q) (simp add: create_params_def copts0_def)
  from create_succeeds [OF d(4,1-3) b P d(5) m this] show ?thesis by blast
qed

lemma web_register_then_login_witness:
  "\<exists>created h1 c resp h3 x y. handleCreate env0 (json0 (gopts0 [] None)) ''7'' ''https://a.org'' [] asked = (Ok (CreateReply created), h1) \<and>
     cre_Credential created = Some c \<and>
     handleGet env0 (json0 (gopts0 (cr_ID c) None)) ''8'' ''https://a.org'' []
       (h1\<lparr>h_presence := presence0 [(Received yes, True)]\<rparr>) = (Ok (GetReply resp), h3) \<and>
     rp_accepts (ecdsaVerify crypto0) x y ''a.org'' [1, 2] ''https://a.org'' resp"
proof -
  let ?h2 = "\<lambda>h1. h1\<lparr>h_presence := presence0 [(Received yes, True)]\<rparr>"
  from create0 obtain created h1 where
    c: "handleCreate env0 (json0 (gopts0 [] None)) ''7'' ''https://a.org'' [] asked = (Ok (CreateReply created), h1)" by blast
  then obtain cr where cr: "cre_Credential created = Some cr"
    by (auto elim!: handleCreate_stages simp: create_response_def)
  let ?J = "json0 (gopts0 (cr_ID cr) None)" and ?g = "gopts0 (cr_ID cr) None"
  have c': "handleCreate env0 ?J ''7'' ''https://a.org'' [] asked = (Ok (CreateReply created), h1)"
    using c by (simp add: handleCreate_def json0_def)
  have i: "mem_inv crypto0 (h_signer asked)" "ec_ok (e_crypto env0)" "rng_good (h_rng asked)" "length (h_aaguid asked) = 16"
    using crypto0_ok by (simp_all add: handler0_fields mem0_inv rng0_good env0_def crypto_ok_def)
  obtain cdj where b: "BuildClientDataJSON ClientDataTypeGet [1, 2] ''https://a.org'' = Inr cdj"
    by (simp add: BuildClientDataJSON_def marshal_client_data_def)
  obtain P where P: "ask_presence (''Sign in to '' @ go_RPID ?g) (ClientDataHash cdj) (HashRPID (go_RPID ?g))
      (h_presence (?h2 h1)) = (Answer yes, P)" using ask_yes by (simp del: append.simps) blast
  have g: "go_RPID ?g = rel_ID (co_RP copts0)" "go_AllowCredentials ?g = [\<lparr>de_Type = ''public-key'', de_ID = cr_ID cr\<rparr>]"
    "go_Extensions ?g = None" "DecodeString (go_Challenge ?g) = Some [1, 2]" "valid_utf8 ''https://a.org''" "res_OK yes"
    "wj_create ?J [] = Inr copts0" "wj_get ?J [] = Inr ?g"
    by (simp_all add: gopts0_def copts0_def valid_utf8.simps(2) yes_def json0_def)
  have s: "h_signer (?h2 h1) = signer_after (e_signer env0) [] (h_signer h1)" by simp
  from web_register_then_login [OF env0_contract i c' g(7) s g(8,1,2) cr _ g(3,4,5) b P g(6), of "''8''"]
  show ?thesis using c cr by (auto simp: gopts0_def)
qed

text \<open>
  The user is asked for exactly the request in the message, and confirms; and a reply that refuses and
  leaves the handler alone.
\<close>

definition user_confirms :: "WebJson \<Rightarrow> bytes \<Rightarrow> 's Handler \<Rightarrow> bool" where
  "user_confirms J msg h \<longleftrightarrow>
     (\<exists>env cdj prompt rpid r P.
        wj_envelope J msg = Inr env \<and>
        ((\<exists>co ch. env_Type env = ''create'' \<and> wj_create J (env_Options env) = Inr co \<and> DecodeString (co_Challenge co) = Some ch \<and>
            rpid = rel_ID (co_RP co) \<and> prompt = ''Register with '' @ rel_Name (co_RP co) \<and>
            BuildClientDataJSON ClientDataTypeCreate ch (env_Origin env) = Inr cdj) \<or>
         (\<exists>go ch. env_Type env = ''get'' \<and> wj_get J (env_Options env) = Inr go \<and> DecodeString (go_Challenge go) = Some ch \<and>
            rpid = go_RPID go \<and> prompt = ''Sign in to '' @ rpid \<and>
            BuildClientDataJSON ClientDataTypeGet ch (env_Origin env) = Inr cdj)) \<and>
        ask_presence prompt (ClientDataHash cdj) (HashRPID rpid) (h_presence h) = (Answer r, P) \<and> res_OK r)"

definition refused :: "'s Handler \<Rightarrow> web_reply res \<times> 's Handler \<Rightarrow> bool" where
  "refused h p \<longleftrightarrow> (\<exists>er P. p = (Ok (ErrorReply er), h\<lparr>h_presence := P\<rparr>) \<and> \<not> er_Success er \<and>
     we_Name (er_Error er) \<in> {ErrNameNotAllowed, ErrNameTypeError})"

lemma refused_error:
  "name \<in> {ErrNameNotAllowed, ErrNameTypeError} \<Longrightarrow> refused h (error_reply t i name m, h)"
  by (auto simp: refused_def error_reply_def NewErrorResponse_def intro!: exI [of _ "h_presence h"])

lemma refused_mapped:
  "e \<in> {WebAuthnErr W_ErrUserDenied, WebAuthnErr W_ErrTimeout} \<Longrightarrow> refused h (mapped_error t i e, h\<lparr>h_presence := P\<rparr>)"
  by (auto simp: refused_def mapped_error_def MapErrorToResponse_def NewErrorResponse_def)

lemma confirm_user_refused:
  assumes "\<And>r P. ask_presence prompt cdh rph (h_presence h) = (Answer r, P) \<Longrightarrow> \<not> res_OK r"
  shows "refused h (confirm_user t i prompt cdh rph h k)"
  using confirm_user_cases [of prompt cdh rph h t i k] assms refused_mapped [of _ h t i] by fastforce

lemma handleCreate_refused:
  assumes "\<And>co ch cdj r P. wj_create J raw = Inr co \<Longrightarrow> DecodeString (co_Challenge co) = Some ch \<Longrightarrow>
      BuildClientDataJSON ClientDataTypeCreate ch origin = Inr cdj \<Longrightarrow>
      ask_presence (''Register with '' @ rel_Name (co_RP co)) (ClientDataHash cdj) (HashRPID (rel_ID (co_RP co)))
        (h_presence h) = (Answer r, P) \<Longrightarrow> \<not> res_OK r"
  shows "refused h (handleCreate E J i origin raw h)"
proof (cases "wj_create J raw")
  case (Inr co)
  show ?thesis
  proof (cases "DecodeString (co_Challenge co)")
    case (Some ch)
    obtain cdj where b: "BuildClientDataJSON ClientDataTypeCreate ch origin = Inr cdj"
      by (simp add: BuildClientDataJSON_def marshal_client_data_def)
    show ?thesis
      unfolding handleCreate_def Inr sum.case Some option.case b
      using confirm_user_refused [OF assms [OF Inr Some b]]
      by (auto intro: refused_error split: option.split simp del: append.simps)
  qed (simp add: handleCreate_def Inr refused_error)
qed (simp add: handleCreate_def refused_error)

lemma handleGet_refused:
  assumes "\<And>go ch cdj r P. wj_get J raw = Inr go \<Longrightarrow> DecodeString (go_Challenge go) = Some ch \<Longrightarrow>
      BuildClientDataJSON ClientDataTypeGet ch origin = Inr cdj \<Longrightarrow>
      ask_presence (''Sign in to '' @ go_RPID go) (ClientDataHash cdj) (HashRPID (go_RPID go))
        (h_presence h) = (Answer r, P) \<Longrightarrow> \<not> res_OK r"
  shows "refused h (handleGet E J i origin raw h)"
proof (cases "wj_get J raw")
  case (Inr go)
  show ?thesis
  proof (cases "DecodeString (go_Challenge go)")
    case (Some ch)
    obtain cdj where b: "BuildClientDataJSON ClientDataTypeGet ch origin = Inr cdj"
      by (simp add: BuildClientDataJSON_def marshal_client_data_def)
    show ?thesis
      unfolding handleGet_def Inr sum.case Some option.case b by (rule confirm_user_refused [OF assms [OF Inr Some b]])
  qed (simp add: handleGet_def Inr refused_error)
qed (simp add: handleGet_def refused_error)

text \<open>
  C3. Nothing is created and nothing is signed without the user. Unless the user is asked for exactly this
  request (its own prompt, the hash of its client data, the hash of its relying party) and confirms,
  the reply to any message is an error response named \<^verbatim>\<open>NotAllowedError\<close> or \<^verbatim>\<open>TypeError\<close> and the handler
  is unchanged, apart from the question having been asked: no key, no stored credential, no file,
  no counter, no randomness.
\<close>

theorem web_needs_confirmation:
  assumes "\<not> user_confirms J msg h"
  shows "refused h (HandleRequest E J msg h)"
proof (cases "wj_envelope J msg")
  case (Inr env)
  have c: "refused h (handleCreate E J (env_RequestID env) (env_Origin env) (env_Options env) h)"
    if "env_Type env = ''create''"
    by (rule handleCreate_refused) (use assms that Inr in \<open>unfold user_confirms_def, blast\<close>)
  have g: "refused h (handleGet E J (env_RequestID env) (env_Origin env) (env_Options env) h)"
    if "env_Type env = ''get''"
    by (rule handleGet_refused) (use assms that Inr in \<open>unfold user_confirms_def, blast\<close>)
  show ?thesis
    using c g by (auto simp: HandleRequest_def Inr intro: refused_error)
qed (simp add: HandleRequest_def refused_error)

lemma web_needs_confirmation_witness:
  "refused handler0 (HandleRequest env0 (json0 (gopts0 [] None)) [1] handler0) \<and>
   refused asked (HandleRequest env0 (json0 (gopts0 [] None)) [] asked)"
proof -
  have "\<not> user_confirms (json0 (gopts0 [] None)) [1] handler0"
    by (auto simp: user_confirms_def handler0_def NewHandler_def ask_presence_def presence0_def next_wait_def cleared_by_now_def
        ConfirmPresence_def Let_def split: prod.splits)
  moreover have "\<not> user_confirms (json0 (gopts0 [] None)) [] asked" by (simp add: user_confirms_def json0_def)
  ultimately show ?thesis by (intro conjI web_needs_confirmation)
qed

context signer_contract
begin

lemma direct_get_grows:
  assumes "e_signer E = S" "inv (h_signer h)" "GetAssertionDirect E p h = (Ok as, h')"
  shows "grows inv knows (h_signer h) (h_signer h')"
  using assms(3)
proof (cases rule: GetAssertionDirect_stages)
  case (1 h1 h2 ext)
  from choose_grows [OF assms(1,2) 1(2)] have g1: "grows inv knows (h_signer h) (h_signer h1)" by simp
  then have i1: "inv (h_signer h1)" by (simp add: grows_def)
  have g2: "grows inv knows (h_signer h1) (h_signer h2)"
    using 1(3) hmac_grows [OF assms(1) i1] i1 by (auto split: option.splits)
  then have "inv (h_signer h2)" by (simp add: grows_def)
  from signed_auth_data_grows [OF assms(1) this 1(4)] g1 g2 show ?thesis by (blast intro: grows_trans)
qed

end

context stable_secret
begin

lemma cred_random_secret:
  "e_signer E = S \<Longrightarrow> inv (h_signer h) \<Longrightarrow> cred_random E c h = (q, g) \<Longrightarrow> q = secret (h_signer h) c"
  using derive_secret [of "h_signer h" c] by (auto simp: cred_random_def split: prod.splits)

lemma prf_agrees:
  assumes E: "e_signer E = S" and i: "inv (h_signer h)"
    and m: "MakeCredentialDirect E mp h = (Ok result, h1)"
    and p: "computePRFResult E (mk_CredentialID result) (Some ev) h1 = (Ok r, h1')"
    and c: "h_signer h2 = signer_after S calls (h_signer h1')"
    and g: "GetAssertionDirect E gp h2 = (Ok as, h3)" and as: "gs_CredentialID as = mk_CredentialID result"
    and q: "computePRFResult E (gs_CredentialID as) (Some ev) h3 = (Ok r2, h4)"
  shows "r2 = r \<and> (\<exists>outp. r = Some \<lparr>pres_Enabled = False, pres_Results = Some outp\<rparr>)"
proof -
  let ?f = "secret (h_signer h)" and ?c = "mk_CredentialID result"
  from keyed.direct_registers [OF E _ m, of ?f] i have 1: "inv (h_signer h1)" "secret (h_signer h1) = ?f"
    by (simp_all add: grows_def)
  obtain x h1c where r1: "cred_random E ?c h1 = (x, h1c)" by fastforce
  have x: "x = ?f ?c" using cred_random_secret [OF E 1(1) r1] 1(2) by simp
  have "inv (h_signer h1') \<and> secret (h_signer h1') = ?f"
    using computePRFResult_state [OF p] keyed.cred_random_grows [OF E, of h1 ?f ?c] 1 by (auto simp: grows_def)
  with keyed.after_keeps [of "h_signer h1'" ?f calls] c have 2: "inv (h_signer h2)" "secret (h_signer h2) = ?f" by simp_all
  from keyed.direct_get_grows [OF E _ g, of ?f] 2 have 3: "inv (h_signer h3)" "secret (h_signer h3) = ?f"
    by (simp_all add: grows_def)
  obtain y h3c where r3: "cred_random E ?c h3 = (y, h3c)" by fastforce
  have "y = x" using cred_random_secret [OF E 3(1) r3] 3(2) x by simp
  from computePRFResult_secret [OF p r1 r3 [unfolded this] q [unfolded as]] show ?thesis .
qed

end

text \<open>
  C12. The PRF results handed out when a credential is created are the ones handed out at every later
  login: on a backend whose secrets are stable, if a create request with PRF input succeeds and
  later, after any further calls on the backend, a get request with the same input succeeds with
  that credential, both responses carry the same outputs.
\<close>

theorem prf_same_at_login:
  assumes "stable_secret (e_signer E) ok knows verify secret" "ok (h_signer h)"
    and "handleCreate E J i1 origin1 raw1 h = (Ok (CreateReply created), h1)"
    and "wj_create J raw1 = Inr copts" "create_prf_eval copts = Some ev" "cre_Credential created = Some c"
    and "h_signer h2 = signer_after (e_signer E) calls (h_signer h1)"
    and "handleGet E J i2 origin2 raw2 h2 = (Ok (GetReply got), h3)" "get_Credential got = Some d" "cr_ID d = cr_ID c"
    and "wj_get J raw2 = Inr gopts"
    and "go_Extensions gopts = Some \<lparr>ge_PRF = Some \<lparr>prf_Eval = Some ev, prf_EvalByCredential = None\<rparr>\<rparr>"
  shows "\<exists>outp. cx_PRF (cr_ClientExtensionResults c) = Some \<lparr>pres_Enabled = True, pres_Results = Some outp\<rparr> \<and>
    cx_PRF (cr_ClientExtensionResults d) = Some \<lparr>pres_Enabled = False, pres_Results = Some outp\<rparr>"
  using assms(3)
proof (cases rule: handleCreate_stages)
  case (1 co ch uid cdj r P result h1c pr)
  note create = 1
  have co: "co = copts" using create(1) assms(4) by simp
  have hs: "mp_HmacSecret (create_params co (ClientDataHash cdj) uid)"
    using assms(5) by (auto simp: co create_params_def create_prf_eval_def split: option.splits bind_splits)
  from create(8) hs obtain pr0 where
    p: "computePRFResult E (mk_CredentialID result) (Some ev) h1c = (Ok pr0, h1)"
    and pr: "pr = map_option (\<lambda>r. r\<lparr>pres_Enabled := True\<rparr>) pr0"
    by (auto simp: co assms(5) and_then_eq_Ok)
  from assms(8) show ?thesis
  proof (cases rule: handleGet_stages)
    case (1 go ch' cdj' r' P' as g1 sel pr')
    have go: "go = gopts" using 1(1) assms(11) by simp
    from 1(7) have sel: "sel = Some ev" by (simp add: go assms(12) select_prf_eval_def)
    have id: "gs_CredentialID as = mk_CredentialID result"
      using assms(6,9,10) create(9) 1(9) by (auto simp: create_response_def get_response_def)
    have "ok (h_signer (h\<lparr>h_presence := P\<rparr>))" using assms(2) by simp
    note agree = stable_secret.prf_agrees [OF assms(1) refl this create(7) p _ 1(6) id 1(8) [unfolded sel]]
    have "h_signer (h2\<lparr>h_presence := P'\<rparr>) = signer_after (e_signer E) calls (h_signer h1)" using assms(7) by simp
    from agree [OF this] obtain outp where "pr0 = Some \<lparr>pres_Enabled = False, pres_Results = Some outp\<rparr>" "pr' = pr0" by blast
    with assms(6,9) create(9) 1(9) pr show ?thesis by (auto simp: create_response_def get_response_def)
  qed
qed

definition prf_ext :: "GetExtensions option" where
  "prf_ext = Some \<lparr>ge_PRF = Some \<lparr>prf_Eval = Some \<lparr>ev_First = [], ev_Second = []\<rparr>, prf_EvalByCredential = None\<rparr>\<rparr>"

lemma get0:
  assumes "mem_inv crypto0 (h_signer h)" "mem_knows crypto0 (h_signer h) credID (HashRPID ''a.org'') x y"
    and "h_presence h = presence0 [(Received yes, True)]"
  shows "\<exists>as cdj h1. handleGet env0 (json0 (gopts0 (EncodeToString credID) ext)) i ''https://a.org'' [] h =
      get_confirmed env0 i (gopts0 (EncodeToString credID) ext) cdj h1 \<and>
    (\<exists>h2. GetAssertionDirect env0 \<lparr>gp_ClientDataHash = ClientDataHash cdj, gp_RPID = ''a.org'',
       gp_AllowCredentials = [credID], gp_HmacSecretInput = None\<rparr> h1 = (Ok as, h2)) \<and> gs_CredentialID as = credID"
proof -
  let ?go = "gopts0 (EncodeToString credID) ext"
  obtain cdj where b: "BuildClientDataJSON ClientDataTypeGet [1, 2] ''https://a.org'' = Inr cdj"
    by (simp add: BuildClientDataJSON_def marshal_client_data_def)
  obtain P where P: "ask_presence (''Sign in to '' @ go_RPID ?go) (ClientDataHash cdj) (HashRPID (go_RPID ?go))
      (h_presence h) = (Answer yes, P)" using ask_yes assms(3) by (simp del: append.simps) blast
  have yes: "res_OK yes" by (simp add: yes_def)
  have w: "wj_get (json0 ?go) [] = Inr ?go" "DecodeString (go_Challenge ?go) = Some [1, 2]"
    by (simp_all add: json0_def gopts0_def)
  let ?p = "\<lparr>gp_ClientDataHash = ClientDataHash cdj, gp_RPID = ''a.org'', gp_AllowCredentials = [credID], gp_HmacSecretInput = None\<rparr>"
  have e: "e_signer env0 = mem_signer crypto0" by (simp add: env0_def)
  have i: "mem_inv crypto0 (h_signer (h\<lparr>h_presence := P\<rparr>))" using assms(1) by simp
  from mem.direct_signs [OF e i, of ?p credID x y] assms(2) obtain as h2 where
    "GetAssertionDirect env0 ?p (h\<lparr>h_presence := P\<rparr>) = (Ok as, h2)" "gs_CredentialID as = credID"
    by (auto simp: ClientDataHash_def)
  moreover have "handleGet env0 (json0 ?go) i ''https://a.org'' [] h = get_confirmed env0 i ?go cdj (h\<lparr>h_presence := P\<rparr>)"
    by (simp only: handleGet_def w sum.case option.case b confirm_user_yes [OF P yes])
  ultimately show ?thesis by blast
qed

lemma create0_knows:
  assumes c: "handleCreate env0 (json0 (gopts0 [] None)) ''7'' ''https://a.org'' [] asked = (Ok (CreateReply created), h1)"
    and cr: "cre_Credential created = Some cr"
  obtains credID x y where "cr_ID cr = EncodeToString credID" "mem_inv crypto0 (h_signer h1)"
    "mem_knows crypto0 (h_signer h1) credID (HashRPID ''a.org'') x y"
proof -
  have e: "e_signer env0 = mem_signer crypto0" by (simp add: env0_def)
  have i: "mem_inv crypto0 (h_signer asked)" "ec_ok (e_crypto env0)" "rng_good (h_rng asked)" "length (h_aaguid asked) = 16"
    using crypto0_ok by (simp_all add: handler0_fields mem0_inv rng0_good env0_def crypto_ok_def)
  have w: "wj_create (json0 (gopts0 [] None)) [] = Inr copts0" "rel_ID (co_RP copts0) = ''a.org''"
    by (simp_all add: json0_def copts0_def)
  from mem.create_registers [OF e i c w(1)] w(2) obtain credID x y where
    r: "rp_registered (e_cbor env0) ''a.org'' created credID x y"
    and k: "mem_knows crypto0 (h_signer h1) credID (HashRPID ''a.org'') x y" and ok: "mem_inv crypto0 (h_signer h1)"
    by (auto simp: grows_def)
  have "cr_ID cr = EncodeToString credID"
    using c r cr by (auto elim!: handleCreate_stages simp: create_response_def rp_registered_def)
  then show thesis using that k ok by blast
qed

lemma get0_prf:
  assumes k: "mem_inv crypto0 (h_signer h)" "mem_knows crypto0 (h_signer h) credID (HashRPID ''a.org'') x y"
    and p: "h_presence h = presence0 [(Received yes, True)]" and id: "EncodeToString credID = cid"
  obtains got h2 d where
    "handleGet env0 (json0 (gopts0 cid prf_ext)) ''8'' ''https://a.org'' [] h = (Ok (GetReply got), h2)"
    "get_Credential got = Some d" "cr_ID d = cid"
proof -
  let ?g = "gopts0 cid prf_ext" and ?ev = "\<lparr>ev_First = [], ev_Second = []\<rparr>"
  from get0 [of h credID x y prf_ext "''8''"] k p obtain as cdj hp h2 where
    g: "handleGet env0 (json0 ?g) ''8'' ''https://a.org'' [] h = get_confirmed env0 ''8'' ?g cdj hp"
    and d: "GetAssertionDirect env0 \<lparr>gp_ClientDataHash = ClientDataHash cdj, gp_RPID = ''a.org'',
       gp_AllowCredentials = [credID], gp_HmacSecretInput = None\<rparr> hp = (Ok as, h2)"
    and as: "gs_CredentialID as = credID" by (auto simp: id)
  have ids: "decode_ids (go_AllowCredentials ?g) = [credID]" "go_RPID ?g = ''a.org''"
    by (simp_all add: gopts0_def id [symmetric])
  have s: "select_prf_eval ?g [credID] credID = Ok (Some ?ev)"
    by (simp add: select_prf_eval_def gopts0_def prf_ext_def)
  obtain pr where q: "computePRFResult env0 credID (Some ?ev) h2 = (Ok pr, h2)"
    by (simp add: computePRFResult_def DecodeString_def mem_computes env0_def)
  have "handleGet env0 (json0 ?g) ''8'' ''https://a.org'' [] h = (Ok (GetReply (get_response ''8'' cdj as pr)), h2)"
    unfolding g get_confirmed_def Let_def ids d or_mapped_simps as s q ..
  then show thesis using that by (auto simp: get_response_def as id)
qed

lemma prf_same_at_login_witness:
  "\<exists>created h1 c got h3 d outp.
     handleCreate env0 (json0 (gopts0 [] None)) ''7'' ''https://a.org'' [] asked = (Ok (CreateReply created), h1) \<and>
     cre_Credential created = Some c \<and>
     handleGet env0 (json0 (gopts0 (cr_ID c) prf_ext)) ''8'' ''https://a.org'' []
       (h1\<lparr>h_presence := presence0 [(Received yes, True)]\<rparr>) = (Ok (GetReply got), h3) \<and> get_Credential got = Some d \<and>
     map_option pres_Results (cx_PRF (cr_ClientExtensionResults c)) = Some (Some outp) \<and>
     map_option pres_Results (cx_PRF (cr_ClientExtensionResults d)) = Some (Some outp)"
proof -
  from create0 obtain created h1 where
    c: "handleCreate env0 (json0 (gopts0 [] None)) ''7'' ''https://a.org'' [] asked = (Ok (CreateReply created), h1)" by blast
  from c obtain cr where cr: "cre_Credential created = Some cr"
    by (auto elim!: handleCreate_stages simp: create_response_def)
  let ?h2 = "h1\<lparr>h_presence := presence0 [(Received yes, True)]\<rparr>" and ?g = "gopts0 (cr_ID cr) prf_ext"
  from create0_knows [OF c cr] obtain credID x y where id: "cr_ID cr = EncodeToString credID"
    and k: "mem_inv crypto0 (h_signer ?h2)" "mem_knows crypto0 (h_signer ?h2) credID (HashRPID ''a.org'') x y" by auto
  from get0_prf [OF k _ id [symmetric]] obtain got h2 d where
    got: "handleGet env0 (json0 ?g) ''8'' ''https://a.org'' [] ?h2 = (Ok (GetReply got), h2)"
    and d: "get_Credential got = Some d" "cr_ID d = cr_ID cr" by auto
  have st: "stable_secret (e_signer env0) (mem_inv crypto0) (mem_knows crypto0) (ecdsaVerify crypto0)
      (\<lambda>m h. Ok (hmac_sha256 (masterPrivateKey m) h))"
    unfolding env0_def Env.simps by (rule mem.stable_secret_axioms)
  have i: "mem_inv crypto0 (h_signer asked)" by (simp add: handler0_fields mem0_inv)
  have ev: "create_prf_eval copts0 = Some \<lparr>ev_First = [], ev_Second = []\<rparr>" by (simp add: create_prf_eval_def copts0_def)
  have sg: "h_signer ?h2 = signer_after (e_signer env0) [] (h_signer h1)" by simp
  have ge: "go_Extensions ?g = Some \<lparr>ge_PRF = Some \<lparr>prf_Eval = Some \<lparr>ev_First = [], ev_Second = []\<rparr>, prf_EvalByCredential = None\<rparr>\<rparr>"
    by (simp add: gopts0_def prf_ext_def)
  have w: "wj_get (json0 ?g) [] = Inr ?g" "wj_create (json0 ?g) [] = Inr copts0" by (simp_all add: json0_def)
  have c': "handleCreate env0 (json0 ?g) ''7'' ''https://a.org'' [] asked = (Ok (CreateReply created), h1)"
    using c by (simp add: handleCreate_def json0_def)
  from prf_same_at_login [OF st i c' w(2) ev cr sg got d w(1) ge] c cr got d show ?thesis by auto
qed

end
