(* ===== verification/WebSafety.thy ===== *)
theory WebSafety
  imports Ctap2 WebAuthn
begin

text \<open>
  What the requests of \<^verbatim>\<open>webauthn/handler.go\<close> do to the handler, whatever they contain: the invariant of
  \<^verbatim>\<open>ctap2.Handler\<close> is kept, and the process survives every request but one kind.
\<close>

section \<open>Calls that do not panic\<close>

text \<open>A call started in \<open>h\<close> keeps the invariant of \<open>h\<close> and returns.\<close>

definition safely ::
  "('s \<Rightarrow> bool) \<Rightarrow> ('s \<Rightarrow> bytes \<Rightarrow> bytes \<Rightarrow> nat \<Rightarrow> nat \<Rightarrow> bool) \<Rightarrow> 's Handler \<Rightarrow> 'r res \<times> 's Handler \<Rightarrow> bool" where
  "safely ok knows h p \<longleftrightarrow> leads ok knows h p \<and> \<not> is_panic (fst p)"

lemma safely_pair [simp]: "safely ok knows h (r, h1) \<longleftrightarrow> keeps ok knows h h1 \<and> \<not> is_panic r"
  by (simp add: safely_def)

lemma safely_from: "keeps ok knows h h1 \<Longrightarrow> safely ok knows h1 p \<Longrightarrow> safely ok knows h p"
  by (auto simp: safely_def intro: leads_from)

lemma safely_and_then:
  assumes "safely ok knows h p" "\<And>a h1. p = (Ok a, h1) \<Longrightarrow> ok (h_signer h1) \<Longrightarrow> safely ok knows h1 (k a h1)"
  shows "safely ok knows h (and_then p k)"
proof (cases p)
  case (Pair q h1)
  with assms(1) have k: "keeps ok knows h h1" "\<not> is_panic q" by simp_all
  with Pair assms(2) [OF _ keeps_ok [OF k(1)]] show ?thesis by (cases q) (auto intro: safely_from)
qed

lemma safely_or_mapped:
  assumes "safely ok knows h p" "\<And>a h1. p = (Ok a, h1) \<Longrightarrow> ok (h_signer h1) \<Longrightarrow> safely ok knows h1 (k a h1)"
  shows "safely ok knows h (or_mapped t i f p k)"
proof (cases p)
  case (Pair q h1)
  with assms(1) have k: "keeps ok knows h h1" "\<not> is_panic q" by simp_all
  with Pair assms(2) [OF _ keeps_ok [OF k(1)]] show ?thesis
    by (cases q) (auto simp: mapped_error_def intro: safely_from)
qed

lemma safely_case_sum:
  "(\<And>e. v = Inl e \<Longrightarrow> safely ok knows h (f e)) \<Longrightarrow> (\<And>b. v = Inr b \<Longrightarrow> safely ok knows h (g b)) \<Longrightarrow>
   safely ok knows h (case v of Inl e \<Rightarrow> f e | Inr b \<Rightarrow> g b)"
  by (cases v) auto

lemma safely_case_option:
  "(v = None \<Longrightarrow> safely ok knows h f) \<Longrightarrow> (\<And>b. v = Some b \<Longrightarrow> safely ok knows h (g b)) \<Longrightarrow>
   safely ok knows h (case v of None \<Rightarrow> f | Some b \<Rightarrow> g b)"
  by (cases v) auto

lemma safely_if:
  "(c \<Longrightarrow> safely ok knows h p) \<Longrightarrow> (\<not> c \<Longrightarrow> safely ok knows h q) \<Longrightarrow> safely ok knows h (if c then p else q)"
  by simp

lemma attest_safely: "ok (h_signer h) \<Longrightarrow> safely ok knows h (attest E ad cdh h)"
  using attest_leads [of ok h knows E ad cdh]
  by (auto simp: safely_def attest_def split: sum.splits prod.splits)

lemma confirm_user_safely:
  assumes "ok (h_signer h)" "\<And>h1. ok (h_signer h1) \<Longrightarrow> safely ok knows h1 (k h1)"
  shows "safely ok knows h (confirm_user t i prompt cdh rph h k)"
proof -
  have p: "keeps ok knows h (h\<lparr>h_presence := P\<rparr>)" for P using assms(1) by (rule presence_keeps)
  have "safely ok knows h (k (h\<lparr>h_presence := P\<rparr>))" for P
    by (rule safely_from [OF p [of P]], rule assms(2)) (simp add: assms(1))
  with p confirm_user_cases [of prompt cdh rph h t i k] show ?thesis
    by (auto simp: mapped_error_def)
qed

section \<open>The requests\<close>

text \<open>The one way a request reaches a nil pointer.\<close>

definition null_eval :: "GetOptions \<Rightarrow> bool" where
  "null_eval options \<longleftrightarrow>
     (\<exists>prf evals ident. Option.bind (go_Extensions options) ge_PRF = Some prf \<and>
        prf_EvalByCredential prf = Some evals \<and> (ident, None) \<in> set evals)"

lemma select_prf_panic: "is_panic (select_prf_eval options allow c) \<Longrightarrow> null_eval options"
  by (auto simp: select_prf_eval_def null_eval_def split: option.splits if_splits dest!: map_of_SomeD)

lemma create_prf_safely:
  "safely ok knows h p \<Longrightarrow>
   safely ok knows h (and_then p (\<lambda>r h2. (Ok (map_option (\<lambda>x. x\<lparr>pres_Enabled := True\<rparr>) r), h2)))"
  by (rule safely_and_then) (simp_all add: keeps_refl)

context signer_contract
begin

lemma register_safely: "e_signer E = S \<Longrightarrow> inv (h_signer h) \<Longrightarrow> safely inv knows h (register_key E a h)"
  using register_leads [of E h a] register_grows [of E h a]
  by (cases "register_key E a h") (auto simp: safely_def)

lemma first_valid_safely: "e_signer E = S \<Longrightarrow> inv (h_signer h) \<Longrightarrow> safely inv knows h (first_valid E m a f cs h)"
  using first_valid_leads [of E h m a f cs] first_valid_contract [of E h m a f cs]
  by (cases "first_valid E m a f cs h") (auto simp: safely_def)

lemma signed_safely:
  "e_signer E = S \<Longrightarrow> inv (h_signer h) \<Longrightarrow> safely inv knows h (signed_auth_data E c rph cdh ext out h)"
  using signed_leads [of E h c rph cdh ext out] signed_auth_data_grows [of E h c rph cdh ext out]
  by (cases "signed_auth_data E c rph cdh ext out h") (auto simp: safely_def)

lemma registration_safely:
  "e_signer E = S \<Longrightarrow> inv (h_signer h) \<Longrightarrow> safely inv knows h (registration_auth_data E rph c x y hs h)"
  using registration_leads [of E h rph c x y hs]
  by (auto simp: safely_def registration_auth_data_def Let_def split: sum.splits prod.splits)

lemma ComputePRF_safely:
  assumes "e_signer E = S" "inv (h_signer h)"
  shows "safely inv knows h (ComputePRF E c s1 s2 h)"
proof -
  obtain r h1 where c: "cred_random E c h = (r, h1)" by fastforce
  from cred_random_grows [OF assms c] cred_random_same [OF c] show ?thesis
    unfolding ComputePRF_def c by (intro safely_and_then) (auto intro: keeps_signer keeps_refl)
qed

lemma computePRFResult_safely:
  assumes "e_signer E = S" "inv (h_signer h)"
  shows "safely inv knows h (computePRFResult E c ev h)"
proof -
  have p: "safely inv knows h1 (case ComputePRF E c s1 s2 h1 of
      (Err e, h2) \<Rightarrow> (Err (WebAuthnErr W_ErrPRFComputationFailed), h2)
    | (Panic m, h2) \<Rightarrow> (Panic m, h2)
    | (Ok (output1, output2), h2) \<Rightarrow> (Ok (f output1 output2), h2))"
    if "inv (h_signer h1)" for h1 s1 s2 and f :: "bytes \<Rightarrow> bytes \<Rightarrow> PRFResult option"
    using ComputePRF_safely [OF assms(1) that, of c s1 s2] by (auto split: prod.split res.split)
  show ?thesis
    unfolding computePRFResult_def Let_def
    by (intro safely_case_option safely_and_then safely_if) (simp_all add: keeps_refl assms(2) p)
qed

lemma MakeCredentialDirect_safely:
  assumes "e_signer E = S" "inv (h_signer h)"
  shows "safely inv knows h (MakeCredentialDirect E p h)"
proof -
  have r: "safely inv knows h1 (make_credential_register E p rph h1)" if "inv (h_signer h1)" for h1 rph
    unfolding make_credential_register_def Let_def
    by (rule safely_and_then [OF register_safely [OF assms(1) that]], simp only: split_paired_all prod.case,
        rule safely_from [OF keeps_save], assumption,
        rule safely_and_then [OF registration_safely [OF assms(1)]], simp,
        rule safely_and_then [OF attest_safely], assumption,
        rule safely_case_sum, simp_all add: keeps_refl)
  show ?thesis
    unfolding MakeCredentialDirect_def Let_def
    by (intro safely_if safely_and_then first_valid_safely assms) (simp_all add: keeps_refl assms(2) r)
qed

lemma choose_safely:
  assumes "e_signer E = S" "inv (h_signer h)"
  shows "safely inv knows h (choose_credential E p rph h)"
  unfolding choose_credential_def Let_def
  by (intro safely_if safely_and_then safely_case_option first_valid_safely assms) (simp_all add: keeps_refl assms(2))

lemma GetAssertionDirect_safely:
  assumes "e_signer E = S" "inv (h_signer h)" "gp_HmacSecretInput p = None"
  shows "safely inv knows h (GetAssertionDirect E p h)"
proof -
  have s: "safely inv knows h1 (and_then (signed_auth_data E c rph cdh ext out h1) (\<lambda>(ad, sig) h3. (Ok (f ad sig), h3)))"
    if "inv (h_signer h1)" for h1 c rph cdh ext out and f :: "bytes \<Rightarrow> bytes \<Rightarrow> GetAssertionResult"
    by (rule safely_and_then [OF signed_safely [OF assms(1) that]]) (simp add: keeps_refl split: prod.split)
  show ?thesis
    unfolding GetAssertionDirect_def Let_def assms(3) option.case and_then_simps
    by (intro safely_if safely_and_then choose_safely assms(1,2)) (simp_all add: keeps_refl assms(2) s split: prod.split)
qed

lemma handleCreate_safely:
  assumes "e_signer E = S" "inv (h_signer h)"
  shows "safely inv knows h (handleCreate E J i origin raw h)"
proof -
  have k: "safely inv knows h1 (create_confirmed E i options cdj userID h1)" if "inv (h_signer h1)" for h1 options cdj userID
    unfolding create_confirmed_def Let_def
    by (intro safely_or_mapped MakeCredentialDirect_safely safely_if create_prf_safely computePRFResult_safely assms(1) that)
       (simp_all add: keeps_refl)
  show ?thesis
    unfolding handleCreate_def error_reply_def
    by (intro safely_case_sum safely_case_option safely_if confirm_user_safely k assms(2)) (simp_all add: keeps_refl assms(2))
qed

lemma handleGet_safely:
  assumes "e_signer E = S" "inv (h_signer h)" "\<And>options. wj_get J raw = Inr options \<Longrightarrow> \<not> null_eval options"
  shows "safely inv knows h (handleGet E J i origin raw h)"
proof -
  have k: "safely inv knows h1 (get_confirmed E i options cdj h1)"
    if "inv (h_signer h1)" "wj_get J raw = Inr options" for h1 options cdj
    unfolding get_confirmed_def Let_def
    using assms(3) [OF that(2)]
    by (intro safely_or_mapped GetAssertionDirect_safely computePRFResult_safely assms(1) that(1))
       (auto simp: keeps_refl dest: select_prf_panic)
  show ?thesis
    unfolding handleGet_def error_reply_def
    by (intro safely_case_sum safely_case_option confirm_user_safely k assms(2)) (simp_all add: keeps_refl assms(2))
qed

lemma HandleRequest_safely:
  assumes "e_signer E = S" "inv (h_signer h)"
    and "\<And>env options. wj_envelope J msg = Inr env \<Longrightarrow> env_Type env = ''get'' \<Longrightarrow>
           wj_get J (env_Options env) = Inr options \<Longrightarrow> \<not> null_eval options"
  shows "safely inv knows h (HandleRequest E J msg h)"
  unfolding HandleRequest_def error_reply_def
  by (intro safely_case_sum safely_if handleCreate_safely handleGet_safely assms) (simp_all add: keeps_refl assms(2))

end

text \<open>
  A reply to a request of type \<open>ty\<close> with identifier \<open>ident\<close>: what the extension needs to find the request it
  answers and to build the credential or the exception for the page.
\<close>

definition reply_for :: "string \<Rightarrow> string \<Rightarrow> web_reply \<Rightarrow> bool" where
  "reply_for ty ident r \<longleftrightarrow>
     (case r of
        ErrorReply e \<Rightarrow> er_Type e = ty \<and> er_RequestID e = ident \<and> \<not> er_Success e \<and>
          we_Name (er_Error e) \<in> {ErrNameNotAllowed, ErrNameInvalidState, ErrNameTypeError, ErrNameUnknown}
      | CreateReply c \<Rightarrow> ty = ''create'' \<and> cre_Type c = ty \<and> cre_RequestID c = ident \<and> cre_Success c \<and>
          (\<exists>cr a. cre_Credential c = Some cr \<and> cr_Response cr = Attestation a \<and> cr_Type cr = ''public-key'' \<and>
             cr_RawID cr = cr_ID cr \<and> (\<exists>b. DecodeString (cr_ID cr) = Some b))
      | GetReply g \<Rightarrow> ty = ''get'' \<and> get_Type g = ty \<and> get_RequestID g = ident \<and> get_Success g \<and>
          (\<exists>cr a. get_Credential g = Some cr \<and> cr_Response cr = Assertion a \<and> cr_Type cr = ''public-key'' \<and>
             cr_RawID cr = cr_ID cr \<and> (\<exists>b. DecodeString (cr_ID cr) = Some b)))"

definition replies :: "string \<Rightarrow> string \<Rightarrow> web_reply res \<times> 'h \<Rightarrow> bool" where
  "replies ty ident p \<longleftrightarrow> (case fst p of Ok r \<Rightarrow> reply_for ty ident r | Err _ \<Rightarrow> False | Panic _ \<Rightarrow> True)"

lemma replies_error:
  "n \<in> {ErrNameNotAllowed, ErrNameInvalidState, ErrNameTypeError, ErrNameUnknown} \<Longrightarrow>
   replies ty ident (error_reply ty ident n m, h)"
  by (simp add: replies_def error_reply_def reply_for_def NewErrorResponse_def)

lemma replies_mapped: "replies ty ident (mapped_error ty ident e, h)"
  by (simp add: replies_def mapped_error_def reply_for_def MapErrorToResponse_def NewErrorResponse_def)

lemma replies_or_mapped:
  "(\<And>a h. replies ty ident (k a h)) \<Longrightarrow> replies ty ident (or_mapped ty ident f p k)"
  by (cases p; cases "fst p") (auto simp: replies_mapped, simp_all add: replies_def)

lemma replies_confirm_user:
  "(\<And>h. replies ty ident (k h)) \<Longrightarrow> replies ty ident (confirm_user ty ident prompt cdh rph h k)"
  using confirm_user_cases [of prompt cdh rph h ty ident k] by (auto simp: replies_mapped)

lemma create_confirmed_replies: "replies ''create'' ident (create_confirmed E ident options cdj userID h)"
  unfolding create_confirmed_def Let_def
  by (intro replies_or_mapped) (simp add: replies_def reply_for_def create_response_def)

lemma get_confirmed_replies: "replies ''get'' ident (get_confirmed E ident options cdj h)"
  unfolding get_confirmed_def Let_def
  by (intro replies_or_mapped) (simp add: replies_def reply_for_def get_response_def)

lemma handleCreate_replies: "replies ''create'' ident (handleCreate E J ident origin raw h)"
  unfolding handleCreate_def
  by (auto split: sum.split option.split intro: replies_error replies_confirm_user create_confirmed_replies)

lemma handleGet_replies: "replies ''get'' ident (handleGet E J ident origin raw h)"
  unfolding handleGet_def
  by (auto split: sum.split option.split intro: replies_error replies_confirm_user get_confirmed_replies)

text \<open>What \<^verbatim>\<open>HandleRequest\<close> owes the message.\<close>

definition answers_message :: "WebJson \<Rightarrow> bytes \<Rightarrow> web_reply \<Rightarrow> bool" where
  "answers_message J msg r \<longleftrightarrow>
     (case wj_envelope J msg of
        Inl e \<Rightarrow> reply_for [] [] r
      | Inr env \<Rightarrow> reply_for (env_Type env) (env_RequestID env) r)"

lemma HandleRequest_replies:
  "(case fst (HandleRequest E J msg h) of
      Ok r \<Rightarrow> answers_message J msg r
    | Err e \<Rightarrow> False
    | Panic m \<Rightarrow> True)"
proof (cases "wj_envelope J msg")
  case (Inl e)
  then show ?thesis by (simp add: answers_message_def HandleRequest_def error_reply_def reply_for_def NewErrorResponse_def)
next
  case (Inr env)
  have "replies (env_Type env) (env_RequestID env) (HandleRequest E J msg h)"
    using handleCreate_replies [of "env_RequestID env"] handleGet_replies [of "env_RequestID env"]
    by (auto simp: HandleRequest_def Inr intro: replies_error)
  with Inr show ?thesis by (simp add: answers_message_def replies_def split: res.splits)
qed

lemma HandleRequest_no_Err: "fst (HandleRequest E J msg h) \<noteq> Err e"
  using HandleRequest_replies [where E = E and J = J and msg = msg and h = h] by (auto split: res.splits)

section \<open>Properties\<close>

text \<open>
  C37. Every reply answers its request: it carries the type and the identifier of the request (empty ones when
  the message is not an envelope), a successful one is of the form that fits the type, with
  the credential's identifier twice in base64url, and a failure names one of the four exceptions
  the extension can raise. In particular a Go error never escapes as such.
\<close>

theorem reply_matches_request:
  "(case fst (HandleRequest E J msg h) of
      Ok r \<Rightarrow> (case wj_envelope J msg of Inl e \<Rightarrow> reply_for [] [] r | Inr env \<Rightarrow> reply_for (env_Type env) (env_RequestID env) r)
    | Err e \<Rightarrow> False
    | Panic m \<Rightarrow> True)"
  by (rule HandleRequest_replies [unfolded answers_message_def])

text \<open>
  C38. The one request that ends the process: a get request whose \<^verbatim>\<open>evalByCredential\<close> maps the credential
  that is used to \<^verbatim>\<open>null\<close>. On a backend that keeps the contract, with the allowed credential known to it and the
  user's confirmation given, \<^verbatim>\<open>handleGet\<close> dereferences a nil pointer after it has made the assertion, which
  is lost.
\<close>

theorem null_eval_crashes:
  assumes "signer_contract (e_signer E) ok knows verify" "ok (h_signer h)"
    and "knows (h_signer h) credID (HashRPID (go_RPID options)) x y"
    and "wj_get J raw = Inr options" "DecodeString (go_Challenge options) = Some challenge"
    and "decode_ids (go_AllowCredentials options) = [credID]"
    and "go_Extensions options = Some \<lparr>ge_PRF = Some \<lparr>prf_Eval = ev, prf_EvalByCredential = Some evals\<rparr>\<rparr>"
    and "map_of evals (EncodeToString credID) = Some None"
    and "BuildClientDataJSON ClientDataTypeGet challenge origin = Inr cdj"
    and "ask_presence (''Sign in to '' @ go_RPID options) (ClientDataHash cdj) (HashRPID (go_RPID options))
           (h_presence h) = (Answer r, P)" "res_OK r"
  shows "\<exists>as h'. GetAssertionDirect E \<lparr>gp_ClientDataHash = ClientDataHash cdj, gp_RPID = go_RPID options,
       gp_AllowCredentials = [credID], gp_HmacSecretInput = None\<rparr> (h\<lparr>h_presence := P\<rparr>) = (Ok as, h') \<and>
     handleGet E J i origin raw h = (Panic ''nil pointer dereference'', h')"
proof -
  let ?p = "\<lparr>gp_ClientDataHash = ClientDataHash cdj, gp_RPID = go_RPID options,
       gp_AllowCredentials = [credID], gp_HmacSecretInput = None\<rparr>"
  have "ok (h_signer (h\<lparr>h_presence := P\<rparr>))" using assms(2) by simp
  from signer_contract.direct_signs [OF assms(1) refl this, of ?p credID x y] assms(3) obtain as h1 where
    d: "GetAssertionDirect E ?p (h\<lparr>h_presence := P\<rparr>) = (Ok as, h1)" and a: "gs_CredentialID as = credID"
    by (auto simp: ClientDataHash_def)
  have s: "select_prf_eval options [credID] credID = Panic ''nil pointer dereference''"
    by (simp add: select_prf_eval_def assms(7,8))
  have "get_confirmed E i options cdj (h\<lparr>h_presence := P\<rparr>) = (Panic ''nil pointer dereference'', h1)"
    by (simp add: get_confirmed_def Let_def assms(6) d a s)
  then have "handleGet E J i origin raw h = (Panic ''nil pointer dereference'', h1)"
    by (simp only: handleGet_def assms(4,5,9) sum.case option.case confirm_user_yes [OF assms(10,11)])
  with d show ?thesis by blast
qed

lemma null_eval_crashes_witness:
  "\<exists>credID m h'. handleGet env0 (json0 (gopts0 (EncodeToString credID)
       (Some \<lparr>ge_PRF = Some \<lparr>prf_Eval = None, prf_EvalByCredential = Some [(EncodeToString credID, None)]\<rparr>\<rparr>)))
     ''8'' ''https://a.org'' [] (asked\<lparr>h_signer := m\<rparr>) = (Panic ''nil pointer dereference'', h')"
proof -
  from mem_RegisterKey_ok [OF mem0_inv] obtain c x y m where
    m: "mem_inv crypto0 m" "mem_knows crypto0 m c (HashRPID ''a.org'') x y" by blast
  let ?g = "gopts0 (EncodeToString c)
       (Some \<lparr>ge_PRF = Some \<lparr>prf_Eval = None, prf_EvalByCredential = Some [(EncodeToString c, None)]\<rparr>\<rparr>)"
  let ?h = "asked\<lparr>h_signer := m\<rparr>"
  have k: "mem_inv crypto0 (h_signer ?h)" "mem_knows crypto0 (h_signer ?h) c (HashRPID (go_RPID ?g)) x y"
    using m by (simp_all add: gopts0_def)
  obtain cdj where b: "BuildClientDataJSON ClientDataTypeGet [1, 2] ''https://a.org'' = Inr cdj"
    by (simp add: BuildClientDataJSON_def marshal_client_data_def)
  obtain P where P: "ask_presence (''Sign in to '' @ go_RPID ?g) (ClientDataHash cdj) (HashRPID (go_RPID ?g))
      (h_presence ?h) = (Answer yes, P)" using ask_yes by (simp del: append.simps) blast
  have g: "wj_get (json0 ?g) [] = Inr ?g" "DecodeString (go_Challenge ?g) = Some [1, 2]"
    "decode_ids (go_AllowCredentials ?g) = [c]" "res_OK yes"
    "go_Extensions ?g = Some \<lparr>ge_PRF = Some \<lparr>prf_Eval = None, prf_EvalByCredential = Some [(EncodeToString c, None)]\<rparr>\<rparr>"
    "map_of [(EncodeToString c, None)] (EncodeToString c) = Some (None :: PRFEval option)"
    by (simp_all add: gopts0_def json0_def yes_def)
  from null_eval_crashes [OF env0_contract k g(1-3,5,6) b P g(4), of "''8''"] show ?thesis by blast
qed

end
