(* ===== verification/Dispatch.thy ===== *)
theory Dispatch
  imports Signer
begin

text \<open>
  A variable of the interface type \<^verbatim>\<open>ctap2.Signer\<close> of \<^verbatim>\<open>ctap2/ctap2.go\<close> that holds one of two implementations:
  its state is the sum of theirs and a call is dispatched on it. The contract carries over.
\<close>

section \<open>The interface value\<close>

definition either_signer :: "'t Signer \<Rightarrow> 'm Signer \<Rightarrow> ('t + 'm) Signer" where
  "either_signer T M =
     \<lparr>RegisterKey = (\<lambda>a s. case s of Inl t \<Rightarrow> map_prod id Inl (RegisterKey T a t)
                                     | Inr m \<Rightarrow> map_prod id Inr (RegisterKey M a m)),
      SignASN1 = (\<lambda>h a d s. case s of Inl t \<Rightarrow> map_prod id Inl (SignASN1 T h a d t)
                                        | Inr m \<Rightarrow> map_prod id Inr (SignASN1 M h a d m)),
      Counter = (\<lambda>s. case s of Inl t \<Rightarrow> map_prod id Inl (Counter T t)
                               | Inr m \<Rightarrow> map_prod id Inr (Counter M m)),
      DeriveCredRandom = (\<lambda>h s. case s of Inl t \<Rightarrow> map_prod id Inl (DeriveCredRandom T h t)
                                          | Inr m \<Rightarrow> map_prod id Inr (DeriveCredRandom M h m))\<rparr>"

lemma either_simps [simp]:
  "RegisterKey (either_signer T M) a (Inl t) = map_prod id Inl (RegisterKey T a t)"
  "RegisterKey (either_signer T M) a (Inr m) = map_prod id Inr (RegisterKey M a m)"
  "SignASN1 (either_signer T M) h a d (Inl t) = map_prod id Inl (SignASN1 T h a d t)"
  "SignASN1 (either_signer T M) h a d (Inr m) = map_prod id Inr (SignASN1 M h a d m)"
  "Counter (either_signer T M) (Inl t) = map_prod id Inl (Counter T t)"
  "Counter (either_signer T M) (Inr m) = map_prod id Inr (Counter M m)"
  "DeriveCredRandom (either_signer T M) h (Inl t) = map_prod id Inl (DeriveCredRandom T h t)"
  "DeriveCredRandom (either_signer T M) h (Inr m) = map_prod id Inr (DeriveCredRandom M h m)"
  by (simp_all add: either_signer_def)

lemma map_prod_either:
  "map_prod id Inl p = (r, s) \<longleftrightarrow> (\<exists>t. p = (r, t) \<and> s = Inl t)"
  "map_prod id Inr q = (r, s) \<longleftrightarrow> (\<exists>m. q = (r, m) \<and> s = Inr m)"
  by (cases p, auto) (cases q, auto)

lemma either_signer_contract:
  assumes "signer_contract T tok tknows verify" "signer_contract M mok mknows verify"
  shows "signer_contract (either_signer T M) (case_sum tok mok) (case_sum tknows mknows) verify"
proof (unfold_locales, goal_cases)
  case (1 s a h x y s')
  with assms [THEN signer_contract.register_knows] show ?case by (cases s) (auto simp: map_prod_either)
next
  case (2 s a h x y s')
  with assms [THEN signer_contract.register_length] show ?case by (cases s) (auto simp: map_prod_either)
next
  case (3 s h a x y d)
  with assms [THEN signer_contract.sign_known] show ?case by (cases s) (fastforce simp: map_prod_either)+
next
  case (4 s h r s')
  with assms [THEN signer_contract.derive_length] show ?case by (cases s) (auto simp: map_prod_either)
next
  case (5 s a p s')
  with assms [THEN signer_contract.register_keeps] show ?case by (cases s) (auto simp: map_prod_either)
next
  case (6 s g a d q s')
  with assms [THEN signer_contract.sign_keeps] show ?case by (cases s) (auto simp: map_prod_either)
next
  case (7 s n s')
  with assms [THEN signer_contract.counter_keeps] show ?case by (cases s) (auto simp: map_prod_either)
next
  case (8 s g q s')
  with assms [THEN signer_contract.derive_keeps] show ?case by (cases s) (auto simp: map_prod_either)
qed

lemma either_contract:
  assumes "stable_secret T tok tknows verify tsecret" "stable_secret M mok mknows verify msecret"
  shows "stable_secret (either_signer T M) (case_sum tok mok) (case_sum tknows mknows) verify (case_sum tsecret msecret)"
proof (intro stable_secret.intro stable_secret_axioms.intro, goal_cases)
  case 1
  show ?case by (rule either_signer_contract) (rule assms [THEN stable_secret.axioms(1)])+
next
  case (2 s h q s')
  with assms [THEN stable_secret.derive_secret] show ?case by (cases s) (auto simp: map_prod_either)
next
  case (3 s a p s')
  with assms [THEN stable_secret.register_secret] show ?case by (cases s) (auto simp: map_prod_either)
next
  case (4 s g a d q s')
  with assms [THEN stable_secret.sign_secret] show ?case by (cases s) (auto simp: map_prod_either)
next
  case (5 s n s')
  with assms [THEN stable_secret.counter_secret] show ?case by (cases s) (auto simp: map_prod_either)
qed

text \<open>With the invariant that a backend is never in use, its half of the contract is empty.\<close>

lemma void_contract: "stable_secret M (\<lambda>_. False) mknows verify msecret"
  by unfold_locales simp_all

end
