(* ===== verification/Tpmfido.thy ===== *)
theory Tpmfido
  imports HostLoop WebSafety TpmBackend Dispatch
begin

text \<open>
  \<^verbatim>\<open>tpmfido.go\<close>: \<^verbatim>\<open>main\<close> chooses the backend, builds the handlers and runs the messaging loop. \<open>Libs\<close>
  are the packages that are not in the repository, \<open>Machine\<close> is what the process finds: flags, programs,
  home directory, files, devices, clocks, the user's answers and the standard streams.
\<close>

section \<open>Paths\<close>

text \<open>\<^verbatim>\<open>filepath.Clean\<close> and \<^verbatim>\<open>filepath.Join\<close> on Unix.\<close>

fun split_path :: "string \<Rightarrow> string list" where
  "split_path [] = [[]]"
| "split_path (c # cs) =
     (if c = CHR ''/'' then [] # split_path cs
      else (case split_path cs of [] \<Rightarrow> [[c]] | p # ps \<Rightarrow> (c # p) # ps))"

fun clean_parts :: "bool \<Rightarrow> string list \<Rightarrow> string list \<Rightarrow> string list" where
  "clean_parts rooted acc [] = rev acc"
| "clean_parts rooted acc (p # ps) =
     (if p = [] \<or> p = ''.'' then clean_parts rooted acc ps
      else if p = ''..'' then
        (case acc of
           [] \<Rightarrow> clean_parts rooted (if rooted then [] else [''..'']) ps
         | q # qs \<Rightarrow> clean_parts rooted (if q = ''..'' then ''..'' # acc else qs) ps)
      else clean_parts rooted (p # acc) ps)"

fun join_slash :: "string list \<Rightarrow> string" where
  "join_slash [] = []"
| "join_slash [p] = p"
| "join_slash (p # q # ps) = p @ [CHR ''/''] @ join_slash (q # ps)"

definition Clean :: "string \<Rightarrow> string" where
  "Clean path =
     (let rooted = (path \<noteq> [] \<and> hd path = CHR ''/'');
          out = join_slash (clean_parts rooted [] (split_path path))
      in if rooted then CHR ''/'' # out else if out = [] then ''.'' else out)"

definition filepath_Join :: "string list \<Rightarrow> string" where
  "filepath_Join elem =
     (case dropWhile (\<lambda>e. e = []) elem of [] \<Rightarrow> [] | e # es \<Rightarrow> Clean (join_slash (e # es)))"

definition storagePath :: "string \<Rightarrow> string" where
  "storagePath homeDir = filepath_Join [homeDir, ''.local'', ''share'', ''tpm-fido'', ''credentials.json'']"

lemma storagePath_home: "storagePath ''/home/u/'' = ''/home/u/.local/share/tpm-fido/credentials.json''"
  by code_simp

section \<open>The process\<close>

record 'd Libs =
  l_tpm :: "'d TpmLib"
  l_crypto :: Crypto
  l_cbor :: Cbor
  l_json :: JsonCodec
  l_web :: WebJson
  l_reply :: "web_reply \<Rightarrow> gerr + bytes"

record 'd Machine =
  m_backend :: string
  m_device :: string
  m_found :: "string \<Rightarrow> bool"
  m_home :: "gerr + string"
  m_fs :: FS
  m_tpm :: 'd
  m_signer_rng :: Rng
  m_rng :: Rng
  m_clock :: "nat \<Rightarrow> int"
  m_now :: int
  m_answers :: "(wait_outcome \<times> bool) list"
  m_cleared :: "bool list"
  m_stdin :: Reader
  m_stdout :: Writer

text \<open>\<^verbatim>\<open>log.Fatalf\<close>, a panic before the loop, or the end of the loop.\<close>

datatype exit = Fatal string | Crash string | Stopped loop_end

definition or_fatal :: "string \<Rightarrow> 'a res \<Rightarrow> exit + 'a" where
  "or_fatal txt r = (case r of Ok a \<Rightarrow> Inr a | Err e \<Rightarrow> Inl (Fatal (txt @ err_text e)) | Panic m \<Rightarrow> Inl (Crash m))"

definition or_exit :: "exit + 'a \<Rightarrow> ('a \<Rightarrow> exit + 'b) \<Rightarrow> exit + 'b" where
  "or_exit p k = (case p of Inl x \<Rightarrow> Inl x | Inr a \<Rightarrow> k a)"

lemma or_exit_simps [simp]: "or_exit (Inl x) k = Inl x" "or_exit (Inr a) k = k a"
  by (simp_all add: or_exit_def)

lemma or_exit_eq_Inr: "or_exit p k = Inr b \<longleftrightarrow> (\<exists>a. p = Inr a \<and> k a = Inr b)"
  by (cases p) simp_all

lemma or_fatal_Ok [simp]: "or_fatal txt (Ok a) = Inr a"
  by (simp add: or_fatal_def)

lemma or_fatal_eq_Inr [simp]: "or_fatal txt r = Inr a \<longleftrightarrow> r = Ok a"
  by (simp add: or_fatal_def split: res.split)

definition init_signer :: "'d Libs \<Rightarrow> 'd Machine \<Rightarrow> exit + ('d TPM + Mem)" where
  "init_signer L M =
     (if m_backend M = ''tpm'' then
        (case NewTPM (l_tpm L) (m_device M) (m_tpm M) (m_signer_rng M) (m_clock M) of
           (Inl e, _) \<Rightarrow> Inl (Fatal (''Failed to initialize TPM backend: '' @ err_text e))
         | (Inr _, t) \<Rightarrow> Inr (Inl t))
      else if m_backend M = ''memory'' then
        or_exit (or_fatal ''Failed to initialize memory backend: '' (mem_New (m_signer_rng M))) (\<lambda>m. Inr (Inr m))
      else Inl (Fatal (''Unknown backend: '' @ m_backend M @ '' (use 'tpm' or 'memory')'')))"

definition start :: "'d Libs \<Rightarrow> 'd Machine \<Rightarrow> exit + ('d TPM + Mem) Handler" where
  "start L M =
     or_exit (init_signer L M) (\<lambda>signer.
     or_exit (or_fatal [] (NewUserPresence (m_found M))) (\<lambda>presence.
     or_exit (case m_home M of Inl e \<Rightarrow> Inl (Fatal (''Failed to get home directory: '' @ err_text e)) | Inr d \<Rightarrow> Inr d)
       (\<lambda>homeDir.
     (case NewCredentialStorage (l_json L) (storagePath homeDir) (m_fs M) of
        (r, fs) \<Rightarrow>
          or_exit (or_fatal ''Failed to create credential storage: '' r) (\<lambda>storage.
            Inr (NewHandler signer \<lparr>pr_up = presence, pr_script = m_answers M, pr_cleared = m_cleared M\<rparr> (Some storage) fs (m_rng M) (m_now M)))))))"

definition host_env :: "'d Libs \<Rightarrow> ('d TPM + Mem) Env" where
  "host_env L =
     \<lparr>e_signer = either_signer (tpm_signer (l_tpm L)) (mem_signer (l_crypto L)), e_cbor = l_cbor L,
      e_json = l_json L, e_crypto = l_crypto L\<rparr>"

text \<open>The handler as the loop calls it; \<open>HandleRequest\<close> returns no error (\<open>HandleRequest_no_Err\<close>).\<close>

definition host_reply :: "'s Env \<Rightarrow> WebJson \<Rightarrow> bytes \<Rightarrow> 's Handler \<Rightarrow> (string + web_reply) \<times> 's Handler" where
  "host_reply E J msg h =
     (case HandleRequest E J msg h of
        (Ok r, h1) \<Rightarrow> (Inr r, h1)
      | (Err e, h1) \<Rightarrow> (Inl (err_text e), h1)
      | (Panic m, h1) \<Rightarrow> (Inl m, h1))"

definition main :: "'d Libs \<Rightarrow> 'd Machine \<Rightarrow> exit \<times> Writer \<times> ('d TPM + Mem) Handler option" where
  "main L M =
     (case start L M of
        Inl x \<Rightarrow> (x, m_stdout M, None)
      | Inr h \<Rightarrow>
          (case runNativeMessaging (host_reply (host_env L) (l_web L)) (l_reply L) (m_stdin M) (m_stdout M) h of
             (e, _, out, h1) \<Rightarrow> (Stopped e, out, Some h1)))"

section \<open>Starting\<close>

text \<open>Either backend is a signer with stable secrets, and so is the interface value.\<close>

abbreviation host_inv where
  "host_inv L V good M \<equiv>
     case_sum (tpm_inv (l_tpm L) V (m_device M) good (ecdsaVerify (l_crypto L))) (mem_inv (l_crypto L))"

abbreviation host_knows where
  "host_knows L V \<equiv> case_sum (tpm_knows (l_tpm L) V) (mem_knows (l_crypto L))"

abbreviation mem_secret :: "Mem \<Rightarrow> bytes \<Rightarrow> bytes res" where
  "mem_secret m h \<equiv> Ok (hmac_sha256 (masterPrivateKey m) h)"

interpretation host: stable_secret "either_signer (tpm_signer T) (mem_signer C)"
  "case_sum (tpm_inv T V path good (ecdsaVerify C)) (mem_inv C)" "case_sum (tpm_knows T V) (mem_knows C)"
  "ecdsaVerify C" "case_sum (\<lambda>t. tpm_secret) mem_secret"
  for T :: "'d TpmLib" and V path good C
  by (rule either_contract [OF tpm.stable_secret_axioms mem.stable_secret_axioms])

text \<open>
  What the machine must give the backend that was chosen, and a credentials file, if there is one, in
  which every user has at most one credential.
\<close>

definition machine_ok :: "'d Libs \<Rightarrow> 'd TpmView \<Rightarrow> ('d \<Rightarrow> bool) \<Rightarrow> 'd Machine \<Rightarrow> bool" where
  "machine_ok L V good M \<longleftrightarrow>
     rng_good (m_signer_rng M) \<and> rng_good (m_rng M) \<and> crypto_ok (l_crypto L) \<and>
     (m_backend M = ''tpm'' \<longrightarrow>
        tpm_frame (l_tpm L) V \<and> tpm_stays (l_tpm L) good \<and>
        tpm_works (l_tpm L) V (m_device M) good (ecdsaVerify (l_crypto L)) \<and> hkdf_long (l_tpm L) \<and>
        good (m_tpm M) \<and> objs V (m_tpm M) = Map.empty)"

definition file_ok :: "'d Libs \<Rightarrow> 'd Machine \<Rightarrow> bool" where
  "file_ok L M \<longleftrightarrow>
     (\<forall>home data l. m_home M = Inr home \<longrightarrow> files (m_fs M) (storagePath home) = Some data \<longrightarrow>
        js_unmarshal (l_json L) data = Inr l \<longrightarrow> distinct (map (user_key \<circ> the) l))"

lemma init_signer_inv:
  assumes "machine_ok L V good M" "init_signer L M = Inr s"
  shows "host_inv L V good M s"
proof (cases "m_backend M = ''tpm''")
  case True
  obtain r d where o: "OpenTPM (l_tpm L) (m_device M) (m_tpm M) = (r, d)" by fastforce
  from True assms(1) have f: "tpm_frame (l_tpm L) V" "tpm_stays (l_tpm L) good" "good (m_tpm M)"
    "objs V (m_tpm M) = Map.empty" by (simp_all add: machine_ok_def)
  from frame_open [OF f(1) o] f(4) have "objs V d = Map.empty" by simp
  with frame_close [OF f(1), of d] have c: "objs V (CloseTPM (l_tpm L) d) = Map.empty"
    by (simp add: map_le_empty_iff)
  have "good d" "good (CloseTPM (l_tpm L) d)"
    using f(2,3) o unfolding tpm_stays_def by (metis snd_conv)+
  with True assms c o show ?thesis
    by (auto simp: init_signer_def NewTPM_def machine_ok_def tpm_inv_def split: sum.splits)
next
  case False
  with assms mem_New_inv [of "m_signer_rng M" "l_crypto L"] show ?thesis
    by (auto simp: init_signer_def machine_ok_def or_exit_eq_Inr split: if_splits)
qed

lemma init_signer_tpm:
  assumes "m_backend M = ''tpm''" "init_signer L M = Inr s" "tpm_frame (l_tpm L) V"
  shows "\<exists>t. s = Inl t \<and> made V (tpm_dev t) = made V (m_tpm M)"
proof -
  obtain r d where o: "OpenTPM (l_tpm L) (m_device M) (m_tpm M) = (r, d)" by fastforce
  from frame_open [OF assms(3) o] frame_close [OF assms(3), of d]
  have "made V (CloseTPM (l_tpm L) d) = made V (m_tpm M)" by simp
  with o assms(1,2) show ?thesis by (auto simp: init_signer_def NewTPM_def split: sum.splits)
qed

lemma files_faults:
  "MkdirAll fs = (e, fs') \<Longrightarrow> files fs' = files fs" "Stat p fs = (e, fs') \<Longrightarrow> files fs' = files fs"
  by (auto simp: MkdirAll_def Stat_def next_fault_def split: prod.splits list.splits fault.splits)

lemma NewCredentialStorage_ok:
  assumes "NewCredentialStorage J path fs = (Ok cs, fs')"
    and "\<And>data l. files fs path = Some data \<Longrightarrow> js_unmarshal J data = Inr l \<Longrightarrow> distinct (map (user_key \<circ> the) l)"
  shows "store_ok cs"
proof -
  from assms(1) obtain fs1 e fs2 where m: "MkdirAll fs = (None, fs1)" and s: "Stat path fs1 = (e, fs2)"
    by (auto simp: NewCredentialStorage_def Let_def split: prod.splits option.splits)
  have f: "files fs2 = files fs" using files_faults(1) [OF m] files_faults(2) [OF s] by simp
  have r: "ReadFile path fs2 = (Inr data, fs3) \<Longrightarrow> files fs path = Some data" for data fs3
    by (auto simp: ReadFile_def next_fault_def f [symmetric] split: list.splits fault.splits option.splits)
  show ?thesis
    using assms(1) m s r assms(2) rebuildIndexes_ok empty_storage_ok
    by (fastforce simp: NewCredentialStorage_def Let_def load_def store_ok_def empty_storage_def comp_def
        split: prod.splits option.splits sum.splits if_splits)
qed

lemma NewCredentialStorage_path: "NewCredentialStorage J path fs = (Ok cs, fs') \<Longrightarrow> filePath cs = path"
  by (auto simp: NewCredentialStorage_def Let_def load_def empty_storage_def rebuildIndexes_def
      split: prod.splits option.splits res.splits sum.splits if_splits)

lemma start_stages:
  assumes "start L M = Inr h"
  obtains s up homeDir cs fs where "init_signer L M = Inr s" "NewUserPresence (m_found M) = Ok up" "m_home M = Inr homeDir"
    "NewCredentialStorage (l_json L) (storagePath homeDir) (m_fs M) = (Ok cs, fs)"
    "h = NewHandler s \<lparr>pr_up = up, pr_script = m_answers M, pr_cleared = m_cleared M\<rparr> (Some cs) fs (m_rng M) (m_now M)"
proof -
  from assms obtain s up d where s: "init_signer L M = Inr s" and u: "NewUserPresence (m_found M) = Ok up"
    and d: "(case m_home M of Inl e \<Rightarrow> Inl (Fatal (''Failed to get home directory: '' @ err_text e)) | Inr d \<Rightarrow> Inr d) = Inr d"
    and n: "(case NewCredentialStorage (l_json L) (storagePath d) (m_fs M) of
        (r, fs) \<Rightarrow> or_exit (or_fatal ''Failed to create credential storage: '' r) (\<lambda>storage.
            Inr (NewHandler s \<lparr>pr_up = up, pr_script = m_answers M, pr_cleared = m_cleared M\<rparr> (Some storage) fs (m_rng M) (m_now M)))) = Inr h"
    unfolding start_def or_exit_eq_Inr or_fatal_eq_Inr by blast
  obtain r fs where N: "NewCredentialStorage (l_json L) (storagePath d) (m_fs M) = (r, fs)" by fastforce
  with n obtain cs where "r = Ok cs" "h = NewHandler s \<lparr>pr_up = up, pr_script = m_answers M, pr_cleared = m_cleared M\<rparr> (Some cs) fs (m_rng M) (m_now M)"
    by (auto simp: or_exit_eq_Inr)
  moreover from d have "m_home M = Inr d" by (simp split: sum.splits)
  ultimately show thesis using that s u N by blast
qed

lemma start_stdin: "start L (M\<lparr>m_stdin := stdin\<rparr>) = start L M"
  by (simp add: start_def init_signer_def)

lemma start_signer: "start L M = Inr h \<Longrightarrow> \<exists>s. init_signer L M = Inr s \<and> h_signer h = s"
  by (elim start_stages) (simp add: NewHandler_def)

lemma start_ok:
  assumes "machine_ok L V good M" "file_ok L M" "start L M = Inr h"
  shows "handler_ok (host_inv L V good M) h \<and> rng_good (h_rng h)"
  using assms(3)
proof (cases rule: start_stages)
  case (1 s up homeDir cs fs)
  have "store_ok cs" by (rule NewCredentialStorage_ok [OF 1(4)]) (use assms(2) 1(3) in \<open>auto simp: file_ok_def\<close>)
  with init_signer_inv [OF assms(1) 1(1)] assms(1) show ?thesis
    by (simp add: 1(5) NewHandler_def handler_ok_def storage_ok_def assertion_ok_def machine_ok_def)
qed

section \<open>Serving\<close>

text \<open>A message that maps a credential to \<^verbatim>\<open>null\<close>.\<close>

definition null_message :: "WebJson \<Rightarrow> bytes \<Rightarrow> bool" where
  "null_message J msg \<longleftrightarrow>
     (\<exists>env options. wj_envelope J msg = Inr env \<and> env_Type env = ''get'' \<and>
        wj_get J (env_Options env) = Inr options \<and> null_eval options)"

context signer_contract
begin

lemma host_reply_keeps:
  assumes "e_signer E = S" "handler_ok inv h" "host_reply E J msg h = (x, h1)" "\<not> null_message J msg"
  shows "handler_ok inv h1 \<and> (\<exists>r. x = Inr r)"
proof -
  obtain q h2 where q: "HandleRequest E J msg h = (q, h2)" by fastforce
  have i: "inv (h_signer h)" using assms(2) by (simp add: handler_ok_def)
  have "safely inv knows h (HandleRequest E J msg h)"
    by (rule HandleRequest_safely [OF assms(1) i]) (use assms(4) in \<open>auto simp: null_message_def\<close>)
  with q have k: "keeps inv knows h h2" "\<not> is_panic q" by simp_all
  moreover have "q \<noteq> Err e" for e using HandleRequest_no_Err [of E J msg h e] q by simp
  ultimately show ?thesis
    using assms(2,3) q by (cases q) (auto simp: host_reply_def handler_ok_def keeps_def grows_def)
qed

end

text \<open>Serving a list of messages: each gets its reply, in order.\<close>

lemma serve_replies:
  assumes "signer_contract (e_signer E) ok knows verify"
  shows "handler_ok ok h \<Longrightarrow> \<forall>m \<in> set ms. \<not> null_message J m \<Longrightarrow>
    \<exists>rs h'. serve (host_reply E J) ms h = (map Inr rs, h') \<and> handler_ok ok h' \<and> list_all2 (answers_message J) ms rs"
proof (induction ms arbitrary: h)
  case (Cons m ms)
  obtain x h1 where x: "host_reply E J m h = (x, h1)" by fastforce
  from signer_contract.host_reply_keeps [OF assms refl Cons.prems(1) x] Cons.prems(2) obtain r where
    r: "x = Inr r" and h1: "handler_ok ok h1" by auto
  then have "answers_message J m r"
    using HandleRequest_replies [where E = E and J = J and msg = m and h = h] x by (auto simp: host_reply_def split: prod.splits res.splits)
  moreover from Cons.IH [OF h1] Cons.prems(2) obtain rs h2 where
    "serve (host_reply E J) ms h1 = (map Inr rs, h2)" "handler_ok ok h2" "list_all2 (answers_message J) ms rs" by auto
  ultimately have "serve (host_reply E J) (m # ms) h = (map Inr (r # rs), h2) \<and> handler_ok ok h2 \<and>
      list_all2 (answers_message J) (m # ms) (r # rs)" by (simp add: x r)
  then show ?case by blast
qed simp

lemma init_signer_iff:
  "(\<exists>s. init_signer L M = Inr s) \<longleftrightarrow>
     m_backend M = ''tpm'' \<and> (\<exists>d. OpenTPM (l_tpm L) (m_device M) (m_tpm M) = (Inr (), d)) \<or>
     m_backend M = ''memory'' \<and> is_ok (fst (mustRand 32 (m_signer_rng M)))"
proof -
  obtain r d where "OpenTPM (l_tpm L) (m_device M) (m_tpm M) = (r, d)" by fastforce
  moreover obtain q g where "mustRand 32 (m_signer_rng M) = (q, g)" by fastforce
  ultimately show ?thesis
    by (cases r; cases q) (auto simp: init_signer_def NewTPM_def mem_New_def KeySize_def or_fatal_def)
qed

lemma start_iff:
  "(\<exists>h. start L M = Inr h) \<longleftrightarrow>
     (\<exists>s. init_signer L M = Inr s) \<and> (\<exists>up. NewUserPresence (m_found M) = Ok up) \<and>
     (\<exists>home. m_home M = Inr home \<and> is_ok (fst (NewCredentialStorage (l_json L) (storagePath home) (m_fs M))))"
  (is "?l \<longleftrightarrow> ?r")
proof
  show "?l \<Longrightarrow> ?r" by (elim exE start_stages) simp
next
  assume ?r
  then obtain s up home cs fs where "init_signer L M = Inr s" "NewUserPresence (m_found M) = Ok up" "m_home M = Inr home"
    "NewCredentialStorage (l_json L) (storagePath home) (m_fs M) = (Ok cs, fs)"
    by (auto simp: is_ok_iff) (metis prod.collapse)
  then show ?l by (simp add: start_def)
qed

lemma loop_serves_safely:
  assumes "signer_contract (e_signer E) ok knows verify" "handler_ok ok h"
    and "runNativeMessaging (host_reply E J) marshal stdin stdout h = (e, stdin', out, h')"
  shows "(handler_ok ok h' \<and> (\<forall>m. e \<noteq> EndPanic m)) \<or>
    (\<exists>ms msg rest. rd_data stdin = concat (map nm_frame ms) @ nm_frame msg @ rest \<and> null_message J msg)"
  by (rule loop_keeps [where I = "handler_ok ok" and bad = "null_message J", OF _ assms(2,3)])
     (use signer_contract.host_reply_keeps [OF assms(1) refl] in blast)

section \<open>Properties\<close>

text \<open>
  C40. What it takes to start. The process reaches the messaging loop exactly when a known backend was asked for and
  initialises (the TPM device opens, or the system randomness yields a master key), a confirmation
  program is installed, the home directory is known and the credential store opens; the store is then
  the file below the home directory and no login is pending. In every other case it ends before the loop, having
  written nothing to stdout.
\<close>

theorem start_outcome:
  "(\<exists>h. start L M = Inr h) =
     ((m_backend M = ''tpm'' \<and> (\<exists>d. OpenTPM (l_tpm L) (m_device M) (m_tpm M) = (Inr (), d)) \<or>
       m_backend M = ''memory'' \<and> is_ok (fst (mustRand 32 (m_signer_rng M)))) \<and>
      (m_found M ''fprintd-verify'' \<or> m_found M ''zenity'') \<and>
      (\<exists>home. m_home M = Inr home \<and> is_ok (fst (NewCredentialStorage (l_json L) (storagePath home) (m_fs M))))) \<and>
   (\<forall>h. start L M = Inr h \<longrightarrow> h_assertionState h = None \<and>
      (\<exists>home cs. m_home M = Inr home \<and> h_storage h = Some cs \<and> filePath cs = storagePath home)) \<and>
   (\<forall>x. start L M = Inl x \<longrightarrow> main L M = (x, m_stdout M, None))"
proof (intro conjI)
  show "(\<exists>h. start L M = Inr h) =
     ((m_backend M = ''tpm'' \<and> (\<exists>d. OpenTPM (l_tpm L) (m_device M) (m_tpm M) = (Inr (), d)) \<or>
       m_backend M = ''memory'' \<and> is_ok (fst (mustRand 32 (m_signer_rng M)))) \<and>
      (m_found M ''fprintd-verify'' \<or> m_found M ''zenity'') \<and>
      (\<exists>home. m_home M = Inr home \<and> is_ok (fst (NewCredentialStorage (l_json L) (storagePath home) (m_fs M)))))"
    unfolding start_iff init_signer_iff by (auto simp: NewUserPresence_def detectConfirmMethod_def)
qed (auto simp: main_def elim!: start_stages simp: NewHandler_def dest!: NewCredentialStorage_path)

text \<open>A machine with the software TPM, and one with an unknown backend.\<close>

definition crypto1 :: Crypto where
  "crypto1 = crypto0\<lparr>ecdsaSignASN1 := (\<lambda>d digest r. (Inr (be_fixed 32 (be_nat digest) @ nat_bytes d), r)),
     ecdsaVerify := soft_verify\<rparr>"

lemma crypto1_ok: "crypto_ok crypto1"
  by (auto simp: crypto_ok_def aead_ok_def ec_ok_def crypto1_def crypto0_def be_nat_be_fixed p256_order_def soft_verify_def)

text \<open>A \<^verbatim>\<open>json.Marshal\<close> of replies that writes the members every reply has.\<close>

definition reply_json :: "string \<Rightarrow> string \<Rightarrow> bool \<Rightarrow> bytes" where
  "reply_json ty ident ok =
     str_bytes (''{'' @ json_quote ''type'' @ '':'' @ json_quote ty @ '','' @ json_quote ''requestId'' @ '':'' @ json_quote ident @
       '','' @ json_quote ''success'' @ '':'' @ (if ok then ''true'' else ''false'') @ ''}'')"

definition reply0 :: "web_reply \<Rightarrow> gerr + bytes" where
  "reply0 r =
     Inr (case r of
        ErrorReply e \<Rightarrow> reply_json (er_Type e) (er_RequestID e) (er_Success e)
      | CreateReply c \<Rightarrow> reply_json (cre_Type c) (cre_RequestID c) (cre_Success c)
      | GetReply g \<Rightarrow> reply_json (get_Type g) (get_RequestID g) (get_Success g))"

definition libs0 :: "soft_tpm Libs" where
  "libs0 = \<lparr>l_tpm = soft_lib, l_crypto = crypto1, l_cbor = cbor0, l_json = codec0, l_web = json0 (gopts0 [] None),
     l_reply = reply0\<rparr>"

definition machine0 :: "soft_tpm Machine" where
  "machine0 = \<lparr>m_backend = ''tpm'', m_device = ''/dev/tpmrm0'', m_found = (\<lambda>p. True), m_home = Inr ''/root'', m_fs = fs0,
     m_tpm = \<lparr>so_objs = Map.empty, so_next = 1, so_made = {}\<rparr>, m_signer_rng = rng0, m_rng = rng0, m_clock = (\<lambda>n. int n),
     m_now = 0, m_answers = [(Received yes, True)], m_cleared = [], m_stdin = bytes_reader [5, 0], m_stdout = bytes_buffer\<rparr>"

lemma libs0_simps [simp]:
  "l_tpm libs0 = soft_lib" "l_crypto libs0 = crypto1" "l_cbor libs0 = cbor0" "l_json libs0 = codec0"
  "l_web libs0 = json0 (gopts0 [] None)" "l_reply libs0 = reply0"
  by (simp_all add: libs0_def)

lemma verify1 [simp]: "ecdsaVerify crypto1 = soft_verify"
  by (simp add: crypto1_def)

lemma machine0_ok:
  "good = soft_good \<Longrightarrow> soft_good d \<Longrightarrow> so_objs d = Map.empty \<Longrightarrow> machine_ok libs0 soft_view good (machine0\<lparr>m_tpm := d\<rparr>)"
  unfolding machine_ok_def
  using soft_frame soft_stays soft_works [of "''/dev/tpmrm0''"] crypto1_ok rng0_good
  by (simp add: machine0_def hkdf_long_def soft_lib_def bytes_reader_def soft_view_def)

lemma soft_empty_good: "soft_good (m_tpm machine0)" "so_objs (m_tpm machine0) = Map.empty" "machine0\<lparr>m_tpm := m_tpm machine0\<rparr> = machine0"
  by (simp_all add: machine0_def soft_good_def)

lemma machine0_file: "file_ok libs0 machine0"
  by (simp add: file_ok_def machine0_def fs0_def)

lemma start0:
  "\<exists>h. start libs0 (machine0\<lparr>m_tpm := d\<rparr>) = Inr h \<and> h_presence h = presence0 [(Received yes, True)]"
  by (simp add: start_def init_signer_def NewTPM_def machine0_def soft_lib_def NewUserPresence_def detectConfirmMethod_def
      NewCredentialStorage_def MkdirAll_def Stat_def next_fault_def fs0_def NewHandler_def presence0_def ConfirmMethodFprintd_def)

lemma start_outcome_witness:
  "main libs0 (machine0\<lparr>m_backend := ''usb''\<rparr>) = (Fatal ''Unknown backend: usb (use 'tpm' or 'memory')'', bytes_buffer, None)"
proof -
  have "start libs0 (machine0\<lparr>m_backend := ''usb''\<rparr>) = Inl (Fatal ''Unknown backend: usb (use 'tpm' or 'memory')'')"
    by (simp add: start_def init_signer_def)
  with start_outcome [of libs0 "machine0\<lparr>m_backend := ''usb''\<rparr>"] show ?thesis by (simp add: machine0_def)
qed

text \<open>
  C5. Every request is answered. When stdin holds well-sized messages, none of which maps a credential to
  \<^verbatim>\<open>null\<close>, and stdout takes what is written, the run serves the messages in order and puts exactly one
  frame per message on stdout, each holding a reply to its message (right type, right identifier, a credential
  or one of the four exceptions), and ends at the end of the input; unless a reply does not marshal
  to at most 1 MiB: then the messages before it have been answered just so, nothing of that reply
  is written, and the process ends with a write error. The encoder of replies is arbitrary.
\<close>

theorem main_answers_all:
  assumes "machine_ok L V good M" "file_ok L M" "start L M = Inr h"
    and "m_stdin M = bytes_reader (concat (map nm_frame ms))"
    and "\<forall>m \<in> set ms. 1 \<le> length m \<and> length m \<le> 1048576 \<and> \<not> null_message (l_web L) m" "wr_room (m_stdout M) = None"
  shows "\<exists>rs h'. serve (host_reply (host_env L) (l_web L)) (take (length rs) ms) h = (map Inr rs, h') \<and>
    list_all2 (answers_message (l_web L)) (take (length rs) ms) rs \<and> handler_ok (host_inv L V good M) h' \<and>
    (length rs = length ms \<and> list_all (fits (l_reply L)) rs \<and>
       main L M = (Stopped EndEOF,
         (m_stdout M)\<lparr>wr_out := wr_out (m_stdout M) @ concat (map (reply_frame (l_reply L)) rs)\<rparr>, Some h') \<or>
     (\<exists>rs0 r e. rs = rs0 @ [r] \<and> list_all (fits (l_reply L)) rs0 \<and> \<not> fits (l_reply L) r \<and>
       main L M = (Stopped (EndWrite e),
         (m_stdout M)\<lparr>wr_out := wr_out (m_stdout M) @ concat (map (reply_frame (l_reply L)) rs0)\<rparr>, Some h')))"
proof -
  have c: "signer_contract (e_signer (host_env L)) (host_inv L V good M) (host_knows L V) (ecdsaVerify (l_crypto L))"
    unfolding host_env_def Env.simps by (rule host.signer_contract_axioms)
  note ok = conjunct1 [OF start_ok [OF assms(1-3)]]
  have n: "\<forall>m \<in> set (take k ms). \<not> null_message (l_web L) m" for k using assms(5) by (meson in_set_takeD)
  from serve_replies [OF c ok, of ms "l_web L"] assms(5) obtain rs' h1 where
    "serve (host_reply (host_env L) (l_web L)) ms h = (map Inr rs', h1)" by blast
  from host_loop_serves [OF _ this assms(6), of "l_reply L"] assms(5) obtain e stdin' out' h' rs where
    l: "runNativeMessaging (host_reply (host_env L) (l_web L)) (l_reply L) (m_stdin M) (m_stdout M) h = (e, stdin', out', h')"
    and u: "serves_upto (host_reply (host_env L) (l_web L)) (l_reply L) ms (m_stdout M) h rs h' e out'"
    unfolding assms(4) by blast
  from u have s: "serve (host_reply (host_env L) (l_web L)) (take (length rs) ms) h = (map Inr rs, h')" by (simp add: serves_upto_def)
  with serve_replies [OF c ok n, of "length rs"]
  have "list_all2 (answers_message (l_web L)) (take (length rs) ms) rs" "handler_ok (host_inv L V good M) h'" by auto
  moreover have "main L M = (Stopped e, out', Some h')" by (simp add: main_def assms(3) l)
  ultimately show ?thesis using s u unfolding serves_upto_def by blast
qed

lemma reply_json_length: "length (reply_json ''get'' ''7'' b) \<le> MaxMessageSize"
proof -
  have "length (reply_json ''get'' ''7'' True) \<le> 100" "length (reply_json ''get'' ''7'' False) \<le> 100" by code_simp+
  then show ?thesis by (cases b) (simp_all add: MaxMessageSize_def)
qed

lemma reply0_fits:
  assumes "reply_for ''get'' ''7'' r"
  shows "fits reply0 r"
proof -
  from assms have "\<exists>b. reply0 r = Inr (reply_json ''get'' ''7'' b)"
    unfolding reply_for_def reply0_def by (cases r) auto
  with reply_json_length show ?thesis by (auto simp: fits_def)
qed

lemma main_answers_all_witness:
  "\<exists>r r2 h'. main libs0 (machine0\<lparr>m_stdin := bytes_reader (nm_frame [1] @ nm_frame [2, 2])\<rparr>) =
     (Stopped EndEOF, bytes_buffer\<lparr>wr_out := reply_frame reply0 r @ reply_frame reply0 r2\<rparr>, Some h') \<and>
   reply_for ''get'' ''7'' r \<and> reply_for ''get'' ''7'' r2"
proof -
  let ?M = "machine0\<lparr>m_stdin := bytes_reader (nm_frame [1] @ nm_frame [2, 2])\<rparr>"
  from start0 [of "m_tpm machine0"] soft_empty_good(3) obtain h where "start libs0 machine0 = Inr h" by auto
  then have h: "start libs0 ?M = Inr h" by (simp only: start_stdin)
  have ok: "machine_ok libs0 soft_view soft_good ?M"
    using machine0_ok [OF refl soft_empty_good(1,2), unfolded soft_empty_good(3)] by (simp add: machine_ok_def)
  have i: "m_stdin ?M = bytes_reader (concat (map nm_frame [[1], [2, 2]]))" "file_ok libs0 ?M"
    using machine0_file by (simp_all add: file_ok_def)
  have ms: "\<forall>m \<in> set [[1], [2, 2]]. 1 \<le> length m \<and> length m \<le> 1048576 \<and> \<not> null_message (l_web libs0) m"
    by (simp add: null_message_def null_eval_def json0_def gopts0_def)
  have w: "wr_room (m_stdout ?M) = None" "m_stdout ?M = bytes_buffer" by (simp_all add: machine0_def bytes_buffer_def)
  have a: "answers_message (l_web libs0) m r \<Longrightarrow> m \<in> set [[1], [2, 2]] \<Longrightarrow> reply_for ''get'' ''7'' r" for m r
    by (auto simp: answers_message_def json0_def)
  from main_answers_all [OF ok i(2) h i(1) ms w(1)] obtain rs h' where
    rs: "list_all2 (answers_message (l_web libs0)) (take (length rs) [[1], [2, 2]]) rs"
    and m: "length rs = length [[1], [2, 2 :: byte]] \<and> list_all (fits (l_reply libs0)) rs \<and> main libs0 ?M = (Stopped EndEOF,
         (m_stdout ?M)\<lparr>wr_out := wr_out (m_stdout ?M) @ concat (map (reply_frame (l_reply libs0)) rs)\<rparr>, Some h') \<or>
     (\<exists>rs0 r. rs = rs0 @ [r] \<and> \<not> fits (l_reply libs0) r)" by blast
  have f: "reply_for ''get'' ''7'' r" if "r \<in> set rs" for r
  proof -
    from that obtain k where "k < length rs" "r = rs ! k" by (auto simp: in_set_conv_nth)
    with rs have "answers_message (l_web libs0) (take (length rs) [[1], [2, 2]] ! k) r"
      and "k < length (take (length rs) [[1], [2, 2 :: byte]])" by (auto simp: list_all2_conv_all_nth)
    with a show ?thesis by (meson in_set_takeD nth_mem)
  qed
  then have "\<not> (\<exists>rs0 r. rs = rs0 @ [r] \<and> \<not> fits (l_reply libs0) r)" using reply0_fits by (auto simp: libs0_simps)
  with m have m1: "length rs = length [[1], [2, 2 :: byte]]" "main libs0 ?M = (Stopped EndEOF,
      (m_stdout ?M)\<lparr>wr_out := wr_out (m_stdout ?M) @ concat (map (reply_frame (l_reply libs0)) rs)\<rparr>, Some h')" by blast+
  then have l: "length rs = 2" and m: "main libs0 ?M = (Stopped EndEOF,
      bytes_buffer\<lparr>wr_out := concat (map (reply_frame reply0) rs)\<rparr>, Some h')"
    unfolding w(2) by (simp_all add: bytes_buffer_def)
  from l obtain r r2 where "rs = [r, r2]" by (auto simp: numeral_2_eq_2 length_Suc_conv)
  with m f show ?thesis by auto
qed

text \<open>
  C4. The process survives its input. On a machine that gives the chosen backend what it needs, whatever
  bytes arrive on stdin and whatever the user, the file system and stdout do, the loop ends because of
  the end of the input or a read or write error, never by a panic, and then the handler's invariant
  holds; unless the input contains, after well-formed frames, a get request that maps a credential to
  \<^verbatim>\<open>null\<close>.
\<close>

theorem main_survives:
  assumes "machine_ok L V good M" "file_ok L M" "start L M = Inr h" "main L M = (x, out, Some h')"
  shows "((\<exists>e. x = Stopped e \<and> (\<forall>m. e \<noteq> EndPanic m)) \<and> handler_ok (host_inv L V good M) h') \<or>
    (\<exists>ms msg rest. rd_data (m_stdin M) = concat (map nm_frame ms) @ nm_frame msg @ rest \<and> null_message (l_web L) msg)"
proof -
  from assms(3,4) obtain e stdin' where
    r: "runNativeMessaging (host_reply (host_env L) (l_web L)) (l_reply L) (m_stdin M) (m_stdout M) h = (e, stdin', out, h')"
    and x: "x = Stopped e" by (auto simp: main_def split: prod.splits)
  have "signer_contract (e_signer (host_env L)) (host_inv L V good M) (host_knows L V) (ecdsaVerify (l_crypto L))"
    unfolding host_env_def Env.simps by (rule host.signer_contract_axioms)
  from loop_serves_safely [OF this _ r] start_ok [OF assms(1-3)] x show ?thesis by blast
qed

lemma main_survives_witness:
  "\<exists>e out h'. main libs0 machine0 = (Stopped e, out, Some h') \<and> \<not> (\<exists>m. e = EndPanic m) \<and>
     handler_ok (host_inv libs0 soft_view soft_good machine0) h'"
proof -
  from start0 [of "m_tpm machine0"] soft_empty_good(3) obtain h where h: "start libs0 machine0 = Inr h" by auto
  obtain e stdin1 out h' where
    "runNativeMessaging (host_reply (host_env libs0) (l_web libs0)) (l_reply libs0) (m_stdin machine0) (m_stdout machine0) h =
      (e, stdin1, out, h')" by (metis prod_cases4)
  then have m: "main libs0 machine0 = (Stopped e, out, Some h')" by (simp add: main_def h)
  have i: "rd_data (m_stdin machine0) \<noteq> concat (map nm_frame ms) @ nm_frame msg @ rest" for ms msg rest
  proof
    assume "rd_data (m_stdin machine0) = concat (map nm_frame ms) @ nm_frame msg @ rest"
    from arg_cong [OF this, of length] show False by (simp add: machine0_def bytes_reader_def nm_frame_def)
  qed
  from main_survives [OF machine0_ok [OF refl soft_empty_good(1,2), unfolded soft_empty_good(3)] machine0_file h m] i m
  show ?thesis by auto
qed

text \<open>
  C2. TPM credentials outlive the process. A relying party registers through one run of the program with the TPM
  backend; later the program is started again on the same TPM, which still has not forgotten the keys
  it made (the program itself keeps nothing: credentials file, randomness and clock of the new run are
  arbitrary). A get request for the same relying party that allows the credential and that the user confirms is then
  answered with an assertion that the relying party accepts under the key it registered.
\<close>

theorem restart_then_login:
  assumes "host_inv L V good M (h_signer h)" "rng_good (h_rng h)" "length (h_aaguid h) = 16"
    and "handleCreate (host_env L) J i1 origin1 raw1 h = (Ok (CreateReply created), h1)" "wj_create J raw1 = Inr copts"
    and "h_signer h1 = Inl t"
    and "machine_ok L V good M" "m_backend M = ''tpm''" "made V (tpm_dev t) \<subseteq> made V (m_tpm M)" "start L M = Inr h2"
    and "wj_get J raw2 = Inr gopts" "go_RPID gopts = rel_ID (co_RP copts)"
    and "go_AllowCredentials gopts = [d]" "cre_Credential created = Some c" "de_ID d = cr_ID c" "go_Extensions gopts = None"
    and "DecodeString (go_Challenge gopts) = Some challenge" "valid_utf8 origin2"
    and "BuildClientDataJSON ClientDataTypeGet challenge origin2 = Inr cdj"
    and "ask_presence (''Sign in to '' @ go_RPID gopts) (ClientDataHash cdj) (HashRPID (go_RPID gopts))
           (h_presence h2) = (Answer r, P)" "res_OK r"
  shows "\<exists>credID x y resp h3. rp_registered (l_cbor L) (go_RPID gopts) created credID x y \<and>
    handleGet (host_env L) J i2 origin2 raw2 h2 = (Ok (GetReply resp), h3) \<and>
    rp_accepts (ecdsaVerify (l_crypto L)) x y (go_RPID gopts) challenge origin2 resp"
proof -
  have c: "signer_contract (e_signer (host_env L)) (host_inv L V good M) (host_knows L V) (ecdsaVerify (l_crypto L))"
    unfolding host_env_def Env.simps by (rule host.signer_contract_axioms)
  have "ec_ok (e_crypto (host_env L))" using assms(7) by (simp add: machine_ok_def crypto_ok_def host_env_def)
  from signer_contract.create_registers [OF c refl assms(1) this assms(2-5)] obtain credID x y where
    reg: "rp_registered (l_cbor L) (go_RPID gopts) created credID x y"
    and k: "tpm_knows (l_tpm L) V t credID (HashRPID (go_RPID gopts)) x y"
    by (auto simp: assms(6,12) host_env_def)
  from start_signer [OF assms(10)] obtain s where s: "init_signer L M = Inr s" "h_signer h2 = s" by blast
  have "tpm_frame (l_tpm L) V" using assms(7,8) by (simp add: machine_ok_def)
  from init_signer_tpm [OF assms(8) s(1) this] obtain t2 where t2: "s = Inl t2" "made V (tpm_dev t2) = made V (m_tpm M)" by blast
  have "tpm_knows (l_tpm L) V t2 credID (HashRPID (go_RPID gopts)) x y"
    using k t2(2) assms(9) unfolding tpm_knows_def by blast
  then have k2: "host_knows L V (h_signer h2) credID (HashRPID (go_RPID gopts)) x y" by (simp add: s(2) t2(1))
  have i2: "host_inv L V good M (h_signer h2)" using init_signer_inv [OF assms(7) s(1)] s(2) by simp
  from reg assms(14,15) have "DecodeString (de_ID d) = Some credID" by (auto simp: rp_registered_def)
  then have ids: "decode_ids (go_AllowCredentials gopts) = [credID]" by (simp add: assms(13))
  from signer_contract.get_accepted [OF c refl i2 k2 assms(11,17,18) ids assms(16,19-21)] reg show ?thesis by blast
qed

definition copts1 :: CreateOptions where
  "copts1 = copts0\<lparr>co_Extensions := None\<rparr>"

definition json1 :: "GetOptions \<Rightarrow> WebJson" where
  "json1 go = (json0 go)\<lparr>wj_create := \<lambda>_. Inr copts1\<rparr>"

lemma tpm_create0:
  assumes "tpm_inv soft_lib soft_view ''/dev/tpmrm0'' soft_good soft_verify t" "h_signer h = Inl t" "rng_good (h_rng h)"
    and "h_presence h = presence0 [(Received yes, True)]"
  shows "\<exists>created h1 t1. handleCreate (host_env libs0) (json1 go) ''7'' ''https://a.org'' [] h = (Ok (CreateReply created), h1) \<and>
    h_signer h1 = Inl t1"
proof -
  obtain cdj where b: "BuildClientDataJSON ClientDataTypeCreate [] ''https://a.org'' = Inr cdj"
    by (simp add: BuildClientDataJSON_def marshal_client_data_def)
  obtain P where P: "ask_presence (''Register with '' @ rel_Name (co_RP copts1)) (ClientDataHash cdj)
      (HashRPID (rel_ID (co_RP copts1))) (h_presence h) = (Answer yes, P)"
    using ask_yes assms(4) by (simp del: append.simps) blast
  let ?h = "h\<lparr>h_presence := P\<rparr>" and ?p = "create_params copts1 (ClientDataHash cdj) []" and ?E = "host_env libs0"
  from tpm_register_ok [OF assms(1)] obtain k x y t2 where
    "tpm_RegisterKey soft_lib (HashRPID (mp_RPID ?p)) t = (Ok (k, x, y), t2)" by blast
  then have r: "register_key ?E (HashRPID (mp_RPID ?p)) ?h = (Ok (k, x, y), ?h\<lparr>h_signer := Inl t2\<rparr>)"
    by (simp add: register_key_def host_env_def assms(2) tpm_signer_def)
  have e: "ec_ok (e_crypto ?E)" "rng_good (h_rng ?h)" "encodes_all (e_cbor ?E)"
    using crypto1_ok assms(3) by (simp_all add: host_env_def crypto_ok_def encodes_all_def cbor0_def)
  from register_succeeds [OF r e, of ?p] obtain res h1 where
    "make_credential_register ?E ?p (HashRPID (mp_RPID ?p)) ?h = (Ok res, h1)" by blast
  then have m: "MakeCredentialDirect ?E ?p ?h = (Ok res, h1)"
    by (simp add: MakeCredentialDirect_def ClientDataHash_def copts1_def copts0_def create_params_def)
  have w: "wj_create (json1 go) [] = Inr copts1" "DecodeString (co_Challenge copts1) = Some []"
    "DecodeString (us_ID (co_User copts1)) = Some []"
    "list_ex (\<lambda>p. pk_Type p = ''public-key'' \<and> pk_Alg p = -7) (co_PubKeyCredParams copts1)" "res_OK yes"
    by (simp_all add: json1_def copts1_def copts0_def DecodeString_def yes_def)
  have q: "(if mp_HmacSecret ?p then
        and_then (computePRFResult ?E (mk_CredentialID res) (create_prf_eval copts1) h1)
          (\<lambda>prfResult h2. (Ok (map_option (\<lambda>r. r\<lparr>pres_Enabled := True\<rparr>) prfResult), h2))
      else (Ok None, h1)) = (Ok None, h1)" by (simp add: create_params_def copts1_def)
  note c = create_succeeds [OF w(1-4) b P w(5) m q, of "''7''"]
  have "signer_contract (e_signer ?E) (case_sum (tpm_inv soft_lib soft_view ''/dev/tpmrm0'' soft_good soft_verify) (\<lambda>_. False))
      (host_knows libs0 soft_view) soft_verify"
    unfolding host_env_def Env.simps libs0_simps
    by (rule stable_secret.axioms(1) [OF either_contract [OF tpm.stable_secret_axioms void_contract]])
  from signer_contract.direct_registers [OF this refl _ m] assms(1,2) obtain t1 where "h_signer h1 = Inl t1"
    by (cases "h_signer h1") (auto simp: grows_def)
  with c show ?thesis by blast
qed

lemma first_run0:
  obtains h created cr h1 t where "start libs0 machine0 = Inr h"
    "handleCreate (host_env libs0) (json1 (gopts0 [] None)) ''7'' ''https://a.org'' [] h = (Ok (CreateReply created), h1)"
    "cre_Credential created = Some cr" "h_signer h1 = Inl t" "soft_good (tpm_dev t)" "so_objs (tpm_dev t) = Map.empty"
    "host_inv libs0 soft_view soft_good machine0 (h_signer h)" "rng_good (h_rng h)" "length (h_aaguid h) = 16"
proof -
  note ok0 = machine0_ok [OF refl soft_empty_good(1,2), unfolded soft_empty_good(3)]
  from start0 [of "m_tpm machine0"] soft_empty_good(3) obtain h where
    h: "start libs0 machine0 = Inr h" and p: "h_presence h = presence0 [(Received yes, True)]" by auto
  have i: "host_inv libs0 soft_view soft_good machine0 (h_signer h)" "rng_good (h_rng h)" "length (h_aaguid h) = 16"
    using start_ok [OF ok0 machine0_file h] unfolding handler_ok_def by blast+
  from start_signer [OF h] obtain s where s: "init_signer libs0 machine0 = Inr s" "h_signer h = s" by blast
  have f: "tpm_frame (l_tpm libs0) soft_view" and b: "m_backend machine0 = ''tpm''" by (simp_all add: soft_frame machine0_def)
  from init_signer_tpm [OF b s(1) f] s(2) obtain t0 where t0: "h_signer h = Inl t0" by blast
  have "tpm_inv soft_lib soft_view ''/dev/tpmrm0'' soft_good soft_verify t0" using i(1) t0 by (simp add: machine0_def)
  from tpm_create0 [OF this t0 i(2) p, of "gopts0 [] None"] obtain created h1 t where
    c: "handleCreate (host_env libs0) (json1 (gopts0 [] None)) ''7'' ''https://a.org'' [] h = (Ok (CreateReply created), h1)"
    and t: "h_signer h1 = Inl t" by blast
  from c obtain cr where cr: "cre_Credential created = Some cr"
    by (auto elim!: handleCreate_stages simp: create_response_def)
  have w: "wj_create (json1 (gopts0 [] None)) [] = Inr copts1" by (simp add: json1_def)
  have ec: "ec_ok (e_crypto (host_env libs0))" using crypto1_ok by (simp add: host_env_def crypto_ok_def)
  have "signer_contract (e_signer (host_env libs0)) (host_inv libs0 soft_view soft_good machine0)
      (host_knows libs0 soft_view) (ecdsaVerify (l_crypto libs0))"
    unfolding host_env_def Env.simps by (rule host.signer_contract_axioms)
  from signer_contract.create_registers [OF this refl i(1) ec i(2,3) c w] t
  have "tpm_inv soft_lib soft_view ''/dev/tpmrm0'' soft_good soft_verify t" by (auto simp: grows_def machine0_def)
  then have "soft_good (tpm_dev t)" "so_objs (tpm_dev t) = Map.empty" by (simp_all add: tpm_inv_def soft_view_def)
  with that [OF h c cr t] i show thesis by blast
qed

lemma restart_then_login_witness:
  "\<exists>h created h1 c t h2 resp h3 x y. start libs0 machine0 = Inr h \<and>
     handleCreate (host_env libs0) (json1 (gopts0 [] None)) ''7'' ''https://a.org'' [] h = (Ok (CreateReply created), h1) \<and>
     cre_Credential created = Some c \<and> h_signer h1 = Inl t \<and>
     start libs0 (machine0\<lparr>m_tpm := tpm_dev t\<rparr>) = Inr h2 \<and>
     handleGet (host_env libs0) (json1 (gopts0 (cr_ID c) None)) ''8'' ''https://a.org'' [] h2 = (Ok (GetReply resp), h3) \<and>
     rp_accepts soft_verify x y ''a.org'' [1, 2] ''https://a.org'' resp"
proof -
  from first_run0 obtain h created cr h1 t where h: "start libs0 machine0 = Inr h"
    and c: "handleCreate (host_env libs0) (json1 (gopts0 [] None)) ''7'' ''https://a.org'' [] h = (Ok (CreateReply created), h1)"
    and cr: "cre_Credential created = Some cr" and t: "h_signer h1 = Inl t"
    and g: "soft_good (tpm_dev t)" "so_objs (tpm_dev t) = Map.empty"
    and i: "host_inv libs0 soft_view soft_good machine0 (h_signer h)" "rng_good (h_rng h)" "length (h_aaguid h) = 16" .
  let ?M = "machine0\<lparr>m_tpm := tpm_dev t\<rparr>" and ?g = "gopts0 (cr_ID cr) None"
  have w: "wj_create (json1 ?g) [] = Inr copts1" by (simp add: json1_def)
  from start0 [of "tpm_dev t"] obtain h2 where
    h2: "start libs0 ?M = Inr h2" and p2: "h_presence h2 = presence0 [(Received yes, True)]" by auto
  have c': "handleCreate (host_env libs0) (json1 ?g) ''7'' ''https://a.org'' [] h = (Ok (CreateReply created), h1)"
    using c by (simp add: handleCreate_def json1_def)
  have dev: "m_device machine0 = m_device ?M" "m_backend ?M = ''tpm''" "made soft_view (tpm_dev t) \<subseteq> made soft_view (m_tpm ?M)"
    by (simp_all add: machine0_def)
  obtain cdj where b2: "BuildClientDataJSON ClientDataTypeGet [1, 2] ''https://a.org'' = Inr cdj"
    by (simp add: BuildClientDataJSON_def marshal_client_data_def)
  obtain P where P: "ask_presence (''Sign in to '' @ go_RPID ?g) (ClientDataHash cdj) (HashRPID (go_RPID ?g))
      (h_presence h2) = (Answer yes, P)" using ask_yes p2 by (simp del: append.simps) blast
  have o: "wj_get (json1 ?g) [] = Inr ?g" "go_RPID ?g = rel_ID (co_RP copts1)"
    "go_AllowCredentials ?g = [\<lparr>de_Type = ''public-key'', de_ID = cr_ID cr\<rparr>]" "go_Extensions ?g = None"
    "DecodeString (go_Challenge ?g) = Some [1, 2]" "valid_utf8 ''https://a.org''" "res_OK yes" "go_RPID ?g = ''a.org''"
    by (simp_all add: json1_def json0_def gopts0_def copts1_def copts0_def valid_utf8.simps(2) yes_def)
  from restart_then_login [OF i(1) [unfolded dev(1)] i(2,3) c' w t machine0_ok [OF refl g] dev(2,3) h2 o(1-3) cr _ o(4-6) b2 P o(7),
      of "''8''"]
  obtain x y resp h3 where "handleGet (host_env libs0) (json1 ?g) ''8'' ''https://a.org'' [] h2 = (Ok (GetReply resp), h3)"
    "rp_accepts soft_verify x y ''a.org'' [1, 2] ''https://a.org'' resp" by (auto simp: o(8))
  with h c cr t h2 show ?thesis by blast
qed

end
