(* ===== verification/Spec2Isabelle.thy ===== *)
theory Spec2Isabelle
  imports Lencode HostLoop Ctap2 TpmBackend WebAuthn WebSafety Dispatch Tpmfido
begin

text \<open>
  A model of \<^verbatim>\<open>tpm-fido-prf\<close>, a native messaging host that makes and uses WebAuthn credentials whose keys live in a
  TPM (or, for tests, in memory), with the PRF extension.

  \<^bold>\<open>The program.\<close> The browser extension writes length-prefixed JSON messages to stdin. \<^verbatim>\<open>main\<close> (\<^verbatim>\<open>tpmfido.go\<close>) picks a
  backend, opens the credential store and runs a loop that reads a message, hands it to the WebAuthn
  handler (\<^verbatim>\<open>webauthn/handler.go\<close>) and writes the reply. A create request asks the user
  (\<^verbatim>\<open>userpresence\<close>), registers a key through the CTAP2 handler (\<^verbatim>\<open>ctap2/makecredential.go\<close>), which calls the
  signer backend (\<^verbatim>\<open>tpm\<close>, \<^verbatim>\<open>memory\<close>), saves a resident credential (\<^verbatim>\<open>ctap2/storage.go\<close>) and signs an attestation
  (\<^verbatim>\<open>attestation\<close>); a get request asks the user and signs an assertion (\<^verbatim>\<open>ctap2/getassertion.go\<close>). The same handler also
  answers raw CTAP2 commands (\<^verbatim>\<open>ctap2/ctap2.go\<close>), with \<^verbatim>\<open>hmac-secret\<close> (\<^verbatim>\<open>ctap2/hmacsecret.go\<close>).

  \<^bold>\<open>The theories.\<close> Definitions keep the names of the code; a prefix is added where two packages share a name
  (\<open>mem_\<close>, \<open>tpm_\<close>) and state is passed explicitly.

  \<^item> \<open>Prelude\<close>: bytes, Go results (\<open>Ok\<close>, \<open>Err\<close>, \<open>Panic\<close>), error values and \<^verbatim>\<open>errors.Is\<close>, readers and writers that
    may fail, decimal and big-endian numerals. \<open>Base64\<close>, \<open>Sha256\<close>, \<open>Aes\<close>: the standard library functions
    the code calls, executable: base64url, SHA-256, HMAC, AES-256-CBC.
  \<^item> \<open>Lencode\<close>: \<^verbatim>\<open>internal/lencode/lencode.go\<close>. \<open>NativeMsg\<close>, \<open>HostLoop\<close>: \<^verbatim>\<open>nativemsg/io.go\<close> and the loop of \<^verbatim>\<open>tpmfido.go\<close>.
  \<^item> \<open>Storage\<close>: \<^verbatim>\<open>ctap2/storage.go\<close> over a file system that may fail at every call.
  \<^item> \<open>Ctap2Types\<close>, \<open>AuthData\<close>: \<^verbatim>\<open>ctap2/types.go\<close>, \<^verbatim>\<open>commands.go\<close>, \<^verbatim>\<open>authenticatordata.go\<close>. \<open>Attestation\<close>: \<^verbatim>\<open>attestation.go\<close>.
  \<^item> \<open>Signer\<close>: the interface \<^verbatim>\<open>ctap2.Signer\<close>, as a record of operations, and its contract, the locales
    \<open>signer_contract\<close> and \<open>stable_secret\<close>. \<open>MemoryBackend\<close> (\<^verbatim>\<open>memory/memory.go\<close>) and \<open>TpmBackend\<close> (\<^verbatim>\<open>tpm/tpm.go\<close>)
    implement and interpret it; \<open>Dispatch\<close> is a variable of the interface type.
  \<^item> \<open>UserPresence\<close>: \<^verbatim>\<open>userpresence/userpresence.go\<close>, its goroutines and channels as a step relation.
  \<^item> \<open>Handler\<close>, \<open>HmacSecret\<close>, \<open>MakeCredential\<close>, \<open>GetAssertion\<close>, \<open>Ctap2\<close>: the CTAP2 handler, one theory per file.
  \<^item> \<open>ClientData\<close>, \<open>WebTypes\<close>, \<open>WebAuthn\<close>, \<open>WebSafety\<close>: the package \<^verbatim>\<open>webauthn\<close>. \<open>Tpmfido\<close>: \<^verbatim>\<open>main\<close>.

  \<^bold>\<open>What the theorems show.\<close> Codecs and framings round-trip, also when streams are cut. The store refines a map
  from relying party and user to credential, saves atomically and survives a reopening. A backend that
  keeps the contract can sign, for ever after, with whatever it registered; both backends keep it, the TPM
  backend under what the TPM 2.0 specification says of the commands it uses, and it frees every object it loads.
  Over any such backend, what was registered can be used to log in, as seen by a relying party that
  parses the attestation and runs the verification of the WebAuthn specification, also after the program
  was restarted; nothing is made or signed without the user's confirmation of that very request;
  PRF outputs are stable; commands, requests and whole runs keep the handler's invariant. The host
  loop ends, after at most one iteration per five bytes of input, answers every message in order with a reply of
  the right type and identifier (up to the first reply that is too large to be written, which ends it), and never panics on any input but one kind of message, for which a
  theorem shows that it does. Further theorems pin down the
  behaviour on errors, among them several defects of the code.

  \<^bold>\<open>Parameters and their laws.\<close> Code that is not in the repository is an argument: CBOR (\<open>Cbor\<close>) and the JSON decoders
  (\<open>JsonCodec\<close>, \<open>WebJson\<close>), elliptic curves and XChaCha20-Poly1305 (\<open>Crypto\<close> with \<open>crypto_ok\<close>), the TPM, HKDF and the ASN.1 builder
  (\<open>TpmLib\<close> with \<open>tpm_frame\<close>, \<open>tpm_stays\<close>, \<open>tpm_works\<close>, \<open>hkdf_long\<close>, \<open>hkdf_collision_free\<close>), and the encoder of
  replies, of which nothing is asked. Each law is kept by a concrete
  instance on which the witnesses evaluate. Randomness, clocks, file system errors and the user's
  answers are arbitrary inputs.

  \<^bold>\<open>Bounds.\<close> Machine integers keep their width: 32-bit counters and lengths, the 16-bit credential length, byte
  lengths in \<open>Lencode\<close>. No function is given fuel to be total; \<open>loop_fuel\<close> exists only to state how many
  iterations the loop takes.

  \<^bold>\<open>Not modelled.\<close> Logging and the notification popup have no effect on what the model observes. Mutexes
  make each method atomic, and a run of the program has a single client, so interleaving is modelled
  where it can happen, in \<open>UserPresence\<close>; the handlers see it as \<open>ask_presence\<close>, in which the environment decides who
  wins the wait and when the prompt goroutine clears its request. Time-outs are choices of the environment. A panic ends the process; deferred
  calls still run while it unwinds. The browser extension, installation scripts, build files and tests are not part of the model.
\<close>

end
